(* ===== verification/Prelude.thy ===== *)
theory Prelude
  imports Complex_Main "HOL-Library.Sublist"
begin

text \<open>
  Shared vocabulary of the development: the Python exceptions that the orchestrator
  (\<^verbatim>\<open>src/src/itemlist.py\<close>) can raise or catch, the result type
  \<open>'a result = py_error + 'a\<close> in which a raised exception is an \<open>Inl\<close> value,
  its bind, the first-success combinator \<open>first_some\<close> that models backtracking
  search, and the generic lemmas on lists and options shared by the components.
\<close>

named_theorems model_simps \<open>characteristic equations of the model's operations\<close>

subsection \<open>Exceptions and results\<close>

text \<open>
  \<open>PyException msg\<close> is \<^verbatim>\<open>raise Exception(msg)\<close>; \<open>KeyError k\<close> is a failed
  dictionary subscript \<^verbatim>\<open>d[k]\<close>; \<open>ExternalError msg\<close> is any exception raised
  inside a collaborator that is not part of this file (network, JSON decoding,
  \<^verbatim>\<open>Playlist.do_async_work\<close>), carried with its message.
\<close>

datatype py_error = PyException string | KeyError string | ExternalError string

type_synonym 'a result = "py_error + 'a"

definition res_bind :: "'a result \<Rightarrow> ('a \<Rightarrow> 'b result) \<Rightarrow> 'b result" where
  "res_bind r f = (case r of Inl e \<Rightarrow> Inl e | Inr x \<Rightarrow> f x)"

text \<open>
  A backtracking search tries its alternatives in order and returns the first one
  that succeeds; \<open>first_some\<close> is that search over a list of already computed outcomes.
\<close>

fun first_some :: "'a option list \<Rightarrow> 'a option" where
  "first_some [] = None"
| "first_some (x # xs) = (case x of Some v \<Rightarrow> Some v | None \<Rightarrow> first_some xs)"

lemma res_bind_simps [simp]:
  "res_bind (Inl e) f = Inl e"
  "res_bind (Inr x) f = f x"
  by (simp_all add: res_bind_def)

lemma res_bind_eq_Inr [simp]:
  "res_bind r f = Inr y \<longleftrightarrow> (\<exists>x. r = Inr x \<and> f x = Inr y)"
  by (cases r) simp_all

lemma res_bind_eq_Inl:
  "res_bind r f = Inl e \<longleftrightarrow> r = Inl e \<or> (\<exists>x. r = Inr x \<and> f x = Inl e)"
  by (cases r) simp_all

subsection \<open>First success in a list of alternatives\<close>

lemma first_some_append [simp]:
  "first_some (xs @ ys) = (case first_some xs of None \<Rightarrow> first_some ys | Some v \<Rightarrow> Some v)"
  by (induction xs) (auto split: option.splits)

lemma first_some_map_find:
  "first_some (map f xs) = Option.bind (find (\<lambda>x. f x \<noteq> None) xs) f"
  by (induction xs) (auto split: option.splits)

lemma find_rev_upt_Suc:
  "find P (rev [a..<Suc b]) = (if a \<le> b \<and> P b then Some b else find P (rev [a..<b]))"
  by auto

lemma upt_0_Suc_map: "[0..<Suc n] = 0 # map Suc [0..<n]"
  by (simp add: map_Suc_upt upt_conv_Cons del: upt_Suc)

lemma rev_upt_0_Suc: "rev [0..<Suc n] = map Suc (rev [0..<n]) @ [0]"
  by (simp only: upt_0_Suc_map rev.simps rev_map)

lemma find_append_list:
  "find P (xs @ ys) = (case find P xs of None \<Rightarrow> find P ys | Some x \<Rightarrow> Some x)"
  by (induction xs) simp_all

lemma find_rev_upt_shift:
  "find P (rev (map Suc xs)) = map_option Suc (find (\<lambda>n. P (Suc n)) (rev xs))"
  by (induction xs rule: rev_induct) (simp_all add: find_append_list split: option.splits)

lemma find_Some_in_set:
  "find P xs = Some x \<Longrightarrow> x \<in> set xs \<and> P x"
  by (auto simp: find_Some_iff)

subsection \<open>Prefixes and runs\<close>

lemma takeWhile_drop_run:
  assumes "n \<le> length (takeWhile P xs)"
  shows "takeWhile P (drop n xs) = drop n (takeWhile P xs)"
  using assms
proof (induction xs arbitrary: n)
  case Nil
  then show ?case by simp
next
  case (Cons x xs)
  then show ?case by (cases n) (auto split: if_splits)
qed

lemma dropWhile_drop_run:
  assumes "n \<le> length (takeWhile P xs)"
  shows "dropWhile P (drop n xs) = dropWhile P xs"
  using assms
proof (induction xs arbitrary: n)
  case Nil
  then show ?case by simp
next
  case (Cons x xs)
  then show ?case by (cases n) (auto split: if_splits)
qed

lemma takeWhile_mono_pred:
  assumes "\<And>x. P x \<Longrightarrow> Q x"
  shows "length (takeWhile P xs) \<le> length (takeWhile Q xs)"
  using assms by (induction xs) auto

lemma nth_takeWhile_run:
  "i < length (takeWhile P xs) \<Longrightarrow> P (xs ! i)"
  using nth_mem set_takeWhileD takeWhile_nth by metis


text \<open>The first components of a \<^verbatim>\<open>zip\<close>, mapped: the prefix of the left list
  that the right list covers.\<close>

lemma map_fst_zip_prefix:
  "map (\<lambda>pr. f (fst pr)) (zip xs ys) = map f (take (length ys) xs)"
proof (induction xs arbitrary: ys)
  case Nil
  then show ?case by simp
next
  case (Cons x xs)
  then show ?case by (cases ys) simp_all
qed

end
