(* ===== verification/PyStr.thy ===== *)
theory PyStr
  imports Prelude
begin

text \<open>
  The Python string primitives that \<^verbatim>\<open>ItemList\<close> uses, on strings of code points
  U+0000..U+00FF (one HOL \<open>char\<close> per code point): the whitespace predicate behind
  \<^verbatim>\<open>str.strip()\<close> and the regex class \<^verbatim>\<open>\S\<close>, the word-character predicate
  behind \<^verbatim>\<open>\w\<close>, \<^verbatim>\<open>str.strip()\<close>, \<^verbatim>\<open>str.split(sep)\<close> for a one-character
  separator and its inverse \<^verbatim>\<open>sep.join\<close>. These are CPython library functions, not
  code of the repository; they are written from CPython's definitions
  (\<^verbatim>\<open>Py_UNICODE_ISSPACE\<close>, \<^verbatim>\<open>Py_UNICODE_ISALNUM\<close>) restricted to Latin-1.
\<close>

subsection \<open>Character classes\<close>

text \<open>\<^verbatim>\<open>str.isspace\<close> on U+0000..U+00FF: TAB..CR, the four separators U+001C..U+001F,
  SPACE, NEXT LINE (U+0085) and NO-BREAK SPACE (U+00A0).\<close>

definition py_isspace :: "char \<Rightarrow> bool" where
  "py_isspace c \<longleftrightarrow>
     (let n = of_char c :: nat in (9 \<le> n \<and> n \<le> 13) \<or> (28 \<le> n \<and> n \<le> 32) \<or> n = 133 \<or> n = 160)"

text \<open>The regex class \<^verbatim>\<open>\w\<close> of a str pattern on U+0000..U+00FF: ASCII letters and digits,
  the underscore, and the Latin-1 letters and numerics (U+00AA, U+00B2, U+00B3, U+00B5,
  U+00B9, U+00BA, U+00BC..U+00BE, and U+00C0..U+00FF without U+00D7 and U+00F7).\<close>

definition py_isword :: "char \<Rightarrow> bool" where
  "py_isword c \<longleftrightarrow>
     (let n = of_char c :: nat in
        (48 \<le> n \<and> n \<le> 57) \<or> (65 \<le> n \<and> n \<le> 90) \<or> (97 \<le> n \<and> n \<le> 122) \<or> n = 95 \<or>
        n \<in> {170, 178, 179, 181, 185, 186, 188, 189, 190} \<or>
        (192 \<le> n \<and> n \<noteq> 215 \<and> n \<noteq> 247))"

text \<open>\<^verbatim>\<open>str.strip()\<close>.\<close>

definition py_strip :: "string \<Rightarrow> string" where
  "py_strip s = rev (dropWhile py_isspace (rev (dropWhile py_isspace s)))"

text \<open>\<^verbatim>\<open>s.split(c)\<close> for a one-character separator: the pieces between separators,
  empty pieces included; \<^verbatim>\<open>"".split(c) == [""]\<close>.\<close>

fun py_split :: "char \<Rightarrow> string \<Rightarrow> string list" where
  "py_split c [] = [[]]"
| "py_split c (x # xs) =
     (if x = c then [] # py_split c xs
      else (case py_split c xs of [] \<Rightarrow> [[x]] | w # ws \<Rightarrow> (x # w) # ws))"

fun py_join :: "char \<Rightarrow> string list \<Rightarrow> string" where
  "py_join c [] = []"
| "py_join c [w] = w"
| "py_join c (w # ws) = w @ c # py_join c ws"

subsection \<open>Character class facts\<close>

lemma py_isword_not_space [model_simps]: "py_isword c \<Longrightarrow> \<not> py_isspace c"
  by (auto simp: py_isword_def py_isspace_def Let_def)

lemma py_isspace_newline [simp]: "py_isspace CHR ''\<newline>''"
  by (simp add: py_isspace_def)

subsection \<open>\<^verbatim>\<open>str.strip()\<close> facts\<close>

lemma py_strip_no_trailing_space:
  "py_strip s \<noteq> [] \<Longrightarrow> \<not> py_isspace (last (py_strip s))"
proof -
  assume ne: "py_strip s \<noteq> []"
  let ?r = "rev (dropWhile py_isspace s)"
  have "dropWhile py_isspace ?r \<noteq> []" using ne by (auto simp: py_strip_def)
  then have "\<not> py_isspace (hd (dropWhile py_isspace ?r))" by (rule hd_dropWhile)
  then show ?thesis by (simp add: py_strip_def last_rev)
qed

lemma py_strip_prefix:
  "\<exists>u. dropWhile py_isspace s = py_strip s @ u"
proof -
  let ?d = "dropWhile py_isspace s"
  have "rev ?d = takeWhile py_isspace (rev ?d) @ dropWhile py_isspace (rev ?d)"
    by simp
  then have "?d = rev (dropWhile py_isspace (rev ?d)) @ rev (takeWhile py_isspace (rev ?d))"
    by (metis rev_append rev_rev_ident)
  then show ?thesis by (auto simp: py_strip_def)
qed

lemma py_strip_no_leading_space:
  "py_strip s \<noteq> [] \<Longrightarrow> \<not> py_isspace (hd (py_strip s))"
proof -
  assume ne: "py_strip s \<noteq> []"
  obtain u where u: "dropWhile py_isspace s = py_strip s @ u"
    using py_strip_prefix by blast
  then have "dropWhile py_isspace s \<noteq> []" using ne by simp
  then have "\<not> py_isspace (hd (dropWhile py_isspace s))" by (rule hd_dropWhile)
  with u ne show ?thesis by simp
qed

lemma py_strip_id:
  assumes "t = [] \<or> \<not> py_isspace (hd t) \<and> \<not> py_isspace (last t)"
  shows "py_strip t = t"
proof (cases "t = []")
  case True
  then show ?thesis by (simp add: py_strip_def)
next
  case False
  with assms have "dropWhile py_isspace t = t"
    by (simp add: dropWhile_eq_self_iff)
  moreover from False assms have "dropWhile py_isspace (rev t) = rev t"
    by (simp add: dropWhile_eq_self_iff hd_rev)
  ultimately show ?thesis by (simp add: py_strip_def)
qed

lemma py_strip_idem: "py_strip (py_strip s) = py_strip s"
  by (rule py_strip_id)
    (auto dest: py_strip_no_leading_space py_strip_no_trailing_space)

subsection \<open>\<^verbatim>\<open>str.split(sep)\<close> and \<^verbatim>\<open>sep.join\<close> facts\<close>

lemma py_split_not_Nil [simp]: "py_split c s \<noteq> []"
  by (induction s) (auto split: list.splits)

lemma py_split_pieces: "w \<in> set (py_split c s) \<Longrightarrow> c \<notin> set w"
  by (induction s arbitrary: w) (auto split: if_splits list.splits)

lemma py_split_length: "length (py_split c s) = Suc (count_list s c)"
  by (induction s) (auto split: list.splits)

lemma py_join_Cons_split:
  "py_join c ((x # w) # ws) = x # py_join c (w # ws)"
  by (cases ws) simp_all

lemma py_join_split: "py_join c (py_split c s) = s"
proof (induction s)
  case Nil
  then show ?case by simp
next
  case (Cons x xs)
  show ?case
  proof (cases "x = c")
    case True
    with Cons show ?thesis by (cases "py_split c xs") simp_all
  next
    case False
    with Cons show ?thesis
      by (cases "py_split c xs") (simp_all add: py_join_Cons_split)
  qed
qed

lemma py_split_append_sep:
  "c \<notin> set w \<Longrightarrow> py_split c (w @ c # s) = w # py_split c s"
  by (induction w) auto

lemma py_split_no_sep: "c \<notin> set w \<Longrightarrow> py_split c w = [w]"
  by (induction w) auto

lemma py_split_join:
  "ws \<noteq> [] \<Longrightarrow> (\<forall>w \<in> set ws. c \<notin> set w) \<Longrightarrow> py_split c (py_join c ws) = ws"
proof (induction c ws rule: py_join.induct)
  case (1 c)
  then show ?case by simp
next
  case (2 c w)
  then show ?case by (simp add: py_split_no_sep)
next
  case (3 c w v vs)
  then show ?case by (simp add: py_split_append_sep)
qed

end
