(* ===== verification/PyRe.thy ===== *)
theory PyRe
  imports PyStr
begin

text \<open>
  The fragment of Python's \<^verbatim>\<open>re\<close> module that \<^verbatim>\<open>ItemList.get_id\<close> uses:
  \<^verbatim>\<open>re.match(pattern, s)\<close> and \<^verbatim>\<open>match.group(n)\<close> on patterns built from
  \<^verbatim>\<open>^\<close>, \<^verbatim>\<open>$\<close>, literal characters, the classes \<^verbatim>\<open>[\S]\<close> and
  \<^verbatim>\<open>[\w_-]\<close>, greedy \<^verbatim>\<open>*\<close> on a class, capturing groups and a greedy
  \<^verbatim>\<open>(...)?\<close>. Like CPython's \<^verbatim>\<open>sre\<close> engine, a pattern is a list of nodes run
  left to right with backtracking; a group is a pair of marks (\<^verbatim>\<open>MARK 2g-2\<close>,
  \<^verbatim>\<open>MARK 2g-1\<close>) recording positions. A greedy repetition first tries the longest
  run and gives characters back one at a time; an optional part is first tried
  present, then absent; the first alternative that lets the rest of the pattern
  succeed is the match. \<^verbatim>\<open>p+\<close> is written \<open>[In p, Rep p]\<close>, as sre does.
  This is library semantics, not repository code.
\<close>

datatype char_class = NonSpace | IdChar

fun class_ok :: "char_class \<Rightarrow> char \<Rightarrow> bool" where
  "class_ok NonSpace c = (\<not> py_isspace c)"
| "class_ok IdChar c = (py_isword c \<or> c = CHR ''_'' \<or> c = CHR ''-'')"

datatype node =
    Bol                 \<comment> \<open>\<^verbatim>\<open>^\<close>\<close>
  | Eol                 \<comment> \<open>\<^verbatim>\<open>$\<close>: end of string, or before a final newline\<close>
  | Lit char
  | In char_class       \<comment> \<open>one character of the class\<close>
  | Rep char_class      \<comment> \<open>greedy \<^verbatim>\<open>[...]*\<close>\<close>
  | Mark nat            \<comment> \<open>record the current position in mark slot n\<close>
  | Opt "node list"     \<comment> \<open>greedy \<^verbatim>\<open>(...)?\<close>\<close>

type_synonym marks = "nat \<Rightarrow> nat option"

text \<open>\<open>sre_match rs s i m\<close>: run nodes \<open>rs\<close> on the rest \<open>s\<close> of the subject, at
  position \<open>i\<close>, with marks \<open>m\<close>; \<open>Some m'\<close> is the marks of the first success.\<close>

function sre_match :: "node list \<Rightarrow> string \<Rightarrow> nat \<Rightarrow> marks \<Rightarrow> marks option" where
  "sre_match [] s i m = Some m"
| "sre_match (Bol # rs) s i m = (if i = 0 then sre_match rs s i m else None)"
| "sre_match (Eol # rs) s i m =
     (if s = [] \<or> s = [CHR ''\<newline>''] then sre_match rs s i m else None)"
| "sre_match (Lit c # rs) s i m =
     (case s of [] \<Rightarrow> None
      | x # xs \<Rightarrow> if x = c then sre_match rs xs (Suc i) m else None)"
| "sre_match (In k # rs) s i m =
     (case s of [] \<Rightarrow> None
      | x # xs \<Rightarrow> if class_ok k x then sre_match rs xs (Suc i) m else None)"
| "sre_match (Rep k # rs) s i m =
     (case s of [] \<Rightarrow> sre_match rs s i m
      | x # xs \<Rightarrow>
          if class_ok k x
          then (case sre_match (Rep k # rs) xs (Suc i) m of
                  Some m' \<Rightarrow> Some m'
                | None \<Rightarrow> sre_match rs s i m)
          else sre_match rs s i m)"
| "sre_match (Mark n # rs) s i m = sre_match rs s i (m(n \<mapsto> i))"
| "sre_match (Opt body # rs) s i m =
     (case sre_match (body @ rs) s i m of
        Some m' \<Rightarrow> Some m'
      | None \<Rightarrow> sre_match rs s i m)"
  by pat_completeness auto
termination
  by (relation "measures [\<lambda>(rs, s, i, m). length s, \<lambda>(rs, s, i, m). size_list size rs]")
    auto

text \<open>\<^verbatim>\<open>re.match(p, s)\<close> anchors at position 0; \<^verbatim>\<open>match.group(g)\<close> is the text
  between the group's two marks, \<open>None\<close> when the group did not take part.\<close>

definition re_match :: "node list \<Rightarrow> string \<Rightarrow> marks option" where
  "re_match p s = sre_match p s 0 Map.empty"

definition group :: "marks \<Rightarrow> string \<Rightarrow> nat \<Rightarrow> string option" where
  "group m s g =
     (case (m (2 * g - 2), m (2 * g - 1)) of
        (Some a, Some b) \<Rightarrow> Some (take (b - a) (drop a s))
      | _ \<Rightarrow> None)"

abbreviation lits :: "string \<Rightarrow> node list" where
  "lits w \<equiv> map Lit w"

subsection \<open>Characteristic equations\<close>

text \<open>The equations for \<open>Lit\<close>, \<open>In\<close> and \<open>Rep\<close> branch on the subject; they are
  replaced by one equation per shape of the subject, so that the simplifier never
  unfolds the recursive call of \<open>Rep\<close> under a \<open>case\<close> it cannot decide.\<close>

declare sre_match.simps(4-6) [simp del]

lemma sre_match_Nil_subject [simp]:
  "sre_match (Lit c # rs) [] i m = None"
  "sre_match (In k # rs) [] i m = None"
  "sre_match (Rep k # rs) [] i m = sre_match rs [] i m"
    apply (subst sre_match.simps(4), simp only: list.case)
   apply (subst sre_match.simps(5), simp only: list.case)
  apply (subst sre_match.simps(6), simp only: list.case)
  done

lemma sre_match_Cons_subject [simp]:
  "sre_match (Lit c # rs) (x # xs) i m = (if x = c then sre_match rs xs (Suc i) m else None)"
  "sre_match (In k # rs) (x # xs) i m =
     (if class_ok k x then sre_match rs xs (Suc i) m else None)"
  "sre_match (Rep k # rs) (x # xs) i m =
     (if class_ok k x
      then (case sre_match (Rep k # rs) xs (Suc i) m of
              Some m' \<Rightarrow> Some m'
            | None \<Rightarrow> sre_match rs (x # xs) i m)
      else sre_match rs (x # xs) i m)"
    apply (subst sre_match.simps(4), simp only: list.case)
   apply (subst sre_match.simps(5), simp only: list.case)
  apply (subst sre_match.simps(6), simp only: list.case)
  done

lemma sre_match_lits [model_simps]:
  "sre_match (lits w @ rs) s i m =
     (if take (length w) s = w then sre_match rs (drop (length w) s) (i + length w) m else None)"
proof (induction w arbitrary: s i)
  case Nil
  then show ?case by simp
next
  case (Cons c w)
  then show ?case by (cases s) simp_all
qed

text \<open>A greedy repetition tries the run lengths from the longest down to zero.\<close>

lemma sre_match_Rep:
  "sre_match (Rep k # rs) s i m =
     first_some (map (\<lambda>n. sre_match rs (drop n s) (i + n) m)
                     (rev [0..<Suc (length (takeWhile (class_ok k) s))]))"
proof (induction s arbitrary: i)
  case Nil
  then show ?case by (simp split: option.split)
next
  case (Cons x xs)
  show ?case
  proof (cases "class_ok k x")
    case True
    let ?L = "length (takeWhile (class_ok k) xs)"
    let ?g = "\<lambda>n. sre_match rs (drop n xs) (Suc i + n) m"
    let ?f = "\<lambda>n. sre_match rs (drop n (x # xs)) (i + n) m"
    have ups: "rev [0..<Suc (Suc ?L)] = map Suc (rev [0..<Suc ?L]) @ [0]"
      by (rule rev_upt_0_Suc)
    have fg: "?f \<circ> Suc = ?g" by (simp add: comp_def)
    have last: "first_some [?f 0] = sre_match rs (x # xs) i m"
      by (simp split: option.split)
    have "sre_match (Rep k # rs) (x # xs) i m =
          (case sre_match (Rep k # rs) xs (Suc i) m of
             Some m' \<Rightarrow> Some m' | None \<Rightarrow> sre_match rs (x # xs) i m)"
      using True by (simp only: sre_match_Cons_subject if_True)
    also have "\<dots> = (case first_some (map ?g (rev [0..<Suc ?L])) of
                        Some m' \<Rightarrow> Some m' | None \<Rightarrow> sre_match rs (x # xs) i m)"
      by (simp only: Cons.IH)
    also have "\<dots> = first_some (map ?f (rev [0..<Suc (Suc ?L)]))"
      by (simp only: ups map_append map_map fg first_some_append last)
        (simp split: option.split)
    finally show ?thesis using True by simp
  next
    case False
    then show ?thesis by (simp split: option.split)
  qed
qed

lemma sre_match_Rep_find:
  "sre_match (Rep k # rs) s i m =
     Option.bind (find (\<lambda>n. sre_match rs (drop n s) (i + n) m \<noteq> None)
                       (rev [0..<Suc (length (takeWhile (class_ok k) s))]))
                 (\<lambda>n. sre_match rs (drop n s) (i + n) m)"
  by (simp only: sre_match_Rep first_some_map_find)

text \<open>\<^verbatim>\<open>p+\<close>, that is \<open>In p\<close> followed by \<open>Rep p\<close>, tries the run lengths from the
  longest down to one.\<close>

lemma sre_match_plus:
  "sre_match (In k # Rep k # rs) s i m =
     Option.bind (find (\<lambda>n. sre_match rs (drop n s) (i + n) m \<noteq> None)
                       (rev [1..<Suc (length (takeWhile (class_ok k) s))]))
                 (\<lambda>n. sre_match rs (drop n s) (i + n) m)"
proof (cases s)
  case Nil
  then show ?thesis by simp
next
  case (Cons x xs)
  show ?thesis
  proof (cases "class_ok k x")
    case True
    let ?g = "\<lambda>n. sre_match rs (drop n s) (i + n) m"
    let ?L = "length (takeWhile (class_ok k) xs)"
    have ups: "[1..<Suc (Suc ?L)] = map Suc [0..<Suc ?L]"
      by (simp only: map_Suc_upt One_nat_def)
    have sh: "?g (Suc n) = sre_match rs (drop n xs) (Suc i + n) m" for n
      using Cons by simp
    let ?f = "\<lambda>n. sre_match rs (drop n xs) (Suc i + n) m"
    have fd: "find (\<lambda>n. ?g n \<noteq> None) (rev [1..<Suc (Suc ?L)]) =
          map_option Suc (find (\<lambda>n. ?f n \<noteq> None) (rev [0..<Suc ?L]))"
      by (simp only: ups find_rev_upt_shift sh)
    have gf: "?g \<circ> Suc = ?f" using sh by (simp add: comp_def)
    have "sre_match (In k # Rep k # rs) s i m = sre_match (Rep k # rs) xs (Suc i) m"
      using Cons True by simp
    also have "\<dots> = Option.bind (find (\<lambda>n. ?f n \<noteq> None) (rev [0..<Suc ?L])) ?f"
      by (rule sre_match_Rep_find)
    also have "\<dots> = Option.bind (find (\<lambda>n. ?g n \<noteq> None) (rev [1..<Suc (Suc ?L)])) ?g"
      by (simp only: fd bind_map_option gf)
    finally show ?thesis using Cons True by simp
  next
    case False
    with Cons show ?thesis by simp
  qed
qed

end
