(* ===== verification/LinkClassifier.thy ===== *)
theory LinkClassifier
  imports PyRe
begin

text \<open>
  \<^verbatim>\<open>ItemList.get_id\<close> (\<^verbatim>\<open>src/src/itemlist.py\<close>, lines 70--84): the line is
  stripped, the four patterns are tried in order with \<^verbatim>\<open>re.match\<close>, and the first
  that matches gives \<^verbatim>\<open>(match.group(2), link_type)\<close>; no match gives
  \<^verbatim>\<open>("invalid", "invalid")\<close>. The patterns are written node for node from their
  source text. The main result is \<open>get_id_eq_classify\<close>: the regex search equals the
  declarative \<open>classify\<close>, which says which marker wins (the last occurrence in the
  first word, by greediness), where the identifier stops, and when a line is invalid.
\<close>

datatype link_type = PlaylistLink | VideoLink | InvalidLink

subsection \<open>The patterns of \<^verbatim>\<open>get_id\<close>\<close>

text \<open>\<^verbatim>\<open>([\S]+mk)\<close>: group 1, one or more non-space characters then the marker.\<close>

definition marker_group :: "string \<Rightarrow> node list" where
  "marker_group mk = [Mark 0, In NonSpace, Rep NonSpace] @ lits mk @ [Mark 1]"

text \<open>\<^verbatim>\<open>([\w_-]+)\<close>: group 2, the identifier.\<close>

definition id_group :: "node list" where
  "id_group = [Mark 2, In IdChar, Rep IdChar, Mark 3]"

text \<open>\<^verbatim>\<open>[\S]*$\<close>: the rest of the line.\<close>

definition tail_nodes :: "node list" where
  "tail_nodes = [Rep NonSpace, Eol]"

text \<open>\<^verbatim>\<open>^([\S]+mk)([\w_-]+)[\S]*$\<close> for the markers \<^verbatim>\<open>list=\<close>, \<^verbatim>\<open>v=\<close>,
  \<^verbatim>\<open>be/\<close>, and \<^verbatim>\<open>^([\S]+list=)?([\w_-]+)[\S]*$\<close>.\<close>

definition marker_pattern :: "string \<Rightarrow> node list" where
  "marker_pattern mk = Bol # marker_group mk @ id_group @ tail_nodes"

definition fallback_pattern :: "node list" where
  "fallback_pattern = Bol # Opt (marker_group ''list='') # id_group @ tail_nodes"

definition patterns :: "(node list \<times> link_type) list" where
  "patterns =
     [(marker_pattern ''list='', PlaylistLink),
      (marker_pattern ''v='', VideoLink),
      (marker_pattern ''be/'', VideoLink),
      (fallback_pattern, PlaylistLink)]"

text \<open>The loop over \<^verbatim>\<open>patterns\<close>. \<^verbatim>\<open>match.group(2)\<close> is \<open>None\<close> only when group 2
  did not take part, which \<open>patterns_group_2\<close> below shows never happens for a
  successful match of these patterns; the empty string stands in for it.\<close>

fun first_match :: "(node list \<times> link_type) list \<Rightarrow> string \<Rightarrow> string \<times> link_type" where
  "first_match [] s = (''invalid'', InvalidLink)"
| "first_match ((p, t) # ps) s =
     (case re_match p s of
        Some m \<Rightarrow> (case group m s 2 of Some g \<Rightarrow> (g, t) | None \<Rightarrow> ([], t))
      | None \<Rightarrow> first_match ps s)"

definition get_id :: "string \<Rightarrow> string \<times> link_type" where
  "get_id playlist_link = first_match patterns (py_strip playlist_link)"

subsection \<open>The reference classifier\<close>

abbreviation id_char :: "char \<Rightarrow> bool" where
  "id_char \<equiv> class_ok IdChar"

abbreviation non_space :: "char \<Rightarrow> bool" where
  "non_space \<equiv> class_ok NonSpace"

text \<open>The first word of the line (up to the first whitespace), and whether the rest
  after it is empty or a single final newline (what \<^verbatim>\<open>[\S]*$\<close> accepts).\<close>

definition word_len :: "string \<Rightarrow> nat" where
  "word_len s = length (takeWhile non_space s)"

definition tail_ok :: "string \<Rightarrow> bool" where
  "tail_ok s \<longleftrightarrow> dropWhile non_space s = [] \<or> dropWhile non_space s = [CHR ''\<newline>'']"

text \<open>A marker occurrence at position \<open>n\<close> of the first word, followed inside the word
  by an identifier character; \<open>last_marker\<close> is the last such occurrence at a position
  \<open>\<ge> 1\<close> (the group \<^verbatim>\<open>[\S]+\<close> before the marker takes at least one character).\<close>

definition marker_at :: "string \<Rightarrow> string \<Rightarrow> nat \<Rightarrow> bool" where
  "marker_at mk s n \<longleftrightarrow>
     n + length mk < word_len s \<and> take (length mk) (drop n s) = mk \<and> id_char (s ! (n + length mk))"

definition last_marker :: "string \<Rightarrow> string \<Rightarrow> nat option" where
  "last_marker mk s = find (marker_at mk s) (rev [1..<word_len s])"

definition id_after :: "string \<Rightarrow> nat \<Rightarrow> string" where
  "id_after s k = takeWhile id_char (drop k s)"

definition classify :: "string \<Rightarrow> string \<times> link_type" where
  "classify s =
     (if \<not> tail_ok s then (''invalid'', InvalidLink)
      else case last_marker ''list='' s of
        Some n \<Rightarrow> (id_after s (n + 5), PlaylistLink)
      | None \<Rightarrow> (case last_marker ''v='' s of
        Some n \<Rightarrow> (id_after s (n + 2), VideoLink)
      | None \<Rightarrow> (case last_marker ''be/'' s of
        Some n \<Rightarrow> (id_after s (n + 3), VideoLink)
      | None \<Rightarrow> (if s \<noteq> [] \<and> id_char (hd s) then (id_after s 0, PlaylistLink)
                 else (''invalid'', InvalidLink)))))"

text \<open>The marks that a match of \<^verbatim>\<open>([\S]+mk)([\w_-]+)[\S]*$\<close> from position \<open>i\<close>
  records when the marker is found at \<open>n\<close>.\<close>

definition marker_marks :: "marks \<Rightarrow> nat \<Rightarrow> string \<Rightarrow> string \<Rightarrow> nat \<Rightarrow> marks" where
  "marker_marks m i mk s n =
     (let k = n + length mk
      in m(0 \<mapsto> i, 1 \<mapsto> i + k, 2 \<mapsto> i + k, 3 \<mapsto> i + k + length (id_after s k)))"

abbreviation valid_id :: "string \<Rightarrow> string \<Rightarrow> bool" where
  "valid_id i s \<equiv> i \<noteq> [] \<and> (\<forall>c \<in> set i. id_char c) \<and> sublist i s"

subsection \<open>Matching the pattern pieces\<close>

lemma py_isspace_id_punct [simp]:
  "\<not> py_isspace CHR ''_''" "\<not> py_isspace CHR ''-''"
  by (simp_all add: py_isspace_def)

lemma id_char_non_space: "id_char c \<Longrightarrow> non_space c"
  by (auto simp: py_isword_not_space)

lemma run_bound:
  "k < length s \<Longrightarrow> (\<forall>j\<le>k. P (s ! j)) \<Longrightarrow> k < length (takeWhile P s)"
proof (induction s arbitrary: k)
  case Nil
  then show ?case by simp
next
  case (Cons x xs)
  then show ?case
    by (cases k) (fastforce simp: nth_Cons_Suc)+
qed

lemma tail_ok_drop:
  "n \<le> word_len s \<Longrightarrow> tail_ok (drop n s) = tail_ok s"
  by (simp add: tail_ok_def word_len_def dropWhile_drop_run)

text \<open>\<^verbatim>\<open>[\S]*$\<close> succeeds exactly on the strings that \<open>tail_ok\<close> accepts.\<close>

lemma sre_match_tail:
  "sre_match tail_nodes s i m = (if tail_ok s then Some m else None)"
proof -
  let ?L = "word_len s"
  let ?P = "\<lambda>n. sre_match [Eol] (drop n s) (i + n) m \<noteq> None"
  have early: "\<not> ?P n" if "n < ?L" for n
  proof -
    have "non_space (s ! n)"
      using that [unfolded word_len_def] by (rule nth_takeWhile_run)
    moreover have "n < length s"
      using that length_takeWhile_le less_le_trans by (fastforce simp: word_len_def)
    ultimately have "drop n s = s ! n # drop (Suc n) s" and "non_space (s ! n)"
      by (simp_all add: Cons_nth_drop_Suc)
    then show ?thesis by auto
  qed
  have none: "find ?P (rev [0..<?L]) = None"
    using early by (simp add: find_None_iff)
  have last: "?P ?L \<longleftrightarrow> tail_ok s"
    by (simp add: tail_ok_def word_len_def dropWhile_eq_drop [symmetric])
  have "sre_match tail_nodes s i m =
        Option.bind (find ?P (rev [0..<Suc ?L])) (\<lambda>n. sre_match [Eol] (drop n s) (i + n) m)"
    by (simp only: tail_nodes_def sre_match_Rep_find word_len_def)
  also have "\<dots> = (if tail_ok s then sre_match [Eol] (drop ?L s) (i + ?L) m else None)"
    by (simp only: find_rev_upt_Suc last none zero_le simp_thms if_False if_True)
      (simp split: if_split)
  also have "\<dots> = (if tail_ok s then Some m else None)"
    by (auto simp: tail_ok_def word_len_def dropWhile_eq_drop [symmetric])
  finally show ?thesis .
qed

lemma id_run_le_word: "length (takeWhile id_char s) \<le> word_len s"
  unfolding word_len_def by (rule takeWhile_mono_pred) (rule id_char_non_space)

lemma id_run_pos: "0 < length (takeWhile id_char s) \<longleftrightarrow> s \<noteq> [] \<and> id_char (hd s)"
  by (cases s) simp_all

text \<open>\<^verbatim>\<open>([\w_-]+)[\S]*$\<close> takes the longest identifier run and then needs the line
  to end in the same word.\<close>

lemma sre_match_id_tail:
  "sre_match (id_group @ tail_nodes) s i m =
     (if s \<noteq> [] \<and> id_char (hd s) \<and> tail_ok s
      then Some (m(2 \<mapsto> i, 3 \<mapsto> i + length (id_after s 0))) else None)"
proof -
  let ?L = "length (takeWhile id_char s)"
  let ?m = "m(2 \<mapsto> i)"
  let ?h = "\<lambda>n. sre_match (Mark 3 # tail_nodes) (drop n s) (i + n) ?m"
  have h: "?h n = (if tail_ok s then Some (?m(3 \<mapsto> i + n)) else None)" if "n \<le> ?L" for n
  proof -
    have "n \<le> word_len s" using that id_run_le_word le_trans by blast
    then show ?thesis by (simp add: sre_match_tail tail_ok_drop)
  qed
  have start: "sre_match (id_group @ tail_nodes) s i m =
        Option.bind (find (\<lambda>n. ?h n \<noteq> None) (rev [1..<Suc ?L])) ?h"
    by (simp add: id_group_def sre_match_plus del: upt_Suc)
  show ?thesis
  proof (cases "tail_ok s \<and> 0 < ?L")
    case True
    then have "find (\<lambda>n. ?h n \<noteq> None) (rev [1..<Suc ?L]) = Some ?L"
      by (simp only: find_rev_upt_Suc h [OF order_refl]) (simp add: Suc_le_eq)
    with start have "sre_match (id_group @ tail_nodes) s i m = ?h ?L" by simp
    also have "\<dots> = Some (?m(3 \<mapsto> i + ?L))" using h [OF order_refl] True by simp
    finally show ?thesis using True id_run_pos [of s] by (simp add: id_after_def)
  next
    case False
    have "find (\<lambda>n. ?h n \<noteq> None) (rev [1..<Suc ?L]) = None"
    proof (cases "tail_ok s")
      case True
      with False have "?L = 0" by simp
      then show ?thesis by simp
    next
      case nt: False
      have "\<forall>n \<in> set (rev [1..<Suc ?L]). ?h n = None"
        using h nt by (simp del: upt_Suc)
      then show ?thesis by (simp add: find_None_iff del: upt_Suc set_rev set_upt)
    qed
    moreover have "\<not> (s \<noteq> [] \<and> id_char (hd s) \<and> tail_ok s)"
      using False id_run_pos [of s] by blast
    ultimately show ?thesis using start by (simp del: upt_Suc)
  qed
qed

text \<open>After \<^verbatim>\<open>[\S]+\<close> has taken \<open>n\<close> characters of the first word, the marker,
  an identifier character and a good tail follow exactly when the line is good and the
  marker occurs at \<open>n\<close> in the sense of \<open>marker_at\<close>.\<close>

lemma marker_cond:
  assumes mk: "\<forall>c \<in> set mk. non_space c" and n: "n \<le> word_len s"
  shows "(take (length mk) (drop n s) = mk \<and> drop (n + length mk) s \<noteq> [] \<and>
          id_char (hd (drop (n + length mk) s)) \<and> tail_ok (drop (n + length mk) s))
         \<longleftrightarrow> tail_ok s \<and> marker_at mk s n" (is "?A \<longleftrightarrow> ?B")
proof
  let ?k = "n + length mk"
  assume A: ?A
  then have k: "?k < length s" by simp
  have id: "id_char (s ! ?k)" using A k by (simp add: hd_drop_conv_nth)
  have "non_space (s ! j)" if "j \<le> ?k" for j
  proof (cases "j < n")
    case True
    then have "j < length (takeWhile non_space s)" using n by (simp add: word_len_def)
    then show ?thesis by (rule nth_takeWhile_run)
  next
    case False
    show ?thesis
    proof (cases "j = ?k")
      case True
      with id_char_non_space [OF id] show ?thesis by simp
    next
      case jk: False
      with False that have "j - n < length mk" by simp
      moreover have "s ! j = mk ! (j - n)"
      proof -
        have "n \<le> length s" using k by simp
        then have "s ! j = drop n s ! (j - n)" using False by simp
        also have "\<dots> = take (length mk) (drop n s) ! (j - n)"
          using \<open>j - n < length mk\<close> by simp
        finally show ?thesis using A by simp
      qed
      ultimately show ?thesis using mk by simp
    qed
  qed
  then have kw: "?k < word_len s" unfolding word_len_def by (intro run_bound k) blast
  then show ?B using A id by (simp add: marker_at_def tail_ok_drop)
next
  let ?k = "n + length mk"
  assume B: ?B
  then have kw: "?k < word_len s" by (simp add: marker_at_def)
  then have "?k < length s"
    unfolding word_len_def using length_takeWhile_le less_le_trans by blast
  then show ?A using B kw by (simp add: marker_at_def tail_ok_drop hd_drop_conv_nth)
qed

lemma sre_match_marker:
  assumes mk: "\<forall>c \<in> set mk. non_space c"
  shows "sre_match (marker_group mk @ id_group @ tail_nodes) s i m =
           (if tail_ok s then map_option (marker_marks m i mk s) (last_marker mk s) else None)"
proof -
  let ?W = "word_len s"
  let ?m = "m(0 \<mapsto> i)"
  let ?f = "\<lambda>n. sre_match (lits mk @ Mark 1 # id_group @ tail_nodes) (drop n s) (i + n) ?m"
  have f: "?f n = (if tail_ok s \<and> marker_at mk s n then Some (marker_marks m i mk s n) else None)"
    if n: "n \<le> ?W" for n
  proof -
    have "?f n = (if take (length mk) (drop n s) = mk \<and> drop (n + length mk) s \<noteq> [] \<and>
          id_char (hd (drop (n + length mk) s)) \<and> tail_ok (drop (n + length mk) s)
        then Some (marker_marks m i mk s n) else None)"
    proof -
      have dd: "drop (length mk) (drop n s) = drop (n + length mk) s"
        by (simp add: add.commute)
      show ?thesis
        by (simp add: sre_match_lits sre_match_id_tail marker_marks_def id_after_def Let_def
            add.assoc dd del: drop_drop)
    qed
    then show ?thesis by (simp only: marker_cond [OF mk n])
  qed
  have start: "sre_match (marker_group mk @ id_group @ tail_nodes) s i m =
        Option.bind (find (\<lambda>n. ?f n \<noteq> None) (rev [1..<Suc ?W])) ?f"
    by (simp add: marker_group_def sre_match_plus word_len_def del: upt_Suc)
  have cong: "find (\<lambda>n. ?f n \<noteq> None) (rev [1..<Suc ?W]) =
              find (\<lambda>n. tail_ok s \<and> marker_at mk s n) (rev [1..<Suc ?W])"
  proof (rule find_cong)
    fix n
    assume "n \<in> set (rev [1..<Suc ?W])"
    then have "n \<le> ?W" by (simp del: upt_Suc)
    from f [OF this] show "(?f n \<noteq> None) = (tail_ok s \<and> marker_at mk s n)" by simp
  qed simp
  have top: "\<not> marker_at mk s ?W" by (simp add: marker_at_def)
  show ?thesis
  proof (cases "tail_ok s")
    case True
    have "find (\<lambda>n. ?f n \<noteq> None) (rev [1..<Suc ?W]) =
          find (\<lambda>n. tail_ok s \<and> marker_at mk s n) (rev [1..<Suc ?W])"
      by (rule cong)
    also have "\<dots> = find (marker_at mk s) (rev [1..<Suc ?W])"
      using True by simp
    also have "\<dots> = last_marker mk s"
      using top by (simp only: last_marker_def find_rev_upt_Suc simp_thms if_False)
    finally have fd: "find (\<lambda>n. ?f n \<noteq> None) (rev [1..<Suc ?W]) = last_marker mk s" .
    have fn: "?f n = Some (marker_marks m i mk s n)" if "last_marker mk s = Some n" for n
    proof -
      have "n \<in> set (rev [1..<?W]) \<and> marker_at mk s n"
        using that by (simp add: last_marker_def find_Some_in_set del: upt_Suc set_rev)
      then show ?thesis using True f [of n] by simp
    qed
    show ?thesis
    proof (cases "last_marker mk s")
      case None
      with True start fd show ?thesis by simp
    next
      case (Some n)
      with True start fd fn [OF Some] show ?thesis by simp
    qed
  next
    case False
    then have "find (\<lambda>n. ?f n \<noteq> None) (rev [1..<Suc ?W]) = None"
      by (simp only: cong simp_thms find_None_iff)
    with False start show ?thesis by simp
  qed
qed

subsection \<open>The four patterns\<close>

lemma markers_non_space:
  "\<forall>c \<in> set ''list=''. non_space c" "\<forall>c \<in> set ''v=''. non_space c"
  "\<forall>c \<in> set ''be/''. non_space c"
  by (simp_all add: py_isspace_def)

lemma group_2_id_after:
  "group (m(2 \<mapsto> k, 3 \<mapsto> k + length (id_after s k))) s 2 = Some (id_after s k)"
  by (simp add: group_def id_after_def takeWhile_eq_take [symmetric])

lemma re_match_marker_pattern:
  assumes "\<forall>c \<in> set mk. non_space c"
  shows "re_match (marker_pattern mk) s =
           (if tail_ok s then map_option (marker_marks Map.empty 0 mk s) (last_marker mk s) else None)"
  using sre_match_marker [OF assms, of s 0 Map.empty]
  by (simp add: re_match_def marker_pattern_def)

lemma group_marker_marks:
  "group (marker_marks Map.empty 0 mk s n) s 2 = Some (id_after s (n + length mk))"
proof -
  let ?k = "n + length mk"
  have "marker_marks Map.empty 0 mk s n =
        (Map.empty(0 \<mapsto> 0, 1 \<mapsto> ?k))(2 \<mapsto> ?k, 3 \<mapsto> ?k + length (id_after s ?k))"
    by (simp add: marker_marks_def Let_def)
  then show ?thesis by (simp only: group_2_id_after)
qed

lemma re_match_fallback:
  "re_match fallback_pattern s =
     (case sre_match (marker_group ''list='' @ id_group @ tail_nodes) s 0 Map.empty of
        Some m \<Rightarrow> Some m
      | None \<Rightarrow> (if s \<noteq> [] \<and> id_char (hd s) \<and> tail_ok s
                then Some (Map.empty(2 \<mapsto> 0, 3 \<mapsto> length (id_after s 0))) else None))"
  by (simp add: re_match_def fallback_pattern_def sre_match_id_tail split: option.split)

lemma group_marker_marks_num:
  "group (marker_marks Map.empty 0 ''list='' s n) s 2 = Some (id_after s (n + 5))"
  "group (marker_marks Map.empty 0 ''v='' s n) s 2 = Some (id_after s (n + 2))"
  "group (marker_marks Map.empty 0 ''be/'' s n) s 2 = Some (id_after s (n + 3))"
  using group_marker_marks [of "''list=''" s n] group_marker_marks [of "''v=''" s n]
    group_marker_marks [of "''be/''" s n]
  by (simp_all add: eval_nat_numeral)

lemmas pattern_matches =
  re_match_marker_pattern [OF markers_non_space(1)]
  re_match_marker_pattern [OF markers_non_space(2)]
  re_match_marker_pattern [OF markers_non_space(3)]
  sre_match_marker [OF markers_non_space(1)]

text \<open>The pattern loop of \<^verbatim>\<open>get_id\<close> computes the reference classifier.\<close>

lemma first_match_patterns: "first_match patterns s = classify s"
proof (cases "tail_ok s")
  case False
  then show ?thesis
    by (simp add: patterns_def pattern_matches re_match_fallback classify_def)
next
  case True
  note ok = True
  show ?thesis
  proof (cases "last_marker ''list='' s")
    case (Some n)
    with ok show ?thesis
      by (simp add: patterns_def pattern_matches classify_def group_marker_marks_num)
  next
    case l: None
    show ?thesis
    proof (cases "last_marker ''v='' s")
      case (Some n)
      with ok l show ?thesis
        by (simp add: patterns_def pattern_matches classify_def group_marker_marks_num)
    next
      case v: None
      show ?thesis
      proof (cases "last_marker ''be/'' s")
        case (Some n)
        with ok l v show ?thesis
          by (simp add: patterns_def pattern_matches classify_def group_marker_marks_num)
      next
        case b: None
        have g0: "group (Map.empty(2 \<mapsto> 0, 3 \<mapsto> 0 + length (id_after s 0))) s 2 =
                  Some (id_after s 0)"
          by (rule group_2_id_after)
        from ok l v b g0 show ?thesis
          by (simp add: patterns_def pattern_matches re_match_fallback classify_def)
      qed
    qed
  qed
qed

subsection \<open>Properties of the reference classifier\<close>

lemma id_after_valid:
  assumes "k < length s" "id_char (s ! k)"
  shows "id_after s k \<noteq> [] \<and> (\<forall>c \<in> set (id_after s k). id_char c) \<and> sublist (id_after s k) s"
proof -
  have d: "drop k s = s ! k # drop (Suc k) s" using assms(1) by (rule Cons_nth_drop_Suc [symmetric])
  have "id_after s k \<noteq> []" using assms(2) d by (simp add: id_after_def)
  moreover have "\<forall>c \<in> set (id_after s k). id_char c"
    by (auto simp: id_after_def dest: set_takeWhileD)
  moreover have "sublist (id_after s k) s"
  proof -
    have "s = take k s @ takeWhile id_char (drop k s) @ dropWhile id_char (drop k s)" by simp
    then show ?thesis unfolding id_after_def sublist_def by blast
  qed
  ultimately show ?thesis by blast
qed

lemma marker_at_valid:
  "marker_at mk s n \<Longrightarrow> n + length mk < length s \<and> id_char (s ! (n + length mk))"
  unfolding marker_at_def word_len_def using length_takeWhile_le less_le_trans by blast

lemma last_marker_valid:
  "last_marker mk s = Some n \<Longrightarrow> n + length mk < length s \<and> id_char (s ! (n + length mk))"
  unfolding last_marker_def by (drule find_Some_in_set) (blast dest: marker_at_valid)

lemma last_marker_id_valid:
  "last_marker mk s = Some n \<Longrightarrow> k = n + length mk \<Longrightarrow> valid_id (id_after s k) s"
  using last_marker_valid id_after_valid by blast

lemma classify_valid:
  assumes "snd (classify s) \<noteq> InvalidLink"
  shows "valid_id (fst (classify s)) s"
proof (cases "tail_ok s")
  case False
  with assms show ?thesis by (simp add: classify_def)
next
  case ok: True
  show ?thesis
  proof (cases "last_marker ''list='' s")
    case (Some n)
    with ok last_marker_id_valid [OF Some, of "n + 5"] show ?thesis by (simp add: classify_def)
  next
    case l: None
    show ?thesis
    proof (cases "last_marker ''v='' s")
      case (Some n)
      with ok l last_marker_id_valid [OF Some, of "n + 2"] show ?thesis
        by (simp add: classify_def)
    next
      case v: None
      show ?thesis
      proof (cases "last_marker ''be/'' s")
        case (Some n)
        with ok l v last_marker_id_valid [OF Some, of "n + 3"] show ?thesis
          by (simp add: classify_def)
      next
        case b: None
        with ok l v assms have h: "s \<noteq> [] \<and> id_char (hd s)"
          by (simp add: classify_def split: if_splits)
        then have "0 < length s \<and> id_char (s ! 0)" by (cases s) simp_all
        then have "valid_id (id_after s 0) s" using id_after_valid by blast
        moreover have "classify s = (id_after s 0, PlaylistLink)"
          using ok l v b h by (simp add: classify_def)
        ultimately show ?thesis by simp
      qed
    qed
  qed
qed

lemma py_strip_sublist: "sublist (py_strip s) s"
proof -
  obtain u where u: "dropWhile py_isspace s = py_strip s @ u" using py_strip_prefix by blast
  have "s = takeWhile py_isspace s @ dropWhile py_isspace s" by simp
  with u have "s = takeWhile py_isspace s @ py_strip s @ u" by simp
  then show ?thesis unfolding sublist_def by blast
qed

lemma classify_Nil: "classify [] = (''invalid'', InvalidLink)"
  by (simp add: classify_def tail_ok_def last_marker_def word_len_def)

lemma tail_ok_inner_space:
  assumes "c \<in> set t" "py_isspace c" "t = [] \<or> \<not> py_isspace (last t)"
  shows "\<not> tail_ok t"
proof
  assume ok: "tail_ok t"
  have d: "dropWhile non_space t \<noteq> []"
  proof
    assume "dropWhile non_space t = []"
    then have "\<forall>x \<in> set t. non_space x" by (simp add: dropWhile_eq_Nil_conv)
    with assms(1,2) show False by simp
  qed
  from ok d have nl: "dropWhile non_space t = [CHR ''\<newline>'']" unfolding tail_ok_def by blast
  have "t = takeWhile non_space t @ [CHR ''\<newline>'']"
    using takeWhile_dropWhile_id [of non_space t] nl by simp
  then have "last t = CHR ''\<newline>''" by (metis last_snoc)
  with assms(3) nl show False by (cases t) simp_all
qed

subsection \<open>Claims on \<^verbatim>\<open>get_id\<close>\<close>

text \<open>C1. \<^verbatim>\<open>get_id\<close> (strip, then the first of the four regexes that matches, then group 2)
  computes the declarative classifier on the stripped line: a \<^verbatim>\<open>list=\<close> marker wins
  over \<^verbatim>\<open>v=\<close>, which wins over \<^verbatim>\<open>be/\<close>; of several occurrences of a marker
  the last one in the first word is used; the identifier is the longest run of
  \<^verbatim>\<open>[\w_-]\<close> characters after it; without a marker a line that starts with an identifier
  character is a playlist id; everything else is \<^verbatim>\<open>("invalid", "invalid")\<close>.\<close>

theorem get_id_eq_classify: "get_id line = classify (py_strip line)"
  by (simp add: get_id_def first_match_patterns)

text \<open>C18. A line classified as a playlist or a video yields a non-empty identifier made of
  \<^verbatim>\<open>[\w_-]\<close> characters only, taken from a contiguous part of the line: the
  extraction stops at the first non-identifier character.\<close>

theorem get_id_valid_id:
  "snd (get_id line) \<noteq> InvalidLink \<Longrightarrow>
     fst (get_id line) \<noteq> [] \<and> (\<forall>c \<in> set (fst (get_id line)). id_char c) \<and>
     sublist (fst (get_id line)) line"
  using classify_valid [of "py_strip line"] py_strip_sublist [of line]
  by (auto simp: get_id_def first_match_patterns intro: sublist_order.order_trans)

theorem get_id_valid_id_witness:
  "snd (get_id ''https://youtu.be/dQw4w9WgXcQ?t=42'') \<noteq> InvalidLink \<and>
   fst (get_id ''https://youtu.be/dQw4w9WgXcQ?t=42'') = ''dQw4w9WgXcQ''"
proof -
  have e: "get_id ''https://youtu.be/dQw4w9WgXcQ?t=42'' = (''dQw4w9WgXcQ'', VideoLink)"
    by (simp add: get_id_def first_match_patterns classify_def py_strip_def last_marker_def
        marker_at_def word_len_def tail_ok_def id_after_def py_isspace_def py_isword_def)
  have "fst (get_id ''https://youtu.be/dQw4w9WgXcQ?t=42'') \<noteq> []"
    using get_id_valid_id [of "''https://youtu.be/dQw4w9WgXcQ?t=42''"] e by simp
  with e show ?thesis by simp
qed

lemma no_marker_last_marker:
  "\<not> sublist mk s \<Longrightarrow> last_marker mk s = None"
proof -
  assume ns: "\<not> sublist mk s"
  have "\<not> marker_at mk s n" for n
  proof
    assume "marker_at mk s n"
    then have "take (length mk) (drop n s) = mk" by (simp add: marker_at_def)
    moreover have "s = take n s @ take (length mk) (drop n s) @ drop (length mk) (drop n s)"
      by (simp only: append_take_drop_id)
    ultimately have "sublist mk s" unfolding sublist_def by metis
    with ns show False by simp
  qed
  then show ?thesis by (simp add: last_marker_def find_None_iff)
qed

lemma tail_ok_no_space: "\<forall>c \<in> set s. \<not> py_isspace c \<Longrightarrow> tail_ok s"
  by (simp add: tail_ok_def)

text \<open>C24. A line that is blank, or that still contains whitespace after stripping, matches
  none of the patterns and is classified \<^verbatim>\<open>("invalid", "invalid")\<close>.\<close>

theorem get_id_blank_or_spaced:
  "py_strip line = [] \<or> (\<exists>c \<in> set (py_strip line). py_isspace c) \<Longrightarrow>
     get_id line = (''invalid'', InvalidLink)"
proof (elim disjE)
  assume "py_strip line = []"
  then show ?thesis by (simp add: get_id_def first_match_patterns classify_Nil)
next
  assume "\<exists>c \<in> set (py_strip line). py_isspace c"
  then obtain c where c: "c \<in> set (py_strip line)" "py_isspace c" by blast
  have "py_strip line = [] \<or> \<not> py_isspace (last (py_strip line))"
    using py_strip_no_trailing_space by blast
  with c have "\<not> tail_ok (py_strip line)" by (rule tail_ok_inner_space)
  then show ?thesis by (simp add: get_id_def first_match_patterns classify_def)
qed

theorem get_id_blank_or_spaced_witness:
  "(\<exists>c \<in> set (py_strip ''  watch?v=abc def  ''). py_isspace c) \<and>
   get_id ''  watch?v=abc def  '' = (''invalid'', InvalidLink)"
proof -
  have h: "\<exists>c \<in> set (py_strip ''  watch?v=abc def  ''). py_isspace c"
    by (simp add: py_strip_def py_isspace_def)
  then show ?thesis using get_id_blank_or_spaced [of "''  watch?v=abc def  ''"] by blast
qed

text \<open>C25. A line without whitespace that contains none of the markers
  \<^verbatim>\<open>list=\<close>, \<^verbatim>\<open>v=\<close>, \<^verbatim>\<open>be/\<close> and starts with an identifier character is
  taken as a bare playlist id (the fourth pattern with its optional group absent): the id
  is its longest leading run of \<^verbatim>\<open>[\w_-]\<close> characters.\<close>

theorem get_id_bare_token:
  assumes "\<forall>c \<in> set (py_strip line). \<not> py_isspace c"
    and "\<forall>mk \<in> {''list='', ''v='', ''be/''}. \<not> sublist mk (py_strip line)"
    and "py_strip line \<noteq> []" and "id_char (hd (py_strip line))"
  shows "get_id line = (takeWhile id_char (py_strip line), PlaylistLink)"
  using assms tail_ok_no_space [OF assms(1)]
    no_marker_last_marker [of "''list=''" "py_strip line"]
    no_marker_last_marker [of "''v=''" "py_strip line"]
    no_marker_last_marker [of "''be/''" "py_strip line"]
  by (simp add: get_id_def first_match_patterns classify_def id_after_def)

theorem get_id_bare_token_witness:
  "get_id '' PLrYQ_-x9 '' = (''PLrYQ_-x9'', PlaylistLink)"
proof -
  let ?t = "''PLrYQ_-x9''"
  have st: "py_strip '' PLrYQ_-x9 '' = ?t" by (simp add: py_strip_def py_isspace_def)
  have ns: "\<forall>mk \<in> {''list='', ''v='', ''be/''}. \<not> sublist mk ?t"
    by (simp add: sublist_code)
  have "get_id '' PLrYQ_-x9 '' = (takeWhile id_char ?t, PlaylistLink)"
    using get_id_bare_token [of "'' PLrYQ_-x9 ''"] st ns by (simp add: py_isspace_def py_isword_def)
  then show ?thesis by (simp add: py_isword_def)
qed

text \<open>Example. A line that is only a query parameter \<^verbatim>\<open>list=ID\<close> is not read as the
  playlist \<^verbatim>\<open>ID\<close>: the group \<^verbatim>\<open>[\S]+\<close> before the marker needs a character, so
  the first three patterns fail and the fallback takes the leading word \<^verbatim>\<open>list\<close>
  as a playlist id.\<close>

theorem get_id_bare_list_param:
  "get_id ''list=PL123'' = (''list'', PlaylistLink)"
  by (simp add: get_id_def first_match_patterns classify_def py_strip_def last_marker_def
      marker_at_def word_len_def tail_ok_def id_after_def py_isspace_def py_isword_def)

end
