(* ===== verification/OrderedDict.thy ===== *)
theory OrderedDict
  imports Prelude
begin

text \<open>
  Python's \<^verbatim>\<open>dict\<close> keeps its keys in insertion order: \<^verbatim>\<open>d[k] = v\<close> on a new
  key appends it, on an existing key replaces the value in place; \<^verbatim>\<open>list(d)\<close> is the
  keys in that order; \<^verbatim>\<open>dict.fromkeys(xs)\<close> sets \<^verbatim>\<open>d[x] = None\<close> for each
  \<open>x\<close> of \<open>xs\<close> in turn. \<^verbatim>\<open>get_item_ids\<close> deduplicates with
  \<^verbatim>\<open>list(dict.fromkeys(ids))\<close>. The dict is an association list in insertion order;
  its abstraction is the map \<open>map_of\<close>, and its invariant is that keys are distinct.
  \<open>fromkeys_keys\<close> refines the keys of \<^verbatim>\<open>dict.fromkeys\<close> to the reference
  \<open>first_occurrences\<close>: position \<open>i\<close> is kept exactly when \<open>xs ! i\<close> does not
  occur before \<open>i\<close>. This is CPython library semantics, not repository code.
\<close>

type_synonym ('k, 'v) pydict = "('k \<times> 'v) list"

fun dict_set :: "('k, 'v) pydict \<Rightarrow> 'k \<Rightarrow> 'v \<Rightarrow> ('k, 'v) pydict" where
  "dict_set [] k v = [(k, v)]"
| "dict_set ((a, b) # ps) k v = (if a = k then (k, v) # ps else (a, b) # dict_set ps k v)"

definition dict_keys :: "('k, 'v) pydict \<Rightarrow> 'k list" where
  "dict_keys d = map fst d"

text \<open>\<^verbatim>\<open>dict.fromkeys(xs)\<close>; the value \<^verbatim>\<open>None\<close> is \<open>()\<close>.\<close>

definition dict_fromkeys :: "'k list \<Rightarrow> ('k, unit) pydict" where
  "dict_fromkeys xs = fold (\<lambda>x d. dict_set d x ()) xs []"

definition dict_inv :: "('k, 'v) pydict \<Rightarrow> bool" where
  "dict_inv d \<longleftrightarrow> distinct (dict_keys d)"

text \<open>The reference: keep the first occurrence of each element, in input order.\<close>

definition first_occurrences :: "'a list \<Rightarrow> 'a list" where
  "first_occurrences xs =
     map (\<lambda>i. xs ! i) (filter (\<lambda>i. xs ! i \<notin> set (take i xs)) [0..<length xs])"

subsection \<open>Assignment\<close>

lemma dict_keys_set [model_simps]:
  "dict_keys (dict_set d k v) = (if k \<in> set (dict_keys d) then dict_keys d else dict_keys d @ [k])"
  by (induction d k v rule: dict_set.induct) (auto simp: dict_keys_def)

lemma map_of_dict_set [model_simps]: "map_of (dict_set d k v) = (map_of d)(k \<mapsto> v)"
  by (induction d k v rule: dict_set.induct) (auto simp: fun_eq_iff)

lemma dict_set_inv: "dict_inv d \<Longrightarrow> dict_inv (dict_set d k v)"
  by (simp add: dict_inv_def dict_keys_set)

lemma dict_fromkeys_snoc:
  "dict_fromkeys (xs @ [x]) = dict_set (dict_fromkeys xs) x ()"
  by (simp add: dict_fromkeys_def)

lemma dict_fromkeys_inv: "dict_inv (dict_fromkeys xs)"
  by (induction xs rule: rev_induct)
    (simp_all add: dict_fromkeys_snoc dict_set_inv, simp add: dict_inv_def dict_fromkeys_def dict_keys_def)

lemma dict_fromkeys_keys_snoc:
  "dict_keys (dict_fromkeys (xs @ [x])) =
     (if x \<in> set (dict_keys (dict_fromkeys xs)) then dict_keys (dict_fromkeys xs)
      else dict_keys (dict_fromkeys xs) @ [x])"
  by (simp add: dict_fromkeys_snoc dict_keys_set)

lemma set_dict_fromkeys: "set (dict_keys (dict_fromkeys xs)) = set xs"
  by (induction xs rule: rev_induct)
    (auto simp: dict_fromkeys_keys_snoc, simp_all add: dict_fromkeys_def dict_keys_def)

subsection \<open>The reference deduplication\<close>

lemma first_occurrences_snoc:
  "first_occurrences (xs @ [x]) =
     first_occurrences xs @ (if x \<in> set xs then [] else [x])"
proof -
  let ?P = "\<lambda>i. xs ! i \<notin> set (take i xs)"
  have f: "filter (\<lambda>i. (xs @ [x]) ! i \<notin> set (take i (xs @ [x]))) [0..<length xs] =
           filter ?P [0..<length xs]"
    by (rule filter_cong) (simp_all add: nth_append)
  have m: "map (\<lambda>i. (xs @ [x]) ! i) (filter ?P [0..<length xs]) =
           map (\<lambda>i. xs ! i) (filter ?P [0..<length xs])"
    by (rule map_cong) (simp_all add: nth_append)
  show ?thesis
    using f m by (simp add: first_occurrences_def)
qed

text \<open>\<^verbatim>\<open>list(dict.fromkeys(xs))\<close> keeps exactly the first occurrences.\<close>

lemma fromkeys_keys: "dict_keys (dict_fromkeys xs) = first_occurrences xs"
proof (induction xs rule: rev_induct)
  case Nil
  then show ?case by (simp add: dict_fromkeys_def dict_keys_def first_occurrences_def)
next
  case (snoc x xs)
  then show ?case
    using set_dict_fromkeys [of xs]
    by (simp add: dict_fromkeys_keys_snoc first_occurrences_snoc)
qed

lemma first_occurrences_distinct: "distinct (first_occurrences xs)"
  using dict_fromkeys_inv [of xs] by (simp add: dict_inv_def fromkeys_keys)

lemma set_first_occurrences: "set (first_occurrences xs) = set xs"
  using set_dict_fromkeys [of xs] by (simp add: fromkeys_keys)

lemma first_occurrences_subseq: "subseq (first_occurrences xs) xs"
proof (induction xs rule: rev_induct)
  case Nil
  then show ?case by (simp add: first_occurrences_def)
next
  case (snoc x xs)
  then show ?case by (simp add: first_occurrences_snoc subseq_rev_drop_many)
qed

lemma length_first_occurrences: "length (first_occurrences xs) \<le> length xs"
  using length_filter_le [of _ "[0..<length xs]"] by (simp add: first_occurrences_def)

lemma first_occurrences_rev_remdups: "first_occurrences xs = rev (remdups (rev xs))"
proof (induction xs rule: rev_induct)
  case Nil
  then show ?case by (simp add: first_occurrences_def)
next
  case (snoc x xs)
  then show ?case by (simp add: first_occurrences_snoc)
qed


end
