(* ===== verification/IdentifierSet.thy ===== *)
theory IdentifierSet
  imports LinkClassifier OrderedDict
begin

text \<open>
  \<^verbatim>\<open>ItemList.get_item_ids\<close> (\<^verbatim>\<open>src/src/itemlist.py\<close>, lines 136--150): the input is
  split at \<^verbatim>\<open>"\n"\<close>, every line is classified by \<^verbatim>\<open>get_id\<close>, playlist and video
  ids are appended to two lists (invalid lines are dropped), and each list is
  deduplicated with \<^verbatim>\<open>list(dict.fromkeys(...))\<close>. \<open>collect_ids\<close> is the loop,
  \<open>get_item_ids\<close> the method. The lemmas state the result as the first occurrences of
  the ids of each kind, in input order, and derive distinctness, provenance and bounds.
\<close>

text \<open>The \<^verbatim>\<open>for\<close> loop of lines 140--146, with the two lists as the accumulator.\<close>

fun collect_ids :: "string list \<Rightarrow> string list \<times> string list \<Rightarrow> string list \<times> string list" where
  "collect_ids [] acc = acc"
| "collect_ids (item # items) (playlists, videos) =
     (case get_id item of
        (item_id, item_type) \<Rightarrow>
          if item_type = VideoLink then collect_ids items (playlists, videos @ [item_id])
          else if item_type = PlaylistLink then collect_ids items (playlists @ [item_id], videos)
          else collect_ids items (playlists, videos))"

definition get_item_ids :: "string \<Rightarrow> string list \<times> string list" where
  "get_item_ids input_string =
     (case collect_ids (py_split CHR ''\<newline>'' input_string) ([], []) of
        (playlists, videos) \<Rightarrow>
          (let playlists = dict_keys (dict_fromkeys playlists);
               videos = dict_keys (dict_fromkeys videos)
           in (playlists, videos)))"

text \<open>The ids of one kind, in line order, repeats included.\<close>

definition ids_of_kind :: "link_type \<Rightarrow> string list \<Rightarrow> string list" where
  "ids_of_kind t lines = map (\<lambda>l. fst (get_id l)) (filter (\<lambda>l. snd (get_id l) = t) lines)"

definition input_lines :: "string \<Rightarrow> string list" where
  "input_lines input_string = py_split CHR ''\<newline>'' input_string"

lemma collect_ids_eq:
  "collect_ids items (ps, vs) =
     (ps @ ids_of_kind PlaylistLink items, vs @ ids_of_kind VideoLink items)"
proof (induction items arbitrary: ps vs)
  case Nil
  then show ?case by (simp add: ids_of_kind_def)
next
  case (Cons item items)
  obtain i t where it: "get_id item = (i, t)" by fastforce
  show ?case
    by (cases t) (simp_all add: it Cons.IH ids_of_kind_def)
qed

lemma get_item_ids_dicts:
  "get_item_ids input_string =
     (dict_keys (dict_fromkeys (ids_of_kind PlaylistLink (input_lines input_string))),
      dict_keys (dict_fromkeys (ids_of_kind VideoLink (input_lines input_string))))"
  by (simp add: get_item_ids_def collect_ids_eq input_lines_def)

lemmas get_item_ids_ref = get_item_ids_dicts [unfolded fromkeys_keys]

text \<open>The facts that evaluate \<open>get_item_ids\<close> on a concrete input by \<open>simp\<close>: the
  refinement to first occurrences and the declarative classifier.\<close>

lemmas get_item_ids_eval = get_item_ids_ref ids_of_kind_def input_lines_def first_occurrences_rev_remdups
  get_id_def first_match_patterns classify_def py_strip_def last_marker_def marker_at_def
  word_len_def tail_ok_def id_after_def py_isspace_def py_isword_def

lemma ids_of_kind_length:
  "length (ids_of_kind PlaylistLink ls) + length (ids_of_kind VideoLink ls) \<le> length ls"
proof (induction ls)
  case Nil
  then show ?case by (simp add: ids_of_kind_def)
next
  case (Cons l ls)
  then show ?case by (cases "snd (get_id l)") (simp_all add: ids_of_kind_def)
qed

lemma ids_of_kind_valid:
  "t \<noteq> InvalidLink \<Longrightarrow> i \<in> set (ids_of_kind t ls) \<Longrightarrow>
     i \<noteq> [] \<and> (\<forall>c \<in> set i. id_char c)"
  using classify_valid by (fastforce simp: ids_of_kind_def get_id_def first_match_patterns)

subsection \<open>Claims on \<^verbatim>\<open>get_item_ids\<close>\<close>

text \<open>C2. \<^verbatim>\<open>get_item_ids\<close> returns, for playlists and for videos, the ids that
  \<^verbatim>\<open>get_id\<close> gives the lines of that kind, each kept at its first occurrence, in
  input order; invalid lines contribute nothing.\<close>

theorem get_item_ids_first_occurrences:
  "get_item_ids input_string =
     (first_occurrences (ids_of_kind PlaylistLink (input_lines input_string)),
      first_occurrences (ids_of_kind VideoLink (input_lines input_string)))"
  by (rule get_item_ids_ref)

text \<open>C3. Both returned lists are free of repeats, contain every id of their kind that
  occurs in the input and nothing else, keep the input order (each is a subsequence of
  the ids of its kind), and every id in them is a non-empty run of
  \<^verbatim>\<open>[\w_-]\<close> characters.\<close>

theorem get_item_ids_invariant:
  assumes "get_item_ids input_string = (playlists, videos)"
  shows "distinct playlists \<and> distinct videos \<and>
     set playlists = set (ids_of_kind PlaylistLink (input_lines input_string)) \<and>
     set videos = set (ids_of_kind VideoLink (input_lines input_string)) \<and>
     subseq playlists (ids_of_kind PlaylistLink (input_lines input_string)) \<and>
     subseq videos (ids_of_kind VideoLink (input_lines input_string)) \<and>
     (\<forall>i \<in> set playlists \<union> set videos. i \<noteq> [] \<and> (\<forall>c \<in> set i. id_char c))"
proof -
  let ?ls = "input_lines input_string"
  have p: "playlists = first_occurrences (ids_of_kind PlaylistLink ?ls)"
    and v: "videos = first_occurrences (ids_of_kind VideoLink ?ls)"
    using assms by (simp_all add: get_item_ids_ref)
  have valid: "\<forall>i \<in> set (ids_of_kind PlaylistLink ?ls) \<union> set (ids_of_kind VideoLink ?ls).
      i \<noteq> [] \<and> (\<forall>c \<in> set i. id_char c)"
    using ids_of_kind_valid [of PlaylistLink] ids_of_kind_valid [of VideoLink] by blast
  show ?thesis
    unfolding p v using valid
    by (simp add: first_occurrences_distinct set_first_occurrences first_occurrences_subseq)
qed

theorem get_item_ids_invariant_witness:
  "get_item_ids ''PLa\<newline>https://youtu.be/v1\<newline>PLa'' = ([''PLa''], [''v1'']) \<and>
   distinct [''PLa''] \<and> subseq [''v1''] (ids_of_kind VideoLink (input_lines ''PLa\<newline>https://youtu.be/v1\<newline>PLa''))"
proof -
  have e: "get_item_ids ''PLa\<newline>https://youtu.be/v1\<newline>PLa'' = ([''PLa''], [''v1''])"
    by (simp add: get_item_ids_ref ids_of_kind_def input_lines_def first_occurrences_rev_remdups
        get_id_def first_match_patterns classify_def py_strip_def last_marker_def marker_at_def
        word_len_def tail_ok_def id_after_def py_isspace_def py_isword_def)
  then show ?thesis using get_item_ids_invariant [OF e] by simp
qed

text \<open>C19. The two lists together hold at most one id per input line.\<close>

theorem get_item_ids_bound:
  "length (fst (get_item_ids input_string)) + length (snd (get_item_ids input_string))
     \<le> Suc (count_list input_string CHR ''\<newline>'')"
proof -
  let ?ls = "input_lines input_string"
  have "length (first_occurrences (ids_of_kind PlaylistLink ?ls)) +
        length (first_occurrences (ids_of_kind VideoLink ?ls)) \<le>
        length (ids_of_kind PlaylistLink ?ls) + length (ids_of_kind VideoLink ?ls)"
    using length_first_occurrences add_le_mono by blast
  also have "\<dots> \<le> length ?ls" by (rule ids_of_kind_length)
  finally show ?thesis by (simp add: get_item_ids_ref input_lines_def py_split_length)
qed

text \<open>The end-to-end example of the specification: a watch link and a playlist link
  classify, before any resolution, to one video id and one playlist id.\<close>

theorem get_item_ids_spec_example:
  "get_item_ids ''https://host/watch?v=abc123\<newline>https://host/playlist?list=PL1'' =
     ([''PL1''], [''abc123''])"
  by (simp add: get_item_ids_eval)

text \<open>Deduplication keeps the first occurrence: lines \<open>X, Y, X\<close> that classify as
  playlists give the playlist ids \<open>[X, Y]\<close>.\<close>

theorem get_item_ids_dedup_example:
  "get_item_ids ''PLx\<newline>PLy\<newline>PLx'' = ([''PLx'', ''PLy''], [])"
  by (simp add: get_item_ids_eval)

end
