(* ===== verification/Entities.thy ===== *)
theory Entities
  imports Prelude
begin

text \<open>
  The collaborators of \<^verbatim>\<open>ItemList\<close> that are not in the repository snapshot
  (\<^verbatim>\<open>src/playlist.py\<close>, \<^verbatim>\<open>src/video.py\<close>, \<^verbatim>\<open>src/utils.py\<close> and the HTTP
  service), modelled from section 6 of the specification:
  \<^item> the JSON payloads the code reads, as records whose optional fields are the keys a
    subscript may miss (a missing key is a \<open>KeyError\<close> branch in the code's model);
  \<^item> the \<^verbatim>\<open>Playlist\<close> and \<^verbatim>\<open>Video\<close> entities, as records built by their
    constructors; the fields that \<^verbatim>\<open>ItemList\<close> reads or writes keep their names;
  \<^item> the external operations, as one interface record \<open>api_env\<close> of functions:
    the batched \<^verbatim>\<open>call_youtube_api\<close>, the asynchronous
    \<^verbatim>\<open>Playlist.do_async_work\<close> (its result, of the opaque type \<open>'d\<close>, is stored in
    the entity), the search request, and the checks of the \<^verbatim>\<open>Video\<close> constructor,
    which may raise; every theorem holds for every environment;
  \<^item> the observable effects of a run, as a list of events: each external call and each
    \<^verbatim>\<open>logging.error\<close>, in the order they happen. A computation that can raise returns
    \<open>event list \<times> 'a result\<close> (\<open>'a outcome\<close>); \<open>obind\<close> sequences two of them.
\<close>

subsection \<open>Payloads\<close>

record snippet =
  title :: "string option"
  channelTitle :: "string option"

text \<open>One element of \<^verbatim>\<open>results["items"]\<close> of a batched call.\<close>

record api_item =
  item_id :: string
  snippet :: "snippet option"

text \<open>The \<^verbatim>\<open>error\<close> object of an upstream error payload, whose \<^verbatim>\<open>message\<close>
  key may be absent.\<close>

record error_body =
  message :: "string option"

text \<open>The batched call's result: \<^verbatim>\<open>results["items"]\<close> and \<^verbatim>\<open>results["error"]\<close>,
  each a key that may be absent.\<close>

record api_response =
  items :: "api_item list option"
  error :: "error_body option"

text \<open>One element of the search response's \<^verbatim>\<open>items\<close>: \<^verbatim>\<open>item["id"]["playlistId"]\<close>,
  \<^verbatim>\<open>item["snippet"]["title"]\<close>, \<^verbatim>\<open>item["snippet"]["channelTitle"]\<close>.\<close>

record search_item =
  si_playlistId :: "string option"
  si_title :: "string option"
  si_channelTitle :: "string option"

text \<open>The query of \<^verbatim>\<open>call_similar_playlists_api\<close> (its \<^verbatim>\<open>params\<close> dict).\<close>

record search_params =
  sp_key :: "string option"
  sp_type :: string
  sp_part :: string
  sp_maxResults :: nat
  sp_q :: "string option"

text \<open>What the request and \<^verbatim>\<open>response.json()\<close> give: \<^verbatim>\<open>session.get\<close> raised
  (no response was obtained), \<^verbatim>\<open>response.json()\<close> raised (the body is not JSON), or a
  JSON object whose \<^verbatim>\<open>items\<close> key may be absent.\<close>

datatype search_outcome =
    SearchRaised py_error
  | JsonRaised py_error
  | SearchJson "search_item list option"

subsection \<open>Entities\<close>

record 'd playlist =
  playlist_id :: string
  pl_custom_speed :: "real option"
  pl_start_range :: "int option"
  pl_end_range :: "int option"
  pl_youtube_api :: "string option"
  playlist_name :: "string option"
  playlist_creator :: "string option"
  pl_work :: "'d option"

text \<open>\<^verbatim>\<open>Playlist(id, custom_speed=..., start_range=..., end_range=..., youtube_api=...)\<close>;
  omitted range arguments are \<^verbatim>\<open>None\<close>.\<close>

definition new_playlist ::
  "string \<Rightarrow> real option \<Rightarrow> int option \<Rightarrow> int option \<Rightarrow> string option \<Rightarrow> 'd playlist" where
  "new_playlist pid speed start_r end_r key =
     \<lparr>playlist_id = pid, pl_custom_speed = speed, pl_start_range = start_r,
      pl_end_range = end_r, pl_youtube_api = key, playlist_name = None,
      playlist_creator = None, pl_work = None\<rparr>"

record video =
  video_id :: string
  video_data :: api_item
  v_custom_speed :: "real option"

text \<open>\<^verbatim>\<open>Video(id, data, custom_speed=...)\<close>.\<close>

definition new_video :: "string \<Rightarrow> api_item \<Rightarrow> real option \<Rightarrow> video" where
  "new_video vid data speed = \<lparr>video_id = vid, video_data = data, v_custom_speed = speed\<rparr>"

subsection \<open>Effects\<close>

datatype event =
    ApiCall string "string option" "string list"  \<comment> \<open>\<^verbatim>\<open>call_youtube_api(kind, api=key, ids)\<close>\<close>
  | WorkCall string                               \<comment> \<open>\<^verbatim>\<open>await playlist.do_async_work()\<close>\<close>
  | SearchCall search_params                      \<comment> \<open>\<^verbatim>\<open>session.get(base_url, params)\<close>\<close>
  | LogTimeSlice                                  \<comment> \<open>\<^verbatim>\<open>logging.error(find_time_slice())\<close>\<close>
  | LogApiKey "string option"                     \<comment> \<open>\<^verbatim>\<open>logging.error(self.youtube_api)\<close>\<close>
  | LogResponse api_response                      \<comment> \<open>\<^verbatim>\<open>logging.error(results)\<close>\<close>
  | LogSimilarError string py_error               \<comment> \<open>the failed lookup's playlist id and error\<close>

type_synonym 'a outcome = "event list \<times> 'a result"

definition obind :: "'a outcome \<Rightarrow> ('a \<Rightarrow> 'b outcome) \<Rightarrow> 'b outcome" where
  "obind m f =
     (case m of
        (es, Inl e) \<Rightarrow> (es, Inl e)
      | (es, Inr x) \<Rightarrow> (case f x of (es', r) \<Rightarrow> (es @ es', r)))"

subsection \<open>The environment\<close>

text \<open>\<open>video_init\<close> is what the \<^verbatim>\<open>Video\<close> constructor does beyond storing its
  arguments (\<^verbatim>\<open>src/video.py\<close> is not in the snapshot): \<open>Inl e\<close> when
  \<^verbatim>\<open>Video(id, data, custom_speed=...)\<close> raises \<open>e\<close>.\<close>

record 'd api_env =
  call_youtube_api :: "string \<Rightarrow> string option \<Rightarrow> string list \<Rightarrow> api_response"
  playlist_work :: "'d playlist \<Rightarrow> 'd result"
  search_get :: "search_params \<Rightarrow> search_outcome"
  video_init :: "string \<Rightarrow> api_item \<Rightarrow> real option \<Rightarrow> unit result"

subsection \<open>Sequencing\<close>

lemma obind_simps [simp]:
  "obind (es, Inl e) f = (es, Inl e)"
  "obind (es, Inr x) f = (es @ fst (f x), snd (f x))"
  by (simp_all add: obind_def split: prod.split)

lemma obind_assoc: "obind (obind m f) g = obind m (\<lambda>x. obind (f x) g)"
  by (cases m) (auto simp: obind_def split: sum.split prod.split)

end
