(* ===== verification/ItemListState.thy ===== *)
theory ItemListState
  imports IdentifierSet Entities
begin

text \<open>
  The state of an \<^verbatim>\<open>ItemList\<close> object (\<^verbatim>\<open>src/src/itemlist.py\<close>, lines 12--27).
  The attributes \<^verbatim>\<open>playlist_ids\<close> and \<^verbatim>\<open>video_ids\<close> first hold id strings and,
  after the two resolution phases, hold \<^verbatim>\<open>Playlist\<close> and \<^verbatim>\<open>Video\<close> objects; the
  record is therefore parametric in their element types \<open>'p\<close> and \<open>'v\<close>, and
  \<open>set_playlist_ids\<close>/\<open>set_video_ids\<close> are the assignments that change them.
  \<^verbatim>\<open>similar_playlists\<close> holds the dicts \<^verbatim>\<open>{"id", "title", "channel"}\<close> as
  \<open>similar\<close> records.
\<close>

record similar =
  sim_id :: string
  sim_title :: string
  sim_channel :: string

record ('p, 'v) itemlist =
  input_string :: string
  start_range :: "int option"
  end_range :: "int option"
  custom_speed :: "real option"
  youtube_api :: "string option"
  playlist_ids :: "'p list"
  video_ids :: "'v list"
  similar_playlists :: "similar list"

text \<open>\<^verbatim>\<open>self.playlist_ids = ...\<close> and \<^verbatim>\<open>self.video_ids = ...\<close>.\<close>

definition set_playlist_ids :: "('p, 'v) itemlist \<Rightarrow> 'q list \<Rightarrow> ('q, 'v) itemlist" where
  "set_playlist_ids s ps =
     \<lparr>input_string = input_string s, start_range = start_range s, end_range = end_range s,
      custom_speed = custom_speed s, youtube_api = youtube_api s, playlist_ids = ps,
      video_ids = video_ids s, similar_playlists = similar_playlists s\<rparr>"

definition set_video_ids :: "('p, 'v) itemlist \<Rightarrow> 'w list \<Rightarrow> ('p, 'w) itemlist" where
  "set_video_ids s vs =
     \<lparr>input_string = input_string s, start_range = start_range s, end_range = end_range s,
      custom_speed = custom_speed s, youtube_api = youtube_api s, playlist_ids = playlist_ids s,
      video_ids = vs, similar_playlists = similar_playlists s\<rparr>"

text \<open>\<^verbatim>\<open>ItemList.__init__\<close>: store the configuration, classify the input
  (\<^verbatim>\<open>get_item_ids\<close>) and start with no similar playlists.\<close>

definition init_itemlist ::
  "string \<Rightarrow> int option \<Rightarrow> int option \<Rightarrow> real option \<Rightarrow> string option \<Rightarrow>
   (string, string) itemlist" where
  "init_itemlist input start_r end_r speed key =
     (case get_item_ids input of
        (playlists, videos) \<Rightarrow>
          \<lparr>input_string = input, start_range = start_r, end_range = end_r,
           custom_speed = speed, youtube_api = key, playlist_ids = playlists,
           video_ids = videos, similar_playlists = []\<rparr>)"

lemma set_playlist_ids_simps [simp]:
  "playlist_ids (set_playlist_ids s ps) = ps"
  "video_ids (set_playlist_ids s ps) = video_ids s"
  "similar_playlists (set_playlist_ids s ps) = similar_playlists s"
  "input_string (set_playlist_ids s ps) = input_string s"
  "start_range (set_playlist_ids s ps) = start_range s"
  "end_range (set_playlist_ids s ps) = end_range s"
  "custom_speed (set_playlist_ids s ps) = custom_speed s"
  "youtube_api (set_playlist_ids s ps) = youtube_api s"
  by (simp_all add: set_playlist_ids_def)

lemma set_video_ids_simps [simp]:
  "video_ids (set_video_ids s vs) = vs"
  "playlist_ids (set_video_ids s vs) = playlist_ids s"
  "similar_playlists (set_video_ids s vs) = similar_playlists s"
  "input_string (set_video_ids s vs) = input_string s"
  "start_range (set_video_ids s vs) = start_range s"
  "end_range (set_video_ids s vs) = end_range s"
  "custom_speed (set_video_ids s vs) = custom_speed s"
  "youtube_api (set_video_ids s vs) = youtube_api s"
  by (simp_all add: set_video_ids_def)

lemma init_itemlist_ids:
  "playlist_ids (init_itemlist input start_r end_r speed key) = fst (get_item_ids input)"
  "video_ids (init_itemlist input start_r end_r speed key) = snd (get_item_ids input)"
  "similar_playlists (init_itemlist input start_r end_r speed key) = []"
  by (simp_all add: init_itemlist_def split: prod.split)

end
