(* ===== verification/Fixtures.thy ===== *)
theory Fixtures
  imports ItemListState
begin

text \<open>
  Concrete environments and states on which the witnesses of the component theorems
  evaluate the model: a configured \<^verbatim>\<open>ItemList\<close> with three playlist ids and one video
  id, an API that answers every id, one that answers with an error payload, one that
  answers with no items, one whose error payload has no \<^verbatim>\<open>error\<close> key, one that omits an id it does not know (as the real
  \<^verbatim>\<open>playlists\<close> endpoint does for deleted playlists), one that resolves the playlists but
  answers the videos endpoint with an error payload, and a search service that
  fails for one title. These are test inputs, not models of the code.
\<close>

definition demo_state :: "(string, string) itemlist" where
  "demo_state =
     \<lparr>input_string = ''PL1\<newline>PL2\<newline>PL3\<newline>https://youtu.be/v1'', start_range = Some 10,
      end_range = Some 20, custom_speed = Some 2, youtube_api = Some ''KEY'',
      playlist_ids = [''PL1'', ''PL2'', ''PL3''], video_ids = [''v1''], similar_playlists = []\<rparr>"

definition demo_item :: "string \<Rightarrow> api_item" where
  "demo_item i = \<lparr>item_id = i, snippet = Some \<lparr>title = Some (''T'' @ i), channelTitle = Some (''C'' @ i)\<rparr>\<rparr>"

definition answer_all :: "string \<Rightarrow> string option \<Rightarrow> string list \<Rightarrow> api_response" where
  "answer_all kind key ids = \<lparr>items = Some (map demo_item ids), error = None\<rparr>"

definition answer_known :: "string \<Rightarrow> string option \<Rightarrow> string list \<Rightarrow> api_response" where
  "answer_known kind key ids =
     \<lparr>items = Some (map demo_item (filter (\<lambda>i. i \<noteq> ''PL1'') ids)), error = None\<rparr>"

definition search_demo :: "search_params \<Rightarrow> search_outcome" where
  "search_demo p =
     (if sp_q p = Some ''TPL2'' then SearchRaised (ExternalError ''timeout'')
      else SearchJson (Some (take (sp_maxResults p)
             [\<lparr>si_playlistId = Some (''S'' @ the (sp_q p)),
               si_title = Some ''similar'', si_channelTitle = Some ''ch''\<rparr>])))"

definition env_ok :: "unit api_env" where
  "env_ok = \<lparr>call_youtube_api = answer_all, playlist_work = (\<lambda>p. Inr ()), search_get = search_demo,
      video_init = (\<lambda>vid data sp. Inr ())\<rparr>"

definition env_error :: "unit api_env" where
  "env_error =
     \<lparr>call_youtube_api = (\<lambda>kind key ids. \<lparr>items = None, error = Some \<lparr>message = Some ''quotaExceeded''\<rparr>\<rparr>),
      playlist_work = (\<lambda>p. Inr ()), search_get = search_demo,
      video_init = (\<lambda>vid data sp. Inr ())\<rparr>"

definition env_empty :: "unit api_env" where
  "env_empty =
     \<lparr>call_youtube_api = (\<lambda>kind key ids. \<lparr>items = Some [], error = None\<rparr>),
      playlist_work = (\<lambda>p. Inr ()), search_get = search_demo,
      video_init = (\<lambda>vid data sp. Inr ())\<rparr>"

definition env_malformed :: "unit api_env" where
  "env_malformed =
     \<lparr>call_youtube_api = (\<lambda>kind key ids. \<lparr>items = None, error = None\<rparr>),
      playlist_work = (\<lambda>p. Inr ()), search_get = search_demo,
      video_init = (\<lambda>vid data sp. Inr ())\<rparr>"

definition env_known :: "unit api_env" where
  "env_known = \<lparr>call_youtube_api = answer_known, playlist_work = (\<lambda>p. Inr ()), search_get = search_demo,
      video_init = (\<lambda>vid data sp. Inr ())\<rparr>"

text \<open>The state after a playlist phase that resolved \<open>PL1\<close>..\<open>PL3\<close> with titles
  \<open>TPL1\<close>..\<open>TPL3\<close>.\<close>

definition demo_resolved :: "(unit playlist, string) itemlist" where
  "demo_resolved =
     set_playlist_ids demo_state
       (map (\<lambda>i. (new_playlist i (Some 2) None None (Some ''KEY''))\<lparr>playlist_name := Some (''T'' @ i)\<rparr>)
          [''PL1'', ''PL2'', ''PL3''])"

text \<open>A state after all three phases: three playlists, one video, one similar playlist.\<close>

definition demo_final :: "(unit playlist, video) itemlist" where
  "demo_final =
     (set_video_ids demo_resolved [new_video ''v1'' (demo_item ''v1'') (Some 2)])
       \<lparr>similar_playlists := [\<lparr>sim_id = ''S1'', sim_title = ''one'', sim_channel = ''ch''\<rparr>]\<rparr>"

text \<open>A search service whose second result lacks its channel title.\<close>

definition env_incomplete :: "unit api_env" where
  "env_incomplete =
     \<lparr>call_youtube_api = answer_all, playlist_work = (\<lambda>p. Inr ()),
      search_get = (\<lambda>p. SearchJson (Some
        [\<lparr>si_playlistId = Some ''S1'', si_title = Some ''one'', si_channelTitle = Some ''ch''\<rparr>,
         \<lparr>si_playlistId = Some ''S2'', si_title = Some ''two'', si_channelTitle = None\<rparr>])),
      video_init = (\<lambda>vid data sp. Inr ())\<rparr>"

text \<open>An API that resolves playlists and answers the videos endpoint with an error payload.\<close>

definition env_videos_error :: "unit api_env" where
  "env_videos_error =
     \<lparr>call_youtube_api = (\<lambda>kind key ids.
        if kind = ''videos'' then \<lparr>items = None, error = Some \<lparr>message = Some ''quotaExceeded''\<rparr>\<rparr>
        else answer_all kind key ids),
      playlist_work = (\<lambda>p. Inr ()), search_get = search_demo,
      video_init = (\<lambda>vid data sp. Inr ())\<rparr>"

text \<open>An API whose error payload has an \<^verbatim>\<open>error\<close> object without a \<^verbatim>\<open>message\<close>.\<close>

definition env_no_message :: "unit api_env" where
  "env_no_message =
     \<lparr>call_youtube_api = (\<lambda>kind key ids. \<lparr>items = None, error = Some \<lparr>message = None\<rparr>\<rparr>),
      playlist_work = (\<lambda>p. Inr ()), search_get = search_demo,
      video_init = (\<lambda>vid data sp. Inr ())\<rparr>"

text \<open>An API that answers every id, with a \<^verbatim>\<open>Video\<close> constructor that rejects the
  item of \<open>v2\<close>.\<close>

definition env_bad_video :: "unit api_env" where
  "env_bad_video =
     \<lparr>call_youtube_api = answer_all, playlist_work = (\<lambda>p. Inr ()), search_get = search_demo,
      video_init = (\<lambda>vid data sp. if vid = ''v2'' then Inl (ExternalError ''bad item'') else Inr ())\<rparr>"

lemmas fixture_defs = demo_state_def demo_item_def answer_all_def answer_known_def search_demo_def
  env_ok_def env_error_def env_empty_def env_malformed_def env_known_def
  demo_resolved_def env_incomplete_def demo_final_def env_videos_error_def
  env_no_message_def env_bad_video_def

end
