(* ===== verification/Resolver.thy ===== *)
theory Resolver
  imports Fixtures
begin

text \<open>
  The two batch phases of \<^verbatim>\<open>ItemList\<close> (\<^verbatim>\<open>src/src/itemlist.py\<close>):
  \<^verbatim>\<open>populate_playlist_names\<close> (lines 86--123) and \<^verbatim>\<open>populate_video_names\<close>
  (lines 125--134). Each makes one batched call; the playlist phase empties the list when
  the response has no items, logs and raises when the response has no \<^verbatim>\<open>items\<close> key,
  and otherwise builds one \<^verbatim>\<open>Playlist\<close> per \<^verbatim>\<open>(id, item)\<close> pair of
  \<^verbatim>\<open>zip(self.playlist_ids, results["items"])\<close>, the first with the range window,
  awaiting \<^verbatim>\<open>do_async_work\<close> before the name and creator are read from the item.
  The loop of lines 102--121 is \<open>build_playlists\<close>, with \<^verbatim>\<open>refined_list\<close> as its
  accumulator. The video phase subscripts \<^verbatim>\<open>results["items"]\<close> unguarded and builds one
  \<^verbatim>\<open>Video\<close> per pair in \<open>build_videos\<close>; an exception of the constructor ends the
  phase.
\<close>

text \<open>\<^verbatim>\<open>data["snippet"]["title"]\<close> and \<^verbatim>\<open>data["snippet"]["channelTitle"]\<close>.\<close>

definition item_title :: "api_item \<Rightarrow> string result" where
  "item_title data =
     (case snippet data of
        None \<Rightarrow> Inl (KeyError ''snippet'')
      | Some sn \<Rightarrow> (case title sn of None \<Rightarrow> Inl (KeyError ''title'') | Some t \<Rightarrow> Inr t))"

definition item_channel :: "api_item \<Rightarrow> string result" where
  "item_channel data =
     (case snippet data of
        None \<Rightarrow> Inl (KeyError ''snippet'')
      | Some sn \<Rightarrow> (case channelTitle sn of None \<Rightarrow> Inl (KeyError ''channelTitle'') | Some c \<Rightarrow> Inr c))"

fun build_playlists ::
  "'d api_env \<Rightarrow> ('p, 'v) itemlist \<Rightarrow> 'd playlist list \<Rightarrow> (string \<times> api_item) list \<Rightarrow>
   'd playlist list outcome" where
  "build_playlists env s refined_list [] = ([], Inr refined_list)"
| "build_playlists env s refined_list ((pid, data) # rest) =
     (let playlist =
        (if length refined_list = 0
         then new_playlist pid (custom_speed s) (start_range s) (end_range s) (youtube_api s)
         else new_playlist pid (custom_speed s) None None (youtube_api s))
      in obind ([WorkCall pid], playlist_work env playlist) (\<lambda>d.
         obind ([], item_title data) (\<lambda>t.
         obind ([], item_channel data) (\<lambda>c.
           build_playlists env s
             (refined_list @ [playlist\<lparr>pl_work := Some d, playlist_name := Some t,
                                      playlist_creator := Some c\<rparr>]) rest))))"

definition populate_playlist_names ::
  "'d api_env \<Rightarrow> (string, 'v) itemlist \<Rightarrow> ('d playlist, 'v) itemlist outcome" where
  "populate_playlist_names env s =
     (let results = call_youtube_api env ''playlists'' (youtube_api s) (playlist_ids s);
          called = [ApiCall ''playlists'' (youtube_api s) (playlist_ids s)]
      in case items results of
           None \<Rightarrow>
             (called @ [LogTimeSlice, LogApiKey (youtube_api s), LogResponse results],
              case error results of
                None \<Rightarrow> Inl (KeyError ''error'')
              | Some err \<Rightarrow>
                  (case message err of
                     None \<Rightarrow> Inl (KeyError ''message'')
                   | Some msg \<Rightarrow> Inl (PyException msg)))
         | Some its \<Rightarrow>
             if length its = 0 then (called, Inr (set_playlist_ids s []))
             else obind (called, Inr ()) (\<lambda>_.
                  obind (build_playlists env s [] (zip (playlist_ids s) its)) (\<lambda>refined_list.
                    ([], Inr (set_playlist_ids s refined_list)))))"

text \<open>The loop of lines 130--132: \<^verbatim>\<open>Video(id, data, custom_speed=...)\<close> for each
  pair in order, appended to \<^verbatim>\<open>refined_list\<close>; an exception of the constructor
  propagates out of the loop.\<close>

fun build_videos ::
  "'d api_env \<Rightarrow> real option \<Rightarrow> video list \<Rightarrow> (string \<times> api_item) list \<Rightarrow> video list result" where
  "build_videos env speed refined_list [] = Inr refined_list"
| "build_videos env speed refined_list ((vid, data) # rest) =
     res_bind (video_init env vid data speed) (\<lambda>_.
       build_videos env speed (refined_list @ [new_video vid data speed]) rest)"

definition populate_video_names ::
  "'d api_env \<Rightarrow> ('p, string) itemlist \<Rightarrow> ('p, video) itemlist outcome" where
  "populate_video_names env s =
     (let results = call_youtube_api env ''videos'' (youtube_api s) (video_ids s);
          called = [ApiCall ''videos'' (youtube_api s) (video_ids s)]
      in case items results of
           None \<Rightarrow> (called, Inl (KeyError ''items''))
         | Some its \<Rightarrow>
             (called, res_bind (build_videos env (custom_speed s) [] (zip (video_ids s) its))
                        (\<lambda>refined_list. Inr (set_video_ids s refined_list))))"

subsection \<open>The loop over the (id, item) pairs\<close>

text \<open>The entity the loop constructs for the pair at position \<open>k\<close> of the refined list:
  only position 0 receives the range window.\<close>

definition pl_for :: "('p, 'v) itemlist \<Rightarrow> nat \<Rightarrow> string \<Rightarrow> 'd playlist" where
  "pl_for s k pid =
     (if k = 0 then new_playlist pid (custom_speed s) (start_range s) (end_range s) (youtube_api s)
      else new_playlist pid (custom_speed s) None None (youtube_api s))"

text \<open>Entity \<open>p\<close> is what the loop makes of the pair \<open>(pid, data)\<close> at position
  \<open>k\<close>: the constructed playlist after \<^verbatim>\<open>do_async_work\<close> succeeded, with the name and
  creator of the item.\<close>

definition resolved_as ::
  "'d api_env \<Rightarrow> ('p, 'v) itemlist \<Rightarrow> nat \<Rightarrow> string \<times> api_item \<Rightarrow> 'd playlist \<Rightarrow> bool" where
  "resolved_as env s k pair p =
     (case pair of (pid, data) \<Rightarrow>
       (case (playlist_work env (pl_for s k pid), item_title data, item_channel data) of
          (Inr d, Inr t, Inr c) \<Rightarrow>
            p = (pl_for s k pid)\<lparr>pl_work := Some d, playlist_name := Some t, playlist_creator := Some c\<rparr>
        | _ \<Rightarrow> False))"

lemma build_playlists_Cons_eq:
  "build_playlists env s acc ((pid, data) # rest) =
     obind ([WorkCall pid], playlist_work env (pl_for s (length acc) pid)) (\<lambda>d.
       obind ([], item_title data) (\<lambda>t.
       obind ([], item_channel data) (\<lambda>c.
         build_playlists env s
           (acc @ [(pl_for s (length acc) pid)\<lparr>pl_work := Some d, playlist_name := Some t,
                                                 playlist_creator := Some c\<rparr>]) rest)))"
  by (simp add: pl_for_def Let_def)

lemma build_playlists_Inr:
  "build_playlists env s acc pairs = (es, Inr res) \<Longrightarrow>
     \<exists>new. res = acc @ new \<and> length new = length pairs \<and>
       es = map (\<lambda>pr. WorkCall (fst pr)) pairs \<and>
       (\<forall>j < length pairs. resolved_as env s (length acc + j) (pairs ! j) (new ! j))"
proof (induction pairs arbitrary: acc es)
  case Nil
  then show ?case by simp
next
  case (Cons pr rest)
  obtain pid data where pr: "pr = (pid, data)" by fastforce
  let ?pl = "pl_for s (length acc) pid :: 'a playlist"
  from Cons.prems obtain d t c es' where
      w: "playlist_work env ?pl = Inr d" and ti: "item_title data = Inr t"
      and ch: "item_channel data = Inr c"
      and r: "build_playlists env s (acc @ [?pl\<lparr>pl_work := Some d, playlist_name := Some t,
                                              playlist_creator := Some c\<rparr>]) rest = (es', Inr res)"
      and es: "es = WorkCall pid # es'"
    unfolding pr build_playlists_Cons_eq
    by (auto simp: obind_def split: sum.splits prod.splits)
  let ?p = "?pl\<lparr>pl_work := Some d, playlist_name := Some t, playlist_creator := Some c\<rparr>"
  from Cons.IH [OF r] obtain new where
      n: "res = (acc @ [?p]) @ new" "length new = length rest"
         "es' = map (\<lambda>pr. WorkCall (fst pr)) rest"
      and all: "\<forall>j < length rest. resolved_as env s (length (acc @ [?p]) + j) (rest ! j) (new ! j)"
    by blast
  have first: "resolved_as env s (length acc) (pid, data) ?p"
    using w ti ch by (simp add: resolved_as_def)
  have "\<forall>j < length (pr # rest). resolved_as env s (length acc + j) ((pr # rest) ! j) ((?p # new) ! j)"
  proof (intro allI impI)
    fix j
    assume "j < length (pr # rest)"
    then show "resolved_as env s (length acc + j) ((pr # rest) ! j) ((?p # new) ! j)"
      using first all pr by (cases j) simp_all
  qed
  with n es pr show ?case by (intro exI [of _ "?p # new"]) simp
qed

lemma build_playlists_Inl:
  "build_playlists env s acc pairs = (es, Inl e) \<Longrightarrow>
     \<exists>j < length pairs. es = map (\<lambda>pr. WorkCall (fst pr)) (take (Suc j) pairs)"
proof (induction pairs arbitrary: acc es)
  case Nil
  then show ?case by simp
next
  case (Cons pr rest)
  obtain pid data where pr: "pr = (pid, data)" by fastforce
  show ?case
  proof (cases "\<exists>es'. es = WorkCall pid # es' \<and> (\<exists>acc'. build_playlists env s acc' rest = (es', Inl e))")
    case True
    then obtain es' acc' where es: "es = WorkCall pid # es'"
      and r: "build_playlists env s acc' rest = (es', Inl e)" by blast
    from Cons.IH [OF r] obtain j where "j < length rest"
      "es' = map (\<lambda>pr. WorkCall (fst pr)) (take (Suc j) rest)" by blast
    with es pr show ?thesis by (intro exI [of _ "Suc j"]) simp
  next
    case False
    with Cons.prems have "es = [WorkCall pid]"
      unfolding pr build_playlists_Cons_eq
      by (auto simp: obind_def split: sum.splits prod.splits)
    with pr show ?thesis by (intro exI [of _ 0]) simp
  qed
qed

lemma resolved_as_fields:
  assumes "resolved_as env s k (pid, data) p"
  shows "playlist_id p = pid \<and>
    pl_start_range p = (if k = 0 then start_range s else None) \<and>
    pl_end_range p = (if k = 0 then end_range s else None) \<and>
    pl_custom_speed p = custom_speed s \<and> pl_youtube_api p = youtube_api s \<and>
    (\<exists>d. playlist_work env (pl_for s k pid) = Inr d \<and> pl_work p = Some d) \<and>
    (\<exists>t c. item_title data = Inr t \<and> item_channel data = Inr c \<and>
      playlist_name p = Some t \<and> playlist_creator p = Some c)"
proof -
  obtain d t c where w: "playlist_work env (pl_for s k pid) = Inr d"
      and tc: "item_title data = Inr t" "item_channel data = Inr c"
      and p: "p = (pl_for s k pid)\<lparr>pl_work := Some d, playlist_name := Some t,
                                     playlist_creator := Some c\<rparr>"
    using assms by (auto simp: resolved_as_def split: sum.splits)
  have "playlist_id p = pid \<and>
    pl_start_range p = (if k = 0 then start_range s else None) \<and>
    pl_end_range p = (if k = 0 then end_range s else None) \<and>
    pl_custom_speed p = custom_speed s \<and> pl_youtube_api p = youtube_api s"
    by (simp add: p pl_for_def new_playlist_def)
  with w tc p show ?thesis by simp
qed

text \<open>A successful playlist phase: the response had items, the other attributes are
  unchanged, the pairs of \<^verbatim>\<open>zip\<close> were resolved in order, and the events are the
  batched call followed by one \<^verbatim>\<open>do_async_work\<close> per resolved id.\<close>

lemma populate_playlist_names_Inr:
  assumes "populate_playlist_names env s = (es, Inr s')"
  shows "\<exists>its. items (call_youtube_api env ''playlists'' (youtube_api s) (playlist_ids s)) = Some its \<and>
    s' = set_playlist_ids s (playlist_ids s') \<and>
    length (playlist_ids s') = min (length (playlist_ids s)) (length its) \<and>
    es = ApiCall ''playlists'' (youtube_api s) (playlist_ids s) #
           map WorkCall (take (length (playlist_ids s')) (playlist_ids s)) \<and>
    (\<forall>j < length (playlist_ids s').
       resolved_as env s j (playlist_ids s ! j, its ! j) (playlist_ids s' ! j))"
proof -
  let ?r = "call_youtube_api env ''playlists'' (youtube_api s) (playlist_ids s)"
  from assms obtain its where its: "items ?r = Some its"
    by (cases "items ?r") (auto simp: populate_playlist_names_def Let_def split: option.splits)
  show ?thesis
  proof (cases "its = []")
    case True
    with assms its have "es = [ApiCall ''playlists'' (youtube_api s) (playlist_ids s)]"
        and "s' = set_playlist_ids s []"
      by (simp_all add: populate_playlist_names_def)
    with its True show ?thesis by simp
  next
    case False
    obtain es1 r1 where b: "build_playlists env s [] (zip (playlist_ids s) its) = (es1, r1)"
      by fastforce
    from assms its False b obtain res where r1: "r1 = Inr res"
        and es: "es = ApiCall ''playlists'' (youtube_api s) (playlist_ids s) # es1"
        and s': "s' = set_playlist_ids s res"
      by (cases r1) (auto simp: populate_playlist_names_def)
    obtain new where n: "res = new" "length new = length (zip (playlist_ids s) its)"
        "es1 = map (\<lambda>pr. WorkCall (fst pr)) (zip (playlist_ids s) its)"
      and all: "\<forall>j < length new. resolved_as env s j (playlist_ids s ! j, its ! j) (new ! j)"
      using build_playlists_Inr [OF b [unfolded r1]] by auto
    have "map (\<lambda>pr. WorkCall (fst pr)) (zip (playlist_ids s) its) =
          map WorkCall (take (length new) (playlist_ids s))"
      using n(2) by (simp add: map_fst_zip_prefix min_def)
    with its es s' n all show ?thesis by auto
  qed
qed

lemma populate_playlist_names_Inl_events:
  assumes "populate_playlist_names env s = (es, Inl e)"
  shows "(\<exists>k \<le> length (playlist_ids s).
            es = ApiCall ''playlists'' (youtube_api s) (playlist_ids s) # map WorkCall (take k (playlist_ids s))) \<or>
         es = [ApiCall ''playlists'' (youtube_api s) (playlist_ids s), LogTimeSlice, LogApiKey (youtube_api s),
               LogResponse (call_youtube_api env ''playlists'' (youtube_api s) (playlist_ids s))]"
proof (cases "items (call_youtube_api env ''playlists'' (youtube_api s) (playlist_ids s))")
  case None
  with assms show ?thesis by (simp add: populate_playlist_names_def Let_def)
next
  case (Some its)
  obtain es1 r1 where b: "build_playlists env s [] (zip (playlist_ids s) its) = (es1, r1)"
    by fastforce
  have ne: "its \<noteq> []"
    using assms Some by (auto simp: populate_playlist_names_def)
  have "populate_playlist_names env s =
          obind ([ApiCall ''playlists'' (youtube_api s) (playlist_ids s)], Inr ()) (\<lambda>_.
            obind (es1, r1) (\<lambda>refined_list. ([], Inr (set_playlist_ids s refined_list))))"
    using Some b ne by (simp add: populate_playlist_names_def)
  with assms have eq: "(es, Inl e) = (ApiCall ''playlists'' (youtube_api s) (playlist_ids s) #
      fst (obind (es1, r1) (\<lambda>rl. ([], Inr (set_playlist_ids s rl)))),
      snd (obind (es1, r1) (\<lambda>rl. ([], Inr (set_playlist_ids s rl)))))"
    by simp
  then have r1: "r1 = Inl e" and es: "es = ApiCall ''playlists'' (youtube_api s) (playlist_ids s) # es1"
    by (cases r1; simp)+
  from build_playlists_Inl [OF b [unfolded r1]] obtain j where
      j: "j < length (zip (playlist_ids s) its)"
      and es1: "es1 = map (\<lambda>pr. WorkCall (fst pr)) (take (Suc j) (zip (playlist_ids s) its))"
    by blast
  have "es1 = map WorkCall (take (Suc j) (playlist_ids s))"
    using j by (simp add: es1 take_zip map_fst_zip_prefix)
  with j es show ?thesis by (intro disjI1 exI [of _ "Suc j"]) simp
qed


text \<open>The video loop builds one video per pair, in order, when the constructor accepts
  every pair; it returns the error of the first pair it rejects; and these are its only
  results.\<close>

lemma build_videos_all_ok:
  "\<forall>(vid, data) \<in> set ps. video_init env vid data sp = Inr () \<Longrightarrow>
   build_videos env sp acc ps = Inr (acc @ map (\<lambda>(vid, data). new_video vid data sp) ps)"
  by (induction ps arbitrary: acc) (auto simp: res_bind_def)

lemma build_videos_first_fail:
  assumes "j < length ps"
    and "\<forall>i < j. video_init env (fst (ps ! i)) (snd (ps ! i)) sp = Inr ()"
    and "video_init env (fst (ps ! j)) (snd (ps ! j)) sp = Inl e"
  shows "build_videos env sp acc ps = Inl e"
  using assms
proof (induction ps arbitrary: acc j)
  case Nil
  then show ?case by simp
next
  case (Cons p ps)
  show ?case
  proof (cases j)
    case 0
    with Cons.prems(3) show ?thesis by (cases p) (simp add: res_bind_def)
  next
    case (Suc j')
    from Cons.prems(2) Suc have p: "video_init env (fst p) (snd p) sp = Inr ()" by auto
    have "build_videos env sp (acc @ [new_video (fst p) (snd p) sp]) ps = Inl e"
      using Cons.prems Suc by (intro Cons.IH) auto
    with p show ?thesis by (cases p) (simp add: res_bind_def)
  qed
qed

lemma build_videos_Inr:
  "build_videos env sp acc ps = Inr r \<Longrightarrow>
   (\<forall>(vid, data) \<in> set ps. video_init env vid data sp = Inr ()) \<and>
   r = acc @ map (\<lambda>(vid, data). new_video vid data sp) ps"
  by (induction env sp acc ps rule: build_videos.induct) (auto simp: res_bind_def split: sum.splits)

lemma populate_video_names_Inr:
  assumes "populate_video_names env s = (es, Inr s')"
  shows "\<exists>its. items (call_youtube_api env ''videos'' (youtube_api s) (video_ids s)) = Some its \<and>
    (\<forall>(vid, data) \<in> set (zip (video_ids s) its). video_init env vid data (custom_speed s) = Inr ()) \<and>
    s' = set_video_ids s (map (\<lambda>(vid, data). new_video vid data (custom_speed s)) (zip (video_ids s) its))"
proof (cases "items (call_youtube_api env ''videos'' (youtube_api s) (video_ids s))")
  case None
  with assms show ?thesis by (simp add: populate_video_names_def)
next
  case (Some its)
  with assms obtain rl where b: "build_videos env (custom_speed s) [] (zip (video_ids s) its) = Inr rl"
      and s': "s' = set_video_ids s rl"
    by (cases "build_videos env (custom_speed s) [] (zip (video_ids s) its)")
       (auto simp: populate_video_names_def res_bind_def)
  from build_videos_Inr [OF b] s' Some show ?thesis by auto
qed

lemmas resolver_eval = populate_playlist_names_def populate_video_names_def item_title_def
  item_channel_def new_playlist_def new_video_def set_playlist_ids_def set_video_ids_def

subsection \<open>Properties of the playlist phase\<close>

text \<open>C4. If the playlist batch yields zero items, the playlist list becomes empty
  whatever was requested, after exactly one batched call and no entity initialisation.\<close>

theorem populate_playlist_zero_items:
  assumes "items (call_youtube_api env ''playlists'' (youtube_api s) (playlist_ids s)) = Some []"
  shows "populate_playlist_names env s =
           ([ApiCall ''playlists'' (youtube_api s) (playlist_ids s)], Inr (set_playlist_ids s []))"
  using assms by (simp add: populate_playlist_names_def)

theorem populate_playlist_zero_items_witness:
  "items (call_youtube_api env_empty ''playlists'' (youtube_api demo_state) (playlist_ids demo_state)) = Some [] \<and>
   populate_playlist_names env_empty demo_state =
     ([ApiCall ''playlists'' (Some ''KEY'') [''PL1'', ''PL2'', ''PL3'']], Inr (set_playlist_ids demo_state []))"
  using populate_playlist_zero_items [of env_empty demo_state] by (simp add: fixture_defs)

text \<open>C6. An upstream error payload (no \<^verbatim>\<open>items\<close> key) is fatal: the phase logs the
  time slice, the key and the raw response, and fails with the upstream message.\<close>

theorem populate_playlist_error_payload:
  assumes "items (call_youtube_api env ''playlists'' (youtube_api s) (playlist_ids s)) = None"
    and "error (call_youtube_api env ''playlists'' (youtube_api s) (playlist_ids s)) = Some err"
    and "message err = Some msg"
  shows "populate_playlist_names env s =
           ([ApiCall ''playlists'' (youtube_api s) (playlist_ids s), LogTimeSlice, LogApiKey (youtube_api s),
             LogResponse (call_youtube_api env ''playlists'' (youtube_api s) (playlist_ids s))],
            Inl (PyException msg))"
  using assms by (simp add: populate_playlist_names_def)

theorem populate_playlist_error_payload_witness:
  "populate_playlist_names env_error demo_state =
     ([ApiCall ''playlists'' (Some ''KEY'') [''PL1'', ''PL2'', ''PL3''], LogTimeSlice, LogApiKey (Some ''KEY''),
       LogResponse \<lparr>items = None, error = Some \<lparr>message = Some ''quotaExceeded''\<rparr>\<rparr>],
      Inl (PyException ''quotaExceeded''))"
  using populate_playlist_error_payload [of env_error demo_state "\<lparr>message = Some ''quotaExceeded''\<rparr>"
      "''quotaExceeded''"]
  by (simp add: fixture_defs)

text \<open>C26. A response with neither \<^verbatim>\<open>items\<close> nor \<^verbatim>\<open>error\<close> makes the
  handler's own subscript \<^verbatim>\<open>results["error"]\<close> raise \<^verbatim>\<open>KeyError\<close>, after the
  diagnostics are logged.\<close>

theorem populate_playlist_malformed_payload:
  assumes "items (call_youtube_api env ''playlists'' (youtube_api s) (playlist_ids s)) = None"
    and "error (call_youtube_api env ''playlists'' (youtube_api s) (playlist_ids s)) = None"
  shows "snd (populate_playlist_names env s) = Inl (KeyError ''error'') \<and>
         length (fst (populate_playlist_names env s)) = 4"
  using assms by (simp add: populate_playlist_names_def)

theorem populate_playlist_malformed_payload_witness:
  "snd (populate_playlist_names env_malformed demo_state) = Inl (KeyError ''error'')"
  using populate_playlist_malformed_payload [of env_malformed demo_state] by (simp add: fixture_defs)

text \<open>C33. An \<^verbatim>\<open>error\<close> object without a \<^verbatim>\<open>message\<close> key makes the second
  subscript of \<^verbatim>\<open>results["error"]["message"]\<close> raise \<^verbatim>\<open>KeyError('message')\<close>, after
  the same three diagnostics; the upstream error is not reported.\<close>

theorem populate_playlist_error_no_message:
  assumes "items (call_youtube_api env ''playlists'' (youtube_api s) (playlist_ids s)) = None"
    and "error (call_youtube_api env ''playlists'' (youtube_api s) (playlist_ids s)) = Some err"
    and "message err = None"
  shows "populate_playlist_names env s =
           ([ApiCall ''playlists'' (youtube_api s) (playlist_ids s), LogTimeSlice, LogApiKey (youtube_api s),
             LogResponse (call_youtube_api env ''playlists'' (youtube_api s) (playlist_ids s))],
            Inl (KeyError ''message''))"
  using assms by (simp add: populate_playlist_names_def)

theorem populate_playlist_error_no_message_witness:
  "populate_playlist_names env_no_message demo_state =
     ([ApiCall ''playlists'' (Some ''KEY'') [''PL1'', ''PL2'', ''PL3''], LogTimeSlice, LogApiKey (Some ''KEY''),
       LogResponse \<lparr>items = None, error = Some \<lparr>message = None\<rparr>\<rparr>],
      Inl (KeyError ''message''))"
  using populate_playlist_error_no_message [of env_no_message demo_state "\<lparr>message = None\<rparr>"]
  by (simp add: fixture_defs)


text \<open>C5. Configuration propagation: in a resolved playlist list only the entity at
  index 0 carries the range window; every entity carries the speed and the key.\<close>

theorem populate_playlist_range_first_only:
  assumes "populate_playlist_names env s = (es, Inr s')" and "j < length (playlist_ids s')"
  shows "pl_start_range (playlist_ids s' ! j) = (if j = 0 then start_range s else None) \<and>
         pl_end_range (playlist_ids s' ! j) = (if j = 0 then end_range s else None) \<and>
         pl_custom_speed (playlist_ids s' ! j) = custom_speed s \<and>
         pl_youtube_api (playlist_ids s' ! j) = youtube_api s"
proof -
  from populate_playlist_names_Inr [OF assms(1)] obtain its where
    "\<forall>j < length (playlist_ids s'). resolved_as env s j (playlist_ids s ! j, its ! j) (playlist_ids s' ! j)"
    by blast
  with assms(2) show ?thesis by (blast dest: resolved_as_fields)
qed

theorem populate_playlist_range_first_only_witness:
  "\<exists>es s'. populate_playlist_names env_ok demo_state = (es, Inr s') \<and> length (playlist_ids s') = 3 \<and>
     pl_start_range (playlist_ids s' ! 0) = Some 10 \<and> pl_end_range (playlist_ids s' ! 0) = Some 20 \<and>
     pl_start_range (playlist_ids s' ! 1) = None \<and> pl_end_range (playlist_ids s' ! 2) = None"
proof -
  have "\<exists>es s'. populate_playlist_names env_ok demo_state = (es, Inr s') \<and> length (playlist_ids s') = 3"
    by (simp add: resolver_eval fixture_defs)
  then obtain es s' where eq: "populate_playlist_names env_ok demo_state = (es, Inr s')"
      and len: "length (playlist_ids s') = 3"
    by blast
  have "\<And>j. j < 3 \<Longrightarrow>
      pl_start_range (playlist_ids s' ! j) = (if j = 0 then Some 10 else None) \<and>
      pl_end_range (playlist_ids s' ! j) = (if j = 0 then Some 20 else None)"
    using populate_playlist_range_first_only [OF eq] len by (simp add: demo_state_def)
  with eq len show ?thesis by auto
qed

text \<open>C11. Positional matching: the \<open>j\<close>-th entity has the \<open>j\<close>-th requested id, was
  initialised (its \<^verbatim>\<open>do_async_work\<close> completed) and then took its name and creator from
  the \<open>j\<close>-th item of the response; the list is as long as the shorter of the two.\<close>

theorem populate_playlist_positional:
  assumes "populate_playlist_names env s = (es, Inr s')"
    and "items (call_youtube_api env ''playlists'' (youtube_api s) (playlist_ids s)) = Some its"
  shows "length (playlist_ids s') = min (length (playlist_ids s)) (length its) \<and>
    (\<forall>j < length (playlist_ids s').
       playlist_id (playlist_ids s' ! j) = playlist_ids s ! j \<and>
       (\<exists>d. playlist_work env (pl_for s j (playlist_ids s ! j)) = Inr d \<and> pl_work (playlist_ids s' ! j) = Some d) \<and>
       (\<exists>t c. item_title (its ! j) = Inr t \<and> item_channel (its ! j) = Inr c \<and>
          playlist_name (playlist_ids s' ! j) = Some t \<and> playlist_creator (playlist_ids s' ! j) = Some c))"
proof -
  from populate_playlist_names_Inr [OF assms(1)] assms(2) have
      len: "length (playlist_ids s') = min (length (playlist_ids s)) (length its)"
      and all: "\<forall>j < length (playlist_ids s'). resolved_as env s j (playlist_ids s ! j, its ! j) (playlist_ids s' ! j)"
    by auto
  from all have "\<forall>j < length (playlist_ids s').
       playlist_id (playlist_ids s' ! j) = playlist_ids s ! j \<and>
       (\<exists>d. playlist_work env (pl_for s j (playlist_ids s ! j)) = Inr d \<and> pl_work (playlist_ids s' ! j) = Some d) \<and>
       (\<exists>t c. item_title (its ! j) = Inr t \<and> item_channel (its ! j) = Inr c \<and>
          playlist_name (playlist_ids s' ! j) = Some t \<and> playlist_creator (playlist_ids s' ! j) = Some c)"
    by (blast dest: resolved_as_fields)
  with len show ?thesis by blast
qed

theorem populate_playlist_positional_witness:
  "\<exists>es s'. populate_playlist_names env_ok demo_state = (es, Inr s') \<and> length (playlist_ids s') = 3 \<and>
     playlist_id (playlist_ids s' ! 1) = ''PL2'' \<and> playlist_name (playlist_ids s' ! 1) = Some ''TPL2''"
proof -
  have "\<exists>es s'. populate_playlist_names env_ok demo_state = (es, Inr s')"
    by (simp add: resolver_eval fixture_defs)
  then obtain es s' where eq: "populate_playlist_names env_ok demo_state = (es, Inr s')"
    by blast
  have its: "items (call_youtube_api env_ok ''playlists'' (youtube_api demo_state) (playlist_ids demo_state)) =
      Some (map demo_item [''PL1'', ''PL2'', ''PL3''])"
    by (simp add: fixture_defs)
  note P = populate_playlist_positional [OF eq its]
  have len: "length (playlist_ids s') = 3"
    using conjunct1 [OF P] by (simp add: demo_state_def)
  from conjunct2 [OF P, rule_format, of 1] len
  have p1: "playlist_id (playlist_ids s' ! 1) = ''PL2'' \<and> playlist_name (playlist_ids s' ! 1) = Some ''TPL2''"
    by (auto simp: demo_state_def demo_item_def item_title_def)
  with eq len p1 show ?thesis by blast
qed


text \<open>C20. Ordering of the playlist phase: the batched call comes first and exactly once;
  on success it is followed by one \<^verbatim>\<open>do_async_work\<close> per resolved entity, in the
  order of the resulting list; on failure either the work calls of a prefix of the ids
  were made, or the three diagnostics were logged.\<close>

theorem populate_playlist_events:
  assumes "populate_playlist_names env s = (es, r)"
  shows "case r of
      Inr s' \<Rightarrow> es = ApiCall ''playlists'' (youtube_api s) (playlist_ids s) #
                      map (\<lambda>p. WorkCall (playlist_id p)) (playlist_ids s')
    | Inl e \<Rightarrow>
        (\<exists>k \<le> length (playlist_ids s).
           es = ApiCall ''playlists'' (youtube_api s) (playlist_ids s) # map WorkCall (take k (playlist_ids s))) \<or>
        es = [ApiCall ''playlists'' (youtube_api s) (playlist_ids s), LogTimeSlice, LogApiKey (youtube_api s),
              LogResponse (call_youtube_api env ''playlists'' (youtube_api s) (playlist_ids s))]"
proof (cases r)
  case (Inl e)
  with populate_playlist_names_Inl_events [of env s es e] assms show ?thesis by simp
next
  case (Inr s')
  from populate_playlist_names_Inr [of env s es s'] assms Inr obtain its where
      len: "length (playlist_ids s') = min (length (playlist_ids s)) (length its)"
      and es: "es = ApiCall ''playlists'' (youtube_api s) (playlist_ids s) #
                 map WorkCall (take (length (playlist_ids s')) (playlist_ids s))"
      and all: "\<forall>j < length (playlist_ids s').
                  resolved_as env s j (playlist_ids s ! j, its ! j) (playlist_ids s' ! j)"
    by blast
  have "map (\<lambda>p. WorkCall (playlist_id p)) (playlist_ids s') =
        map WorkCall (take (length (playlist_ids s')) (playlist_ids s))"
  proof (rule nth_equalityI)
    fix j
    assume "j < length (map (\<lambda>p. WorkCall (playlist_id p)) (playlist_ids s'))"
    with all len show "map (\<lambda>p. WorkCall (playlist_id p)) (playlist_ids s') ! j =
        map WorkCall (take (length (playlist_ids s')) (playlist_ids s)) ! j"
      by (auto dest: resolved_as_fields)
  qed (use len in simp)
  with es Inr show ?thesis by simp
qed

theorem populate_playlist_events_witness:
  "fst (populate_playlist_names env_known demo_state) =
     [ApiCall ''playlists'' (Some ''KEY'') [''PL1'', ''PL2'', ''PL3''], WorkCall ''PL1'', WorkCall ''PL2'']"
  using populate_playlist_events [of env_known demo_state "fst (populate_playlist_names env_known demo_state)"
      "snd (populate_playlist_names env_known demo_state)"]
  by (simp add: resolver_eval fixture_defs)

text \<open>Example. The positional pairing trusts the response order: when the API omits an id it
  does not know (here the first of three), the first requested id receives the second
  playlist's name and the last id is dropped, with no error.\<close>

theorem populate_playlist_misattribution:
  "\<exists>es s'. populate_playlist_names env_known demo_state = (es, Inr s') \<and> length (playlist_ids s') = 2 \<and>
     playlist_id (playlist_ids s' ! 0) = ''PL1'' \<and> playlist_name (playlist_ids s' ! 0) = Some ''TPL2'' \<and>
     playlist_id (playlist_ids s' ! 1) = ''PL2'' \<and> playlist_name (playlist_ids s' ! 1) = Some ''TPL3''"
  by (simp add: resolver_eval fixture_defs)

subsection \<open>Properties of the video phase\<close>

text \<open>C17. The video phase makes one batched call; when the \<^verbatim>\<open>Video\<close> constructor
  accepts every pair, it pairs each requested id with the item at its position, giving every
  video the speed multiplier; nothing else changes.\<close>

theorem populate_video_names_resolved:
  assumes "items (call_youtube_api env ''videos'' (youtube_api s) (video_ids s)) = Some its"
    and "\<forall>(vid, data) \<in> set (zip (video_ids s) its). video_init env vid data (custom_speed s) = Inr ()"
  shows "\<exists>s'. populate_video_names env s = ([ApiCall ''videos'' (youtube_api s) (video_ids s)], Inr s') \<and>
    playlist_ids s' = playlist_ids s \<and> similar_playlists s' = similar_playlists s \<and>
    length (video_ids s') = min (length (video_ids s)) (length its) \<and>
    (\<forall>j < length (video_ids s'). video_id (video_ids s' ! j) = video_ids s ! j \<and>
       video_data (video_ids s' ! j) = its ! j \<and> v_custom_speed (video_ids s' ! j) = custom_speed s)"
proof -
  have "build_videos env (custom_speed s) [] (zip (video_ids s) its) =
          Inr (map (\<lambda>(vid, data). new_video vid data (custom_speed s)) (zip (video_ids s) its))"
    using build_videos_all_ok [OF assms(2)] by simp
  with assms(1) show ?thesis
    by (auto simp: populate_video_names_def res_bind_def new_video_def)
qed

theorem populate_video_names_resolved_witness:
  "\<exists>s'. populate_video_names env_ok demo_state = ([ApiCall ''videos'' (Some ''KEY'') [''v1'']], Inr s') \<and>
     video_id (video_ids s' ! 0) = ''v1'' \<and> v_custom_speed (video_ids s' ! 0) = Some 2"
proof -
  have its: "items (call_youtube_api env_ok ''videos'' (youtube_api demo_state) (video_ids demo_state)) =
      Some [demo_item ''v1'']"
    by (simp add: fixture_defs)
  have ok: "\<forall>(vid, data) \<in> set (zip (video_ids demo_state) [demo_item ''v1'']).
      video_init env_ok vid data (custom_speed demo_state) = Inr ()"
    by (simp add: fixture_defs)
  from populate_video_names_resolved [OF its ok] show ?thesis
    by (auto simp: demo_state_def)
qed

text \<open>C31. A failing \<^verbatim>\<open>Video\<close> construction propagates: when the constructor raises
  for the pair at position \<open>j\<close> and accepted every pair before it, the phase fails with
  that exception after its one batched call, and \<^verbatim>\<open>video_ids\<close> is not assigned.\<close>

theorem populate_video_construction_error:
  assumes "items (call_youtube_api env ''videos'' (youtube_api s) (video_ids s)) = Some its"
    and "j < length (video_ids s)" and "j < length its"
    and "\<forall>i < j. video_init env (video_ids s ! i) (its ! i) (custom_speed s) = Inr ()"
    and "video_init env (video_ids s ! j) (its ! j) (custom_speed s) = Inl e"
  shows "populate_video_names env s = ([ApiCall ''videos'' (youtube_api s) (video_ids s)], Inl e)"
proof -
  have "build_videos env (custom_speed s) [] (zip (video_ids s) its) = Inl e"
    using assms(2-5) by (intro build_videos_first_fail [of j]) auto
  with assms(1) show ?thesis
    by (simp add: populate_video_names_def res_bind_def)
qed

theorem populate_video_construction_error_witness:
  "populate_video_names env_bad_video (demo_state\<lparr>video_ids := [''v1'', ''v2'', ''v3'']\<rparr>) =
     ([ApiCall ''videos'' (Some ''KEY'') [''v1'', ''v2'', ''v3'']], Inl (ExternalError ''bad item''))"
proof -
  let ?s = "demo_state\<lparr>video_ids := [''v1'', ''v2'', ''v3'']\<rparr>"
  have its: "items (call_youtube_api env_bad_video ''videos'' (youtube_api ?s) (video_ids ?s)) =
      Some [demo_item ''v1'', demo_item ''v2'', demo_item ''v3'']"
    by (simp add: fixture_defs)
  have "\<forall>i < 1. video_init env_bad_video (video_ids ?s ! i) ([demo_item ''v1'', demo_item ''v2'', demo_item ''v3''] ! i)
      (custom_speed ?s) = Inr ()"
    by (simp add: fixture_defs)
  moreover have "video_init env_bad_video (video_ids ?s ! 1) ([demo_item ''v1'', demo_item ''v2'', demo_item ''v3''] ! 1)
      (custom_speed ?s) = Inl (ExternalError ''bad item'')"
    by (simp add: fixture_defs)
  ultimately show ?thesis
    using populate_video_construction_error [OF its, of 1] by (simp add: demo_state_def)
qed

text \<open>C27. The video phase has no error branch of its own: an error payload makes the
  subscript \<^verbatim>\<open>results["items"]\<close> raise \<^verbatim>\<open>KeyError\<close>.\<close>

theorem populate_video_missing_items:
  assumes "items (call_youtube_api env ''videos'' (youtube_api s) (video_ids s)) = None"
  shows "populate_video_names env s =
           ([ApiCall ''videos'' (youtube_api s) (video_ids s)], Inl (KeyError ''items''))"
  using assms by (simp add: populate_video_names_def)

theorem populate_video_missing_items_witness:
  "populate_video_names env_error demo_state =
     ([ApiCall ''videos'' (Some ''KEY'') [''v1'']], Inl (KeyError ''items''))"
  using populate_video_missing_items [of env_error demo_state] by (simp add: fixture_defs)

end
