(* ===== verification/Similar.thy ===== *)
theory Similar
  imports Fixtures
begin

text \<open>
  The similar-playlist search of \<^verbatim>\<open>ItemList\<close> (\<^verbatim>\<open>src/src/itemlist.py\<close>):
  \<^verbatim>\<open>call_similar_playlists_api\<close> (lines 47--67) sends one search request with the
  playlist's title and projects each returned item to a \<open>similar\<close> record, the
  subscripts of the list comprehension raising \<^verbatim>\<open>KeyError\<close> on a missing field (so the
  projection is all or nothing); \<^verbatim>\<open>fetch_similar_playlists\<close> (lines 35--44) runs it for
  each playlist in turn, appends the results of the lookups that succeed to one flat
  accumulator, and logs the playlist id and the error of those that fail. The loop is
  \<open>fetch_loop\<close>; its abstract contract is \<open>concat (map lookup_results ps)\<close>.
\<close>

text \<open>One element of the comprehension: the dict
  \<^verbatim>\<open>{"id": item["id"]["playlistId"], "title": ..., "channel": ...}\<close>, whose entries
  are evaluated in this order.\<close>

definition project_item :: "search_item \<Rightarrow> similar result" where
  "project_item it =
     (case si_playlistId it of
        None \<Rightarrow> Inl (KeyError ''playlistId'')
      | Some i \<Rightarrow>
          (case si_title it of
             None \<Rightarrow> Inl (KeyError ''title'')
           | Some t \<Rightarrow>
               (case si_channelTitle it of
                  None \<Rightarrow> Inl (KeyError ''channelTitle'')
                | Some c \<Rightarrow> Inr \<lparr>sim_id = i, sim_title = t, sim_channel = c\<rparr>)))"

text \<open>The list comprehension over \<^verbatim>\<open>data.get("items", [])\<close>: elements in order, the
  first failure propagating.\<close>

fun project_items :: "search_item list \<Rightarrow> similar list result" where
  "project_items [] = Inr []"
| "project_items (it # rest) =
     res_bind (project_item it) (\<lambda>x. res_bind (project_items rest) (\<lambda>xs. Inr (x # xs)))"

text \<open>The request's \<^verbatim>\<open>params\<close>.\<close>

definition similar_params :: "('p, 'v) itemlist \<Rightarrow> string option \<Rightarrow> search_params" where
  "similar_params s playlist_title =
     \<lparr>sp_key = youtube_api s, sp_type = ''playlist'', sp_part = ''snippet'', sp_maxResults = 5,
      sp_q = playlist_title\<rparr>"

definition call_similar_playlists_api ::
  "'d api_env \<Rightarrow> ('p, 'v) itemlist \<Rightarrow> string option \<Rightarrow> similar list outcome" where
  "call_similar_playlists_api env s playlist_title =
     (let params = similar_params s playlist_title
      in ([SearchCall params],
          case search_get env params of
            SearchRaised e \<Rightarrow> Inl e
          | JsonRaised e \<Rightarrow> Inl e
          | SearchJson None \<Rightarrow> project_items []
          | SearchJson (Some its) \<Rightarrow> project_items its))"

text \<open>The \<^verbatim>\<open>for\<close>/\<^verbatim>\<open>try\<close> loop of \<^verbatim>\<open>fetch_similar_playlists\<close>, with the
  accumulator \<^verbatim>\<open>similar_playlists\<close>. Every exception is caught, so the loop returns a
  plain pair of events and accumulator.\<close>

fun fetch_loop ::
  "'d api_env \<Rightarrow> ('d playlist, 'v) itemlist \<Rightarrow> similar list \<Rightarrow> 'd playlist list \<Rightarrow>
   event list \<times> similar list" where
  "fetch_loop env s acc [] = ([], acc)"
| "fetch_loop env s acc (playlist # rest) =
     (let title = playlist_name playlist
      in case call_similar_playlists_api env s title of
           (es, Inr results) \<Rightarrow>
             (case fetch_loop env s (acc @ results) rest of (es', acc') \<Rightarrow> (es @ es', acc'))
         | (es, Inl e) \<Rightarrow>
             (case fetch_loop env s acc rest of
                (es', acc') \<Rightarrow> (es @ LogSimilarError (playlist_id playlist) e # es', acc')))"

definition fetch_similar_playlists ::
  "'d api_env \<Rightarrow> ('d playlist, 'v) itemlist \<Rightarrow> ('d playlist, 'v) itemlist outcome" where
  "fetch_similar_playlists env s =
     (case fetch_loop env s [] (playlist_ids s) of
        (es, found) \<Rightarrow> (es, Inr (s\<lparr>similar_playlists := found\<rparr>)))"

subsection \<open>Reference definitions\<close>

text \<open>A search item is complete when the three subscripts succeed; its record is then
  \<open>to_similar\<close>.\<close>

definition complete_item :: "search_item \<Rightarrow> bool" where
  "complete_item it = (si_playlistId it \<noteq> None \<and> si_title it \<noteq> None \<and> si_channelTitle it \<noteq> None)"

definition to_similar :: "search_item \<Rightarrow> similar" where
  "to_similar it =
     \<lparr>sim_id = the (si_playlistId it), sim_title = the (si_title it), sim_channel = the (si_channelTitle it)\<rparr>"

text \<open>What one playlist contributes: its lookup's results, or nothing when it failed.\<close>

definition lookup_results :: "'d api_env \<Rightarrow> ('q, 'v) itemlist \<Rightarrow> 'd playlist \<Rightarrow> similar list" where
  "lookup_results env s p =
     (case snd (call_similar_playlists_api env s (playlist_name p)) of Inr r \<Rightarrow> r | Inl _ \<Rightarrow> [])"

text \<open>The events of one playlist's lookup: the search request, then the log line if it
  failed.\<close>

definition lookup_events :: "'d api_env \<Rightarrow> ('q, 'v) itemlist \<Rightarrow> 'd playlist \<Rightarrow> event list" where
  "lookup_events env s p =
     SearchCall (similar_params s (playlist_name p)) #
     (case snd (call_similar_playlists_api env s (playlist_name p)) of
        Inr _ \<Rightarrow> [] | Inl e \<Rightarrow> [LogSimilarError (playlist_id p) e])"

subsection \<open>Lemmas\<close>

lemma project_item_Inr:
  "project_item it = Inr x \<longleftrightarrow> complete_item it \<and> x = to_similar it"
  by (auto simp: project_item_def complete_item_def to_similar_def split: option.splits)

lemma project_item_Inl:
  "(\<exists>e. project_item it = Inl e) \<longleftrightarrow> \<not> complete_item it"
  by (auto simp: project_item_def complete_item_def split: option.splits)

lemma project_items_Inr:
  "project_items its = Inr r \<longleftrightarrow> (\<forall>it \<in> set its. complete_item it) \<and> r = map to_similar its"
proof (induction its arbitrary: r)
  case Nil
  then show ?case by auto
next
  case (Cons it rest)
  show ?case
  proof (cases "project_item it")
    case (Inl e)
    with project_item_Inl [of it] show ?thesis by auto
  next
    case (Inr x)
    with project_item_Inr [of it x] Cons.IH show ?thesis
      by (cases "project_items rest") auto
  qed
qed

lemma call_similar_events [simp]:
  "fst (call_similar_playlists_api env s t) = [SearchCall (similar_params s t)]"
  by (simp add: call_similar_playlists_api_def Let_def)

lemma fetch_loop_eq:
  "fetch_loop env s acc ps =
     (concat (map (lookup_events env s) ps), acc @ concat (map (lookup_results env s) ps))"
proof (induction ps arbitrary: acc)
  case Nil
  then show ?case by simp
next
  case (Cons p rest)
  show ?case
  proof (cases "snd (call_similar_playlists_api env s (playlist_name p))")
    case (Inl e)
    then have "call_similar_playlists_api env s (playlist_name p) =
                 ([SearchCall (similar_params s (playlist_name p))], Inl e)"
      by (metis call_similar_events prod.collapse)
    with Inl Cons.IH show ?thesis by (simp add: lookup_events_def lookup_results_def)
  next
    case (Inr r)
    then have "call_similar_playlists_api env s (playlist_name p) =
                 ([SearchCall (similar_params s (playlist_name p))], Inr r)"
      by (metis call_similar_events prod.collapse)
    with Inr Cons.IH show ?thesis by (simp add: lookup_events_def lookup_results_def)
  qed
qed


lemma fetch_similar_Inr:
  "snd (fetch_similar_playlists env s) = Inr (s\<lparr>similar_playlists := snd (fetch_loop env s [] (playlist_ids s))\<rparr>)"
  by (simp add: fetch_similar_playlists_def split: prod.split)

lemmas similar_eval = call_similar_playlists_api_def similar_params_def project_item_def
  lookup_results_def lookup_events_def

subsection \<open>Properties\<close>

text \<open>C7. Failure isolation: \<^verbatim>\<open>fetch_similar_playlists\<close> never raises, changes only
  \<^verbatim>\<open>similar_playlists\<close>, and sets it to the concatenation, in playlist order, of the
  results of the lookups that succeeded (a failed lookup contributes nothing and does not
  affect the others).\<close>

theorem fetch_similar_accumulator:
  "\<exists>es. fetch_similar_playlists env s =
     (es, Inr (s\<lparr>similar_playlists := concat (map (lookup_results env s) (playlist_ids s))\<rparr>))"
  by (simp add: fetch_similar_playlists_def fetch_loop_eq)

text \<open>C13. Sequential lookups: the events of \<^verbatim>\<open>fetch_similar_playlists\<close> are, playlist
  after playlist, its one search request with its title as the query, followed by the log
  entry naming that playlist's own id when its lookup failed.\<close>

theorem fetch_similar_events:
  "fst (fetch_similar_playlists env s) = concat (map (lookup_events env s) (playlist_ids s))"
  by (simp add: fetch_similar_playlists_def fetch_loop_eq)

text \<open>C15. One lookup: a single search request with \<^verbatim>\<open>type=playlist\<close>,
  \<^verbatim>\<open>part=snippet\<close>, \<^verbatim>\<open>maxResults=5\<close> and the title as \<^verbatim>\<open>q\<close>; it succeeds
  exactly when the request returns JSON whose items (none when the key is absent) are all
  complete, and then returns their projections in order: the projection is all or
  nothing.\<close>

theorem call_similar_all_or_nothing:
  "fst (call_similar_playlists_api env s t) =
     [SearchCall \<lparr>sp_key = youtube_api s, sp_type = ''playlist'', sp_part = ''snippet'', sp_maxResults = 5, sp_q = t\<rparr>] \<and>
   (snd (call_similar_playlists_api env s t) = Inr r \<longleftrightarrow>
     (\<exists>its. search_get env (similar_params s t) = SearchJson its \<and>
        (\<forall>it \<in> set (case its of None \<Rightarrow> [] | Some xs \<Rightarrow> xs). complete_item it) \<and>
        r = map to_similar (case its of None \<Rightarrow> [] | Some xs \<Rightarrow> xs)))"
  by (auto simp: call_similar_playlists_api_def similar_params_def project_items_Inr Let_def
           split: search_outcome.splits option.splits)

theorem call_similar_all_or_nothing_witness:
  "(\<exists>e. snd (call_similar_playlists_api env_incomplete demo_resolved (Some ''TPL1'')) = Inl e) \<and>
   snd (call_similar_playlists_api env_ok demo_resolved (Some ''TPL1'')) =
     Inr [\<lparr>sim_id = ''STPL1'', sim_title = ''similar'', sim_channel = ''ch''\<rparr>]"
proof -
  have inc: "\<not> (\<forall>it \<in> set [\<lparr>si_playlistId = Some ''S1'', si_title = Some ''one'', si_channelTitle = Some ''ch''\<rparr>,
         \<lparr>si_playlistId = Some ''S2'', si_title = Some ''two'', si_channelTitle = None\<rparr>]. complete_item it)"
    by (simp add: complete_item_def)
  have "\<exists>e. snd (call_similar_playlists_api env_incomplete demo_resolved (Some ''TPL1'')) = Inl e"
  proof (cases "snd (call_similar_playlists_api env_incomplete demo_resolved (Some ''TPL1''))")
    case (Inl e)
    then show ?thesis by blast
  next
    case (Inr r)
    with call_similar_all_or_nothing [of env_incomplete demo_resolved "Some ''TPL1''" r] inc
    show ?thesis by (simp add: env_incomplete_def)
  qed
  moreover have "snd (call_similar_playlists_api env_ok demo_resolved (Some ''TPL1'')) =
     Inr [\<lparr>sim_id = ''STPL1'', sim_title = ''similar'', sim_channel = ''ch''\<rparr>]"
    using call_similar_all_or_nothing [of env_ok demo_resolved "Some ''TPL1''"
        "[\<lparr>sim_id = ''STPL1'', sim_title = ''similar'', sim_channel = ''ch''\<rparr>]"]
    by (simp add: fixture_defs set_playlist_ids_def similar_params_def complete_item_def to_similar_def)
  ultimately show ?thesis ..
qed

text \<open>C22. The code relies on the service for the cap of five results: if every search
  response has at most \<^verbatim>\<open>maxResults\<close> items, the accumulator holds at most five
  records per playlist.\<close>

theorem fetch_similar_bound:
  assumes "\<forall>q its. search_get env q = SearchJson (Some its) \<longrightarrow> length its \<le> sp_maxResults q"
    and "fetch_similar_playlists env s = (es, Inr s')"
  shows "length (similar_playlists s') \<le> 5 * length (playlist_ids s)"
proof -
  have one: "length (lookup_results env s p) \<le> 5" for p
  proof (cases "search_get env (similar_params s (playlist_name p))")
    case (SearchRaised e)
    then show ?thesis by (simp add: lookup_results_def call_similar_playlists_api_def Let_def)
  next
    case (JsonRaised e)
    then show ?thesis by (simp add: lookup_results_def call_similar_playlists_api_def Let_def)
  next
    case (SearchJson r)
    show ?thesis
    proof (cases r)
      case None
      with SearchJson show ?thesis by (simp add: lookup_results_def call_similar_playlists_api_def Let_def)
    next
      case (Some its)
      with SearchJson assms(1) have "length its \<le> 5"
        by (fastforce simp: similar_params_def)
      with SearchJson Some show ?thesis
        by (auto simp: lookup_results_def call_similar_playlists_api_def Let_def project_items_Inr
            split: sum.split)
    qed
  qed
  have "length (concat (map (lookup_results env s) ps)) \<le> 5 * length ps" for ps
    by (induction ps) (use one in \<open>auto simp: add_mono\<close>)
  moreover from assms(2) have "similar_playlists s' = concat (map (lookup_results env s) (playlist_ids s))"
    by (auto simp: fetch_similar_playlists_def fetch_loop_eq)
  ultimately show ?thesis by simp
qed

theorem fetch_similar_bound_witness:
  "length (similar_playlists (projr (snd (fetch_similar_playlists env_ok demo_resolved)))) \<le> 15"
proof -
  have b: "\<forall>q its. search_get env_ok q = SearchJson (Some its) \<longrightarrow> length its \<le> sp_maxResults q"
    by (auto simp: env_ok_def search_demo_def split: if_splits)
  have f: "fetch_similar_playlists env_ok demo_resolved =
      (fst (fetch_similar_playlists env_ok demo_resolved),
       Inr (projr (snd (fetch_similar_playlists env_ok demo_resolved))))"
    by (simp add: fetch_similar_playlists_def fetch_loop_eq)
  from fetch_similar_bound [OF b f] show ?thesis
    by (simp add: demo_resolved_def set_playlist_ids_def)
qed

end
