(* ===== verification/Output.thy ===== *)
theory Output
  imports Fixtures
begin

text \<open>
  The report of \<^verbatim>\<open>ItemList.get_output_string\<close> (\<^verbatim>\<open>src/src/itemlist.py\<close>, lines
  152--172). The method returns a Python list whose elements are of three kinds: what an
  entity's own \<^verbatim>\<open>get_output_string()\<close> returns (opaque: \<open>Rendered\<close>, through the
  renderers \<open>rp\<close> and \<open>rv\<close> supplied as parameters), a string (\<open>Line\<close>), and, in
  the no-results case only, a nested list of strings (\<open>Lines\<close>). \<open>parse_similar_line\<close>
  reads a formatted similar-playlist line back; the round trip shows that the section
  carries each record's three fields, in order, when ids and titles contain no comma.
\<close>

datatype 'r out_elem = Rendered 'r | Line string | Lines "string list"

definition no_results_message :: string where
  "no_results_message = ''No valid playlist or video IDs found in input.''"

text \<open>The header \<^verbatim>\<open>"\nSimilar Playlists:"\<close>.\<close>

definition similar_header :: string where
  "similar_header = CHR ''\<newline>'' # ''Similar Playlists:''"

text \<open>The f-string \<^verbatim>\<open>f"ID: {...}, Title: {...}, Channel: {...}"\<close>.\<close>

definition format_similar :: "similar \<Rightarrow> string" where
  "format_similar r = ''ID: '' @ sim_id r @ '', Title: '' @ sim_title r @ '', Channel: '' @ sim_channel r"

definition get_output_string ::
  "('d playlist \<Rightarrow> 'r) \<Rightarrow> (video \<Rightarrow> 'r) \<Rightarrow> ('d playlist, video) itemlist \<Rightarrow> 'r out_elem list" where
  "get_output_string rp rv s =
     (if playlist_ids s = [] \<and> video_ids s = [] then [Lines [no_results_message]]
      else
        (let output_string = map (\<lambda>p. Rendered (rp p)) (playlist_ids s) @
                             map (\<lambda>v. Rendered (rv v)) (video_ids s)
         in if similar_playlists s \<noteq> []
            then output_string @ [Line similar_header] @
                 map (\<lambda>r. Line (format_similar r)) (similar_playlists s)
            else output_string))"

subsection \<open>Reading a similar-playlist line back\<close>

text \<open>\<open>split_on sep acc xs\<close>: the text before the first occurrence of \<open>sep\<close> in
  \<open>xs\<close> (after \<open>rev acc\<close>) and the text after it.\<close>

fun split_on :: "string \<Rightarrow> string \<Rightarrow> string \<Rightarrow> (string \<times> string) option" where
  "split_on sep acc [] = None"
| "split_on sep acc (c # cs) =
     (if prefix sep (c # cs) then Some (rev acc, drop (length sep) (c # cs))
      else split_on sep (c # acc) cs)"

definition parse_similar_line :: "string \<Rightarrow> similar option" where
  "parse_similar_line l =
     (if prefix ''ID: '' l then
        (case split_on '', Title: '' [] (drop 4 l) of
           None \<Rightarrow> None
         | Some (i, rest) \<Rightarrow>
             (case split_on '', Channel: '' [] rest of
                None \<Rightarrow> None
              | Some (t, c) \<Rightarrow> Some \<lparr>sim_id = i, sim_title = t, sim_channel = c\<rparr>))
      else None)"

subsection \<open>Lemmas\<close>

lemma split_on_first:
  assumes "sep \<noteq> []" and "hd sep \<notin> set a"
  shows "split_on sep acc (a @ sep @ b) = Some (rev acc @ a, b)"
  using assms(2)
proof (induction a arbitrary: acc)
  case Nil
  from assms(1) obtain c cs where "sep = c # cs" by (cases sep) auto
  then show ?case by simp
next
  case (Cons x a)
  from assms(1) obtain c cs where sep: "sep = c # cs" by (cases sep) auto
  with Cons.prems have "x \<noteq> c" by auto
  with sep have "\<not> prefix sep (x # a @ sep @ b)" by simp
  with Cons show ?case by simp
qed

lemma format_similar_parse:
  assumes "CHR '','' \<notin> set (sim_id r)" and "CHR '','' \<notin> set (sim_title r)"
  shows "parse_similar_line (format_similar r) = Some r"
proof -
  have t: "split_on '', Title: '' [] (sim_id r @ '', Title: '' @ sim_title r @ '', Channel: '' @ sim_channel r) =
           Some (sim_id r, sim_title r @ '', Channel: '' @ sim_channel r)"
    using split_on_first [of "'', Title: ''" "sim_id r" "[]"] assms(1) by simp
  have c: "split_on '', Channel: '' [] (sim_title r @ '', Channel: '' @ sim_channel r) =
           Some (sim_title r, sim_channel r)"
    using split_on_first [of "'', Channel: ''" "sim_title r" "[]"] assms(2) by simp
  have p: "prefix ''ID: '' (format_similar r)"
    by (simp add: format_similar_def)
  have d: "drop 4 (format_similar r) =
           sim_id r @ '', Title: '' @ sim_title r @ '', Channel: '' @ sim_channel r"
    by (simp add: format_similar_def)
  show ?thesis
    by (simp only: parse_similar_line_def p d t c if_True option.case prod.case) simp
qed


lemma get_output_not_empty:
  assumes "\<not> (playlist_ids s = [] \<and> video_ids s = [])"
  shows "get_output_string rp rv s =
           map (\<lambda>p. Rendered (rp p)) (playlist_ids s) @ map (\<lambda>v. Rendered (rv v)) (video_ids s) @
           (if similar_playlists s = [] then []
            else Line similar_header # map (\<lambda>r. Line (format_similar r)) (similar_playlists s))"
  using assms by (simp add: get_output_string_def Let_def)

subsection \<open>Properties\<close>

text \<open>C10. The report is the single no-results element exactly when both resolved lists
  are empty; that element is a nested list holding the message, not a line.\<close>

theorem get_output_no_results:
  "get_output_string rp rv s = [Lines [no_results_message]] \<longleftrightarrow>
   playlist_ids s = [] \<and> video_ids s = []"
proof (cases "playlist_ids s = [] \<and> video_ids s = []")
  case True
  then show ?thesis by (simp add: get_output_string_def)
next
  case False
  have "Lines [no_results_message] \<notin> set (get_output_string rp rv s)"
    using get_output_not_empty [where rp = rp and rv = rv, OF False] by auto
  with False show ?thesis by auto
qed

text \<open>C21. The size of the report: one element per playlist and per video, plus the
  header and one line per similar playlist when there are any; one element when there are
  no ids.\<close>

theorem get_output_length:
  "length (get_output_string rp rv s) =
     (if playlist_ids s = [] \<and> video_ids s = [] then 1
      else length (playlist_ids s) + length (video_ids s) +
           (if similar_playlists s = [] then 0 else Suc (length (similar_playlists s))))"
  by (simp add: get_output_string_def Let_def)

text \<open>C16. Ordered concatenation and round trip: when there are ids, the report starts
  with the playlists' and then the videos' own output in resolution order, and the lines
  after the header read back, in order, as exactly the similar-playlist records, provided
  ids and titles contain no comma.\<close>

theorem get_output_roundtrip:
  assumes "\<not> (playlist_ids s = [] \<and> video_ids s = [])"
    and "\<forall>r \<in> set (similar_playlists s). CHR '','' \<notin> set (sim_id r) \<and> CHR '','' \<notin> set (sim_title r)"
  shows "take (length (playlist_ids s) + length (video_ids s)) (get_output_string rp rv s) =
           map Rendered (map rp (playlist_ids s) @ map rv (video_ids s)) \<and>
         map (\<lambda>e. case e of Line l \<Rightarrow> parse_similar_line l | _ \<Rightarrow> None)
           (drop (Suc (length (playlist_ids s) + length (video_ids s))) (get_output_string rp rv s)) =
         map Some (similar_playlists s)"
proof -
  have "map (\<lambda>r. parse_similar_line (format_similar r)) (similar_playlists s) = map Some (similar_playlists s)"
    using assms(2) by (simp add: format_similar_parse)
  then show ?thesis
    by (simp add: get_output_not_empty [OF assms(1)] comp_def)
qed

theorem get_output_roundtrip_witness:
  "get_output_string playlist_id video_id demo_final =
     [Rendered ''PL1'', Rendered ''PL2'', Rendered ''PL3'', Rendered ''v1'',
      Line similar_header, Line ''ID: S1, Title: one, Channel: ch''] \<and>
   parse_similar_line ''ID: S1, Title: one, Channel: ch'' =
     Some \<lparr>sim_id = ''S1'', sim_title = ''one'', sim_channel = ''ch''\<rparr>"
proof -
  have ne: "\<not> (playlist_ids demo_final = [] \<and> video_ids demo_final = [])"
    and sims: "\<forall>r \<in> set (similar_playlists demo_final).
                 CHR '','' \<notin> set (sim_id r) \<and> CHR '','' \<notin> set (sim_title r)"
    by (simp_all add: fixture_defs set_playlist_ids_def set_video_ids_def)
  have out: "get_output_string playlist_id video_id demo_final =
     [Rendered ''PL1'', Rendered ''PL2'', Rendered ''PL3'', Rendered ''v1'',
      Line similar_header, Line ''ID: S1, Title: one, Channel: ch'']"
    by (simp add: get_output_string_def format_similar_def fixture_defs set_playlist_ids_def
        set_video_ids_def new_playlist_def new_video_def)
  from get_output_roundtrip [OF ne sims, of playlist_id video_id] out
  have "parse_similar_line ''ID: S1, Title: one, Channel: ch'' =
        Some \<lparr>sim_id = ''S1'', sim_title = ''one'', sim_channel = ''ch''\<rparr>"
    by (simp add: fixture_defs set_playlist_ids_def set_video_ids_def)
  with out show ?thesis by simp
qed

end
