(* ===== verification/Orchestrator.thy ===== *)
theory Orchestrator
  imports Resolver Similar Output
begin

text \<open>
  The orchestration of \<^verbatim>\<open>ItemList\<close> (\<^verbatim>\<open>src/src/itemlist.py\<close>, lines 29--32):
  \<^verbatim>\<open>do_async_work\<close> as the three phases sequenced by \<open>obind\<close>, and the same run
  as a state machine: a configuration records which phase the object has completed (the
  type of its state changes with it) or the exception that ended the run; \<open>run_step\<close>
  is one awaited phase, labelled with its events, and \<open>run_steps\<close> its closure
  concatenating the labels. The lemmas show that the machine is deterministic, that it makes
  progress from every non-final configuration, and that its complete runs are exactly the
  results of \<^verbatim>\<open>do_async_work\<close>.
\<close>

text \<open>\<^verbatim>\<open>ItemList.do_async_work\<close> (lines 29--32): the three phases, each awaited before
  the next starts; an exception of one aborts the rest.\<close>

definition do_async_work ::
  "'d api_env \<Rightarrow> (string, string) itemlist \<Rightarrow> ('d playlist, video) itemlist outcome" where
  "do_async_work env s =
     obind (populate_playlist_names env s) (\<lambda>s1.
     obind (populate_video_names env s1) (\<lambda>s2.
       fetch_similar_playlists env s2))"

text \<open>The client contract of the specification (section 6): construct, \<^verbatim>\<open>run()\<close>,
  then \<^verbatim>\<open>report()\<close>.\<close>

definition run_report ::
  "'d api_env \<Rightarrow> ('d playlist \<Rightarrow> 'r) \<Rightarrow> (video \<Rightarrow> 'r) \<Rightarrow> string \<Rightarrow> int option \<Rightarrow> int option \<Rightarrow>
   real option \<Rightarrow> string option \<Rightarrow> 'r out_elem list outcome" where
  "run_report env rp rv input start_r end_r speed key =
     obind (do_async_work env (init_itemlist input start_r end_r speed key)) (\<lambda>s.
       ([], Inr (get_output_string rp rv s)))"

datatype 'd config =
    Constructed "(string, string) itemlist"
  | PlaylistsResolved "('d playlist, string) itemlist"
  | VideosResolved "('d playlist, video) itemlist"
  | Finished "('d playlist, video) itemlist"
  | Raised py_error

text \<open>One awaited phase of \<^verbatim>\<open>do_async_work\<close>: its events and the configuration after
  it. The similar-playlist phase catches every exception, so it has no failing rule.\<close>

inductive run_step :: "'d api_env \<Rightarrow> 'd config \<Rightarrow> event list \<Rightarrow> 'd config \<Rightarrow> bool"
  for env :: "'d api_env" where
  playlists_ok: "populate_playlist_names env s = (es, Inr s') \<Longrightarrow>
    run_step env (Constructed s) es (PlaylistsResolved s')"
| playlists_err: "populate_playlist_names env s = (es, Inl e) \<Longrightarrow>
    run_step env (Constructed s) es (Raised e)"
| videos_ok: "populate_video_names env s = (es, Inr s') \<Longrightarrow>
    run_step env (PlaylistsResolved s) es (VideosResolved s')"
| videos_err: "populate_video_names env s = (es, Inl e) \<Longrightarrow>
    run_step env (PlaylistsResolved s) es (Raised e)"
| similar: "fetch_similar_playlists env s = (es, Inr s') \<Longrightarrow>
    run_step env (VideosResolved s) es (Finished s')"

inductive run_steps :: "'d api_env \<Rightarrow> 'd config \<Rightarrow> event list \<Rightarrow> 'd config \<Rightarrow> bool"
  for env :: "'d api_env" where
  refl: "run_steps env c [] c"
| step: "run_step env c es c' \<Longrightarrow> run_steps env c' es' c'' \<Longrightarrow> run_steps env c (es @ es') c''"

definition final_config :: "'d config \<Rightarrow> bool" where
  "final_config c = (case c of Finished _ \<Rightarrow> True | Raised _ \<Rightarrow> True | _ \<Rightarrow> False)"

text \<open>The configuration a result of \<^verbatim>\<open>do_async_work\<close> ends in.\<close>

definition result_config :: "('d playlist, video) itemlist result \<Rightarrow> 'd config" where
  "result_config r = (case r of Inl e \<Rightarrow> Raised e | Inr s \<Rightarrow> Finished s)"

text \<open>The invariant of the reachable configurations: the id lists never repeat an id, and
  once the playlists are resolved only the first entity carries a range window.\<close>

definition range_first_only :: "'d playlist list \<Rightarrow> bool" where
  "range_first_only ps = list_all (\<lambda>p. pl_start_range p = None \<and> pl_end_range p = None) (drop 1 ps)"

text \<open>Every resolved playlist completed \<^verbatim>\<open>do_async_work\<close> and took a name and a
  creator from its item.\<close>

definition resolved_entities :: "'d playlist list \<Rightarrow> bool" where
  "resolved_entities ps =
     list_all (\<lambda>p. playlist_name p \<noteq> None \<and> playlist_creator p \<noteq> None \<and> pl_work p \<noteq> None) ps"

definition cfg_inv :: "'d config \<Rightarrow> bool" where
  "cfg_inv c =
     (case c of
        Constructed s \<Rightarrow> distinct (playlist_ids s) \<and> distinct (video_ids s)
      | PlaylistsResolved s \<Rightarrow>
          distinct (map playlist_id (playlist_ids s)) \<and> range_first_only (playlist_ids s) \<and>
          resolved_entities (playlist_ids s) \<and> distinct (video_ids s)
      | VideosResolved s \<Rightarrow>
          distinct (map playlist_id (playlist_ids s)) \<and> range_first_only (playlist_ids s) \<and>
          resolved_entities (playlist_ids s) \<and> distinct (map video_id (video_ids s))
      | Finished s \<Rightarrow>
          distinct (map playlist_id (playlist_ids s)) \<and> range_first_only (playlist_ids s) \<and>
          resolved_entities (playlist_ids s) \<and> distinct (map video_id (video_ids s))
      | Raised e \<Rightarrow> True)"

text \<open>The number of phases still to run.\<close>

definition phase_rank :: "'d config \<Rightarrow> nat" where
  "phase_rank c =
     (case c of Constructed _ \<Rightarrow> 3 | PlaylistsResolved _ \<Rightarrow> 2 | VideosResolved _ \<Rightarrow> 1
      | Finished _ \<Rightarrow> 0 | Raised _ \<Rightarrow> 0)"

inductive_cases Constructed_stepE: "run_step env (Constructed s) es c"
inductive_cases PlaylistsResolved_stepE: "run_step env (PlaylistsResolved s) es c"
inductive_cases VideosResolved_stepE: "run_step env (VideosResolved s) es c"
inductive_cases Finished_stepE [elim!]: "run_step env (Finished s) es c"
inductive_cases Raised_stepE [elim!]: "run_step env (Raised e) es c"

inductive_simps run_steps_Nil: "run_steps env c [] c'"

lemma do_async_work_Inr:
  assumes "do_async_work env s = (es, Inr s')"
  shows "\<exists>es1 es2 s1 s2. populate_playlist_names env s = (es1, Inr s1) \<and>
           populate_video_names env s1 = (es2, Inr s2) \<and>
           es = es1 @ es2 @ fst (fetch_similar_playlists env s2) \<and>
           Inr s' = snd (fetch_similar_playlists env s2)"
  using assms
  by (auto simp: do_async_work_def obind_def split: prod.splits sum.splits)

text \<open>The playlist phase changes only \<open>playlist_ids\<close>: the video phase after it sends
  the original key and video ids.\<close>

lemma populate_playlist_names_keeps:
  assumes "populate_playlist_names env s = (es, Inr s1)"
  shows "youtube_api s1 = youtube_api s \<and> video_ids s1 = video_ids s"
proof -
  from populate_playlist_names_Inr [OF assms] have "s1 = set_playlist_ids s (playlist_ids s1)"
    by blast
  from arg_cong [OF this, of youtube_api] arg_cong [OF this, of video_ids] show ?thesis
    by simp
qed

lemma run_step_deterministic:
  "run_step env c es1 c1 \<Longrightarrow> run_step env c es2 c2 \<Longrightarrow> es1 = es2 \<and> c1 = c2"
  by (induction rule: run_step.induct) (auto elim: run_step.cases)

lemma final_no_step: "final_config c \<Longrightarrow> \<not> run_step env c es c'"
  by (auto simp: final_config_def split: config.splits)

lemma run_step_progress: "\<not> final_config c \<Longrightarrow> \<exists>es c'. run_step env c es c'"
proof (cases c)
  case (Constructed s)
  then show ?thesis
    by (cases "populate_playlist_names env s"; cases "snd (populate_playlist_names env s)")
       (auto intro: run_step.intros)
next
  case (PlaylistsResolved s)
  then show ?thesis
    by (cases "populate_video_names env s"; cases "snd (populate_video_names env s)")
       (auto intro: run_step.intros)
next
  case (VideosResolved s)
  then show ?thesis
    using run_step.similar [of env s "fst (fetch_similar_playlists env s)"]
    by (auto simp: fetch_similar_playlists_def fetch_loop_eq)
qed (simp_all add: final_config_def)

lemma run_steps_from_final:
  "run_steps env c es c' \<Longrightarrow> final_config c \<Longrightarrow> es = [] \<and> c' = c"
  by (induction rule: run_steps.induct) (auto dest: final_no_step)

lemma run_steps_deterministic:
  assumes "run_steps env c es1 c1" and "final_config c1"
    and "run_steps env c es2 c2" and "final_config c2"
  shows "es1 = es2 \<and> c1 = c2"
  using assms
proof (induction arbitrary: es2 rule: run_steps.induct)
  case (refl c)
  then show ?case by (auto dest: run_steps_from_final)
next
  case (step c es c' es' c'')
  from step.prems(2) show ?case
  proof cases
    case refl
    with step.hyps(1) step.prems(3) show ?thesis by (auto dest: final_no_step)
  next
    case (step es0 c0 es0')
    with run_step_deterministic [OF \<open>run_step env c es c'\<close>] step.IH step.prems(1,3)
    show ?thesis by fastforce
  qed
qed

lemma run_steps_do_async_work:
  "run_steps env (Constructed s) (fst (do_async_work env s)) (result_config (snd (do_async_work env s)))"
proof (cases "populate_playlist_names env s")
  case (Pair es1 r1)
  show ?thesis
  proof (cases r1)
    case (Inl e)
    with Pair show ?thesis
      using run_steps.step [OF run_step.playlists_err run_steps.refl, of env s es1 e]
      by (simp add: do_async_work_def result_config_def)
  next
    case (Inr s1)
    show ?thesis
    proof (cases "populate_video_names env s1")
      case (Pair es2 r2)
      show ?thesis
      proof (cases r2)
        case (Inl e)
        have "run_steps env (Constructed s) (es1 @ es2 @ []) (Raised e)"
          using Pair \<open>populate_playlist_names env s = (es1, r1)\<close> Inr Inl
          by (blast intro: run_steps.intros run_step.intros)
        with Pair \<open>populate_playlist_names env s = (es1, r1)\<close> Inr Inl show ?thesis
          by (simp add: do_async_work_def result_config_def)
      next
        case (Inr s2)
        obtain es3 s3 where f: "fetch_similar_playlists env s2 = (es3, Inr s3)"
          by (simp add: fetch_similar_playlists_def fetch_loop_eq)
        have "run_steps env (Constructed s) (es1 @ es2 @ es3 @ []) (Finished s3)"
          using Pair \<open>populate_playlist_names env s = (es1, r1)\<close> \<open>r1 = Inr s1\<close> Inr f
          by (blast intro: run_steps.intros run_step.intros)
        with Pair \<open>populate_playlist_names env s = (es1, r1)\<close> \<open>r1 = Inr s1\<close> Inr f show ?thesis
          by (simp add: do_async_work_def result_config_def)
      qed
    qed
  qed
qed

lemma final_result_config [simp]: "final_config (result_config r)"
  by (simp add: final_config_def result_config_def split: sum.split)


lemma run_step_rank: "run_step env c es c' \<Longrightarrow> phase_rank c' < phase_rank c"
  by (induction rule: run_step.induct) (simp_all add: phase_rank_def)

lemma run_steps_trans:
  "run_steps env c es c' \<Longrightarrow> run_steps env c' es' c'' \<Longrightarrow> run_steps env c (es @ es') c''"
  by (induction rule: run_steps.induct) (auto intro: run_steps.intros)

lemma playlists_resolved_ids:
  assumes "populate_playlist_names env s = (es, Inr s')"
  shows "map playlist_id (playlist_ids s') = take (length (playlist_ids s')) (playlist_ids s) \<and>
         range_first_only (playlist_ids s') \<and> resolved_entities (playlist_ids s') \<and>
         video_ids s' = video_ids s"
proof -
  from populate_playlist_names_Inr [OF assms] obtain its where
      s': "s' = set_playlist_ids s (playlist_ids s')"
      and len: "length (playlist_ids s') = min (length (playlist_ids s)) (length its)"
      and all: "\<forall>j < length (playlist_ids s').
                  resolved_as env s j (playlist_ids s ! j, its ! j) (playlist_ids s' ! j)"
    by blast
  have ids: "map playlist_id (playlist_ids s') = take (length (playlist_ids s')) (playlist_ids s)"
    by (rule nth_equalityI) (use len all in \<open>auto dest: resolved_as_fields\<close>)
  have "range_first_only (playlist_ids s')"
    unfolding range_first_only_def list_all_iff
  proof
    fix p
    assume "p \<in> set (drop 1 (playlist_ids s'))"
    then obtain j where j: "j < length (playlist_ids s') - 1" and p: "p = playlist_ids s' ! Suc j"
      by (auto simp: in_set_conv_nth)
    from all j have "resolved_as env s (Suc j) (playlist_ids s ! Suc j, its ! Suc j) (playlist_ids s' ! Suc j)"
      by simp
    from resolved_as_fields [OF this] p show "pl_start_range p = None \<and> pl_end_range p = None"
      by simp
  qed
  moreover have "resolved_entities (playlist_ids s')"
    unfolding resolved_entities_def list_all_iff
  proof
    fix p
    assume "p \<in> set (playlist_ids s')"
    then obtain j where j: "j < length (playlist_ids s')" and p: "p = playlist_ids s' ! j"
      by (auto simp: in_set_conv_nth)
    from all j have "resolved_as env s j (playlist_ids s ! j, its ! j) (playlist_ids s' ! j)"
      by simp
    from resolved_as_fields [OF this] p
    show "playlist_name p \<noteq> None \<and> playlist_creator p \<noteq> None \<and> pl_work p \<noteq> None"
      by auto
  qed
  moreover have "video_ids s' = video_ids s"
    using arg_cong [OF s', of video_ids] by simp
  ultimately show ?thesis using ids by blast
qed

lemma videos_resolved_ids:
  assumes "populate_video_names env s = (es, Inr s')"
  shows "map video_id (video_ids s') = take (length (video_ids s')) (video_ids s) \<and>
         playlist_ids s' = playlist_ids s"
proof -
  from assms obtain its where its: "items (call_youtube_api env ''videos'' (youtube_api s) (video_ids s)) = Some its"
      and s': "s' = set_video_ids s (map (\<lambda>(vid, data). new_video vid data (custom_speed s)) (zip (video_ids s) its))"
    using populate_video_names_Inr [OF assms] by blast
  have "map video_id (map (\<lambda>(vid, data). new_video vid data (custom_speed s)) (zip (video_ids s) its)) =
        map fst (zip (video_ids s) its)"
    by (auto simp: new_video_def)
  with s' show ?thesis
    by (simp add: map_fst_zip_take min_def)
qed

lemma run_step_cfg_inv: "run_step env c es c' \<Longrightarrow> cfg_inv c \<Longrightarrow> cfg_inv c'"
proof (induction rule: run_step.induct)
  case (playlists_ok s es s')
  from playlists_resolved_ids [OF playlists_ok.hyps] playlists_ok.prems show ?case
    by (auto simp: cfg_inv_def intro: distinct_take)
next
  case (videos_ok s es s')
  from videos_resolved_ids [OF videos_ok.hyps] videos_ok.prems show ?case
    by (auto simp: cfg_inv_def intro: distinct_take)
next
  case (similar s es s')
  then have "s' = s\<lparr>similar_playlists := concat (map (lookup_results env s) (playlist_ids s))\<rparr>"
    by (simp add: fetch_similar_playlists_def fetch_loop_eq)
  with similar.prems show ?case by (simp add: cfg_inv_def)
qed (simp_all add: cfg_inv_def)

lemma run_steps_cfg_inv: "run_steps env c es c' \<Longrightarrow> cfg_inv c \<Longrightarrow> cfg_inv c'"
  by (induction rule: run_steps.induct) (auto dest: run_step_cfg_inv)

lemma init_cfg_inv: "cfg_inv (Constructed (init_itemlist input start_r end_r speed key))"
  by (simp add: cfg_inv_def init_itemlist_ids get_item_ids_ref first_occurrences_distinct)


subsection \<open>Search requests of a run\<close>

lemma build_playlists_events:
  assumes "build_playlists env s acc pairs = (es, r)"
  shows "\<forall>e \<in> set es. \<exists>pid. e = WorkCall pid"
proof (cases r)
  case (Inl e)
  with build_playlists_Inl [of env s acc pairs es e] assms show ?thesis by auto
next
  case (Inr res)
  with build_playlists_Inr [of env s acc pairs es res] assms show ?thesis by auto
qed

lemma populate_playlist_no_search:
  "SearchCall p \<notin> set (fst (populate_playlist_names env s))"
proof (cases "items (call_youtube_api env ''playlists'' (youtube_api s) (playlist_ids s))")
  case None
  then show ?thesis by (simp add: populate_playlist_names_def Let_def)
next
  case (Some its)
  obtain es1 r1 where b: "build_playlists env s [] (zip (playlist_ids s) its) = (es1, r1)"
    by fastforce
  have "SearchCall p \<notin> set es1"
    using build_playlists_events [OF b] by auto
  with Some b show ?thesis
    by (cases r1) (auto simp: populate_playlist_names_def Let_def)
qed

lemma populate_video_events:
  "fst (populate_video_names env s) = [ApiCall ''videos'' (youtube_api s) (video_ids s)]"
  by (simp add: populate_video_names_def Let_def split: option.split)

lemma run_step_search_query:
  "run_step env c es c' \<Longrightarrow> cfg_inv c \<Longrightarrow> SearchCall p \<in> set es \<Longrightarrow> sp_q p \<noteq> None"
proof (induction rule: run_step.induct)
  case (playlists_ok s es s')
  with populate_playlist_no_search [of p env s] show ?case by simp
next
  case (playlists_err s es e)
  with populate_playlist_no_search [of p env s] show ?case by simp
next
  case (videos_ok s es s')
  with populate_video_events [of env s] show ?case by simp
next
  case (videos_err s es e)
  with populate_video_events [of env s] show ?case by simp
next
  case (similar s es s')
  then have "SearchCall p \<in> set (concat (map (lookup_events env s) (playlist_ids s)))"
    by (simp add: fetch_similar_playlists_def fetch_loop_eq)
  then obtain q where q: "q \<in> set (playlist_ids s)" and p: "p = similar_params s (playlist_name q)"
    by (auto simp: lookup_events_def split: sum.splits)
  from similar.prems(1) q have "playlist_name q \<noteq> None"
    by (auto simp: cfg_inv_def resolved_entities_def list_all_iff)
  with p show ?case by (simp add: similar_params_def)
qed

lemma run_steps_search_query:
  "run_steps env c es c' \<Longrightarrow> cfg_inv c \<Longrightarrow> SearchCall p \<in> set es \<Longrightarrow> sp_q p \<noteq> None"
  by (induction rule: run_steps.induct) (auto dest: run_step_search_query run_step_cfg_inv)

end
