(* ===== verification/Transport.thy ===== *)
theory Transport
  imports Similar
begin

text \<open>
  The transport scoping of \<^verbatim>\<open>call_similar_playlists_api\<close> (\<^verbatim>\<open>src/src/itemlist.py\<close>,
  lines 57--67): the request runs inside \<^verbatim>\<open>async with aiohttp.ClientSession()\<close>, it is
  sent when \<^verbatim>\<open>async with session.get(...)\<close> is entered, and the body is read by
  \<^verbatim>\<open>await response.json()\<close> inside that second context. A context manager's exit runs on
  every path out of its body and lets an exception propagate; \<open>async_with\<close> models that.
  \<open>search_transport\<close> is the call with the entering and leaving of both contexts and the
  body read as events; \<open>fetch_transport_loop\<close> is the loop of
  \<^verbatim>\<open>fetch_similar_playlists\<close> (lines 35--44) over it. \<open>ctx_stack\<close> replays a trace
  and returns the contexts still open. The property shown is that the loop reads a response
  body only while that response and its session are open, once for every search whose
  request returned a response and never for one whose request raised. Erasing the transport
  events gives back \<open>call_similar_playlists_api\<close> and \<open>fetch_loop\<close>.
\<close>

datatype ctx = Session | Response

text \<open>The events of the scoped call: entering and leaving a context, reading the response
  body (\<^verbatim>\<open>await response.json()\<close>), and the events of the other theories.\<close>

datatype tevent = Enter ctx | Exit ctx | ReadJson | Do event

text \<open>\<^verbatim>\<open>async with c: body\<close>: enter, run the body, exit whatever the body's outcome,
  and return that outcome (an exception of the body propagates).\<close>

definition async_with :: "ctx \<Rightarrow> tevent list \<times> 'a result \<Rightarrow> tevent list \<times> 'a result" where
  "async_with c body = (case body of (es, r) \<Rightarrow> (Enter c # es @ [Exit c], r))"

text \<open>The body of the session context: \<^verbatim>\<open>session.get(base_url, params=params)\<close> sends
  the request; if it raises, no response context is entered; otherwise the response context
  reads the body with \<^verbatim>\<open>response.json()\<close>, which raises when the body is not JSON, and
  evaluates the comprehension.\<close>

definition search_transport ::
  "'d api_env \<Rightarrow> ('p, 'v) itemlist \<Rightarrow> string option \<Rightarrow> tevent list \<times> similar list result" where
  "search_transport env s playlist_title =
     (let params = similar_params s playlist_title
      in async_with Session
           (case search_get env params of
              SearchRaised e \<Rightarrow> ([Do (SearchCall params)], Inl e)
            | JsonRaised e \<Rightarrow>
                (case async_with Response ([ReadJson], Inl e) of (es, r) \<Rightarrow> (Do (SearchCall params) # es, r))
            | SearchJson its \<Rightarrow>
                (case async_with Response ([ReadJson], project_items (case its of None \<Rightarrow> [] | Some xs \<Rightarrow> xs))
                 of (es, r) \<Rightarrow> (Do (SearchCall params) # es, r))))"

text \<open>The loop of \<^verbatim>\<open>fetch_similar_playlists\<close> over the scoped call: each search
  opens and closes its own session; a failed one is logged after its contexts are left.\<close>

fun fetch_transport_loop ::
  "'d api_env \<Rightarrow> ('d playlist, 'v) itemlist \<Rightarrow> similar list \<Rightarrow> 'd playlist list \<Rightarrow>
   tevent list \<times> similar list" where
  "fetch_transport_loop env s acc [] = ([], acc)"
| "fetch_transport_loop env s acc (playlist # rest) =
     (let title = playlist_name playlist
      in case search_transport env s title of
           (es, Inr results) \<Rightarrow>
             (case fetch_transport_loop env s (acc @ results) rest of (es', acc') \<Rightarrow> (es @ es', acc'))
         | (es, Inl e) \<Rightarrow>
             (case fetch_transport_loop env s acc rest of
                (es', acc') \<Rightarrow> (es @ Do (LogSimilarError (playlist_id playlist) e) # es', acc')))"

subsection \<open>Reference definitions\<close>

text \<open>The contexts open after a trace, innermost first; \<open>None\<close> when a context is left
  out of order.\<close>

fun ctx_stack :: "ctx list \<Rightarrow> tevent list \<Rightarrow> ctx list option" where
  "ctx_stack st [] = Some st"
| "ctx_stack st (Enter c # es) = ctx_stack (c # st) es"
| "ctx_stack st (Exit c # es) =
     (case st of [] \<Rightarrow> None | c' # st' \<Rightarrow> if c = c' then ctx_stack st' es else None)"
| "ctx_stack st (ReadJson # es) = ctx_stack st es"
| "ctx_stack st (Do e # es) = ctx_stack st es"

text \<open>Every body read of a trace happens while a response is open inside a session and
  nothing else.\<close>

definition reads_in_scope :: "tevent list \<Rightarrow> bool" where
  "reads_in_scope tr =
     (\<forall>i < length tr. tr ! i = ReadJson \<longrightarrow> ctx_stack [] (take i tr) = Some [Response, Session])"

text \<open>Whether \<^verbatim>\<open>session.get\<close> raised before a response was obtained.\<close>

fun request_raised :: "search_outcome \<Rightarrow> bool" where
  "request_raised (SearchRaised e) = True"
| "request_raised _ = False"

text \<open>The application-level events of a trace.\<close>

fun app_event :: "tevent \<Rightarrow> event option" where
  "app_event (Do e) = Some e"
| "app_event _ = None"

subsection \<open>Lemmas\<close>

lemma ctx_stack_append:
  "ctx_stack st (es @ es') = (case ctx_stack st es of None \<Rightarrow> None | Some st' \<Rightarrow> ctx_stack st' es')"
  by (induction st es rule: ctx_stack.induct) (auto split: list.split option.split)

lemma map_filter_append:
  "List.map_filter f (xs @ ys) = List.map_filter f xs @ List.map_filter f ys"
  by (simp add: map_filter_def)

lemma search_transport_erase:
  "List.map_filter app_event (fst (search_transport env s t)) = fst (call_similar_playlists_api env s t) \<and>
   snd (search_transport env s t) = snd (call_similar_playlists_api env s t)"
  by (cases "search_get env (similar_params s t)")
     (simp_all add: search_transport_def call_similar_playlists_api_def async_with_def Let_def
      split: option.split)

text \<open>The two shapes of a scoped search: the request raised before a response context
  was entered, or the response context was entered, its body read, and left.\<close>

lemma search_transport_trace:
  "fst (search_transport env s t) =
     (if request_raised (search_get env (similar_params s t))
      then [Enter Session, Do (SearchCall (similar_params s t)), Exit Session]
      else [Enter Session, Do (SearchCall (similar_params s t)), Enter Response, ReadJson,
            Exit Response, Exit Session])"
  by (cases "search_get env (similar_params s t)") (simp_all add: search_transport_def Let_def async_with_def)

text \<open>A trace that leaves every context it enters and reads only in scope can be followed
  by another such trace.\<close>

lemma reads_in_scope_append:
  assumes "ctx_stack [] xs = Some []" and "reads_in_scope xs" and "reads_in_scope ys"
  shows "reads_in_scope (xs @ ys)"
  unfolding reads_in_scope_def
proof (intro allI impI)
  fix i assume i: "i < length (xs @ ys)" and r: "(xs @ ys) ! i = ReadJson"
  show "ctx_stack [] (take i (xs @ ys)) = Some [Response, Session]"
  proof (cases "i < length xs")
    case True
    with assms(2) r show ?thesis by (simp add: reads_in_scope_def nth_append)
  next
    case False
    with i r assms(3) have "ctx_stack [] (take (i - length xs) ys) = Some [Response, Session]"
      by (simp add: reads_in_scope_def nth_append)
    with False assms(1) show ?thesis by (simp add: ctx_stack_append)
  qed
qed

lemma reads_in_scope_Do: "reads_in_scope [Do e]"
  by (simp add: reads_in_scope_def)

lemma search_transport_scoped:
  "ctx_stack [] (fst (search_transport env s t)) = Some [] \<and> reads_in_scope (fst (search_transport env s t))"
  by (simp add: search_transport_trace reads_in_scope_def less_Suc_eq nth_Cons')

lemma count_read_search:
  "count_list (fst (search_transport env s t)) ReadJson =
     (if request_raised (search_get env (similar_params s t)) then 0 else 1)"
  by (simp add: search_transport_trace)

lemma fetch_transport_closed: "ctx_stack [] (fst (fetch_transport_loop env s acc ps)) = Some []"
proof (induction ps arbitrary: acc)
  case Nil
  then show ?case by simp
next
  case (Cons p ps)
  have st: "ctx_stack [] (fst (search_transport env s (playlist_name p))) = Some []"
    using search_transport_scoped by blast
  show ?case
  proof (cases "snd (search_transport env s (playlist_name p))")
    case (Inl e)
    with Cons.IH [of acc] st show ?thesis
      by (cases "search_transport env s (playlist_name p)")
         (auto simp: Let_def ctx_stack_append split: prod.split)
  next
    case (Inr r)
    with Cons.IH [of "acc @ r"] st show ?thesis
      by (cases "search_transport env s (playlist_name p)")
         (auto simp: Let_def ctx_stack_append split: prod.split)
  qed
qed

subsection \<open>Properties\<close>

text \<open>C32. The similar-playlist loop reads each response body inside its scope: every
  \<^verbatim>\<open>response.json()\<close> of the loop's trace happens while that response and its session
  are open, and the loop reads exactly one body for every playlist whose request returned a
  response (a body that is not JSON included) and none for a request that raised.\<close>

theorem fetch_transport_reads:
  "reads_in_scope (fst (fetch_transport_loop env s acc ps)) \<and>
   count_list (fst (fetch_transport_loop env s acc ps)) ReadJson =
     length (filter (\<lambda>p. \<not> request_raised (search_get env (similar_params s (playlist_name p)))) ps)"
proof (induction ps arbitrary: acc)
  case Nil
  then show ?case by (simp add: reads_in_scope_def)
next
  case (Cons p ps)
  obtain es r where st: "search_transport env s (playlist_name p) = (es, r)"
    by (cases "search_transport env s (playlist_name p)")
  have es: "ctx_stack [] es = Some []" "reads_in_scope es"
    and cnt: "count_list es ReadJson =
                (if request_raised (search_get env (similar_params s (playlist_name p))) then 0 else 1)"
    using search_transport_scoped [of env s "playlist_name p"] count_read_search [of env s "playlist_name p"] st
    by simp_all
  show ?case
  proof (cases r)
    case (Inl e)
    obtain es' acc' where fl: "fetch_transport_loop env s acc ps = (es', acc')"
      by (cases "fetch_transport_loop env s acc ps")
    have "ctx_stack [] (es @ [Do (LogSimilarError (playlist_id p) e)]) = Some []"
      using es(1) by (simp add: ctx_stack_append)
    moreover have "reads_in_scope (es @ [Do (LogSimilarError (playlist_id p) e)])"
      using reads_in_scope_append [OF es reads_in_scope_Do] .
    moreover have "reads_in_scope es'"
      using Cons.IH [of acc] fl by simp
    ultimately have "reads_in_scope ((es @ [Do (LogSimilarError (playlist_id p) e)]) @ es')"
      by (rule reads_in_scope_append)
    with Cons.IH [of acc] Inl st fl cnt show ?thesis by (simp add: Let_def)
  next
    case (Inr x)
    obtain es' acc' where fl: "fetch_transport_loop env s (acc @ x) ps = (es', acc')"
      by (cases "fetch_transport_loop env s (acc @ x) ps")
    have "reads_in_scope es'"
      using Cons.IH [of "acc @ x"] fl by simp
    with es have "reads_in_scope (es @ es')"
      by (intro reads_in_scope_append)
    with Cons.IH [of "acc @ x"] Inr st fl cnt show ?thesis by (simp add: Let_def)
  qed
qed

theorem fetch_transport_reads_witness:
  "reads_in_scope (fst (fetch_transport_loop env_ok demo_resolved [] (playlist_ids demo_resolved))) \<and>
   count_list (fst (fetch_transport_loop env_ok demo_resolved [] (playlist_ids demo_resolved))) ReadJson = 2"
proof -
  have "length (filter (\<lambda>p. \<not> request_raised (search_get env_ok (similar_params demo_resolved (playlist_name p))))
          (playlist_ids demo_resolved)) = 2"
    by (simp add: fixture_defs similar_params_def set_playlist_ids_def new_playlist_def)
  with fetch_transport_reads [of env_ok demo_resolved "[]" "playlist_ids demo_resolved"] show ?thesis
    by simp
qed

text \<open>Refinement of the loop: erasing the transport events of the scoped loop gives the
  events and the accumulator of \<open>fetch_loop\<close>, so the properties of \<open>Similar\<close> hold
  of it.\<close>

lemma fetch_transport_refines:
  "List.map_filter app_event (fst (fetch_transport_loop env s acc ps)) = fst (fetch_loop env s acc ps) \<and>
   snd (fetch_transport_loop env s acc ps) = snd (fetch_loop env s acc ps)"
proof (induction ps arbitrary: acc)
  case Nil
  then show ?case by simp
next
  case (Cons p ps)
  have e: "List.map_filter app_event (fst (search_transport env s (playlist_name p))) =
             fst (call_similar_playlists_api env s (playlist_name p))"
    and r: "snd (search_transport env s (playlist_name p)) = snd (call_similar_playlists_api env s (playlist_name p))"
    using search_transport_erase by blast+
  show ?case
  proof (cases "snd (search_transport env s (playlist_name p))")
    case (Inl x)
    with Cons.IH [of acc] e r show ?thesis
      by (auto simp: Let_def map_filter_append simp del: call_similar_events split: prod.split)
  next
    case (Inr x)
    with Cons.IH [of "acc @ x"] e r show ?thesis
      by (auto simp: Let_def map_filter_append simp del: call_similar_events split: prod.split)
  qed
qed

end
