(* ===== verification/Spec2Isabelle.thy ===== *)
theory Spec2Isabelle
  imports Orchestrator Transport
begin

text \<open>
  \<^bold>\<open>A verification library for \<^verbatim>\<open>yt-playlist-len-calc\<close>.\<close>

  The program (\<^verbatim>\<open>src/src/itemlist.py\<close>, the Python type \<^verbatim>\<open>ItemList\<close>) takes free text with
  one video-platform link or bare identifier per line, classifies each line
  (\<^verbatim>\<open>get_id\<close>), collects the playlist and video identifiers without repeats
  (\<^verbatim>\<open>get_item_ids\<close>, called by \<^verbatim>\<open>__init__\<close>), resolves them with batched API calls
  (\<^verbatim>\<open>populate_playlist_names\<close>, \<^verbatim>\<open>populate_video_names\<close>), searches for similar
  playlists one playlist at a time (\<^verbatim>\<open>fetch_similar_playlists\<close>,
  \<^verbatim>\<open>call_similar_playlists_api\<close>) and assembles a report
  (\<^verbatim>\<open>get_output_string\<close>); \<^verbatim>\<open>do_async_work\<close> runs the three network phases in
  order.

  \<^bold>\<open>Theories and what they model.\<close>
  \<^item> \<open>Prelude\<close>: Python exceptions as the datatype \<open>py_error\<close>, results
    \<open>py_error + 'a\<close> with \<open>res_bind\<close>, the first-success search \<open>first_some\<close>, and
    list lemmas shared by the components.
  \<^item> \<open>PyStr\<close>: the CPython string primitives the code calls (\<^verbatim>\<open>str.isspace\<close>,
    the regex character set \<^verbatim>\<open>\w\<close>, \<^verbatim>\<open>strip\<close>, \<^verbatim>\<open>split\<close>/\<^verbatim>\<open>join\<close>) on code points
    U+0000..U+00FF, with the split/join round trip.
  \<^item> \<open>PyRe\<close>: the fragment of \<^verbatim>\<open>re\<close> used by \<^verbatim>\<open>get_id\<close> as a backtracking
    matcher \<open>sre_match\<close> over a node list, in the order CPython's \<^verbatim>\<open>sre\<close> tries
    alternatives; greedy repetition is characterised as a search from the longest run down.
  \<^item> \<open>LinkClassifier\<close> (\<^verbatim>\<open>get_id\<close>, lines 70--84): the four patterns node for
    node, the pattern loop \<open>first_match\<close> and \<open>get_id\<close>; the equivalence with the
    declarative \<open>classify\<close> and the classifier's properties.
  \<^item> \<open>OrderedDict\<close>: the insertion-ordered lookup of the specification (section 4.2),
    which the code gets from CPython's \<^verbatim>\<open>dict\<close>, as an association list;
    \<^verbatim>\<open>dict.fromkeys\<close> refined to first-occurrence deduplication.
  \<^item> \<open>IdentifierSet\<close> (\<^verbatim>\<open>get_item_ids\<close>, lines 136--150): the line loop
    \<open>collect_ids\<close> and the deduplication; ids are the first occurrences of their kind.
  \<^item> \<open>Entities\<close>: the collaborators that are not in the snapshot
    (\<^verbatim>\<open>src/playlist.py\<close>, \<^verbatim>\<open>src/video.py\<close>, \<^verbatim>\<open>src/utils.py\<close>, the HTTP service),
    modelled from the specification: payload records, the \<^verbatim>\<open>Playlist\<close>/\<^verbatim>\<open>Video\<close>
    records and constructors, the interface record \<open>api_env\<close> of the external
    operations (including the checks of the \<^verbatim>\<open>Video\<close> constructor, which may raise), and the effects of a run as a list of \<open>event\<close>s paired with a result
    (\<open>'a outcome\<close>, sequenced by \<open>obind\<close>). Every theorem holds for every environment.
  \<^item> \<open>ItemListState\<close>: the object's attributes as the record \<open>itemlist\<close>, parametric
    in the element types of \<^verbatim>\<open>playlist_ids\<close>/\<^verbatim>\<open>video_ids\<close> (strings before
    resolution, entities after), and \<^verbatim>\<open>__init__\<close> as \<open>init_itemlist\<close>.
  \<^item> \<open>Fixtures\<close>: concrete environments and states on which the witnesses evaluate.
  \<^item> \<open>Resolver\<close> (lines 86--134): both batch phases; the playlist loop over
    \<^verbatim>\<open>zip(ids, items)\<close> is \<open>build_playlists\<close> and the video loop is
    \<open>build_videos\<close>, in which an exception of \<^verbatim>\<open>Video(...)\<close> propagates; the lemmas
    characterise a successful phase (\<open>populate_playlist_names_Inr\<close>,
    \<open>populate_video_names_Inr\<close>) and the events of a failing one; every branch of the
    error payload (\<^verbatim>\<open>error\<close> and \<^verbatim>\<open>message\<close> present or missing) is a theorem.
  \<^item> \<open>Similar\<close> (lines 35--67): the search request with its all-or-nothing
    projection and the failure-isolating loop \<open>fetch_loop\<close>, refined to
    \<open>concat (map lookup_results ps)\<close>; the five-result cap holds only if the service
    honours \<^verbatim>\<open>maxResults\<close>.
  \<^item> \<open>Transport\<close> (lines 35--67): the two \<^verbatim>\<open>async with\<close> contexts of the search
    call and its \<^verbatim>\<open>response.json()\<close> as events (\<open>async_with\<close>,
    \<open>search_transport\<close>) and the loop of \<^verbatim>\<open>fetch_similar_playlists\<close> over that call
    (\<open>fetch_transport_loop\<close>); the loop reads every body inside its response and session
    (\<open>reads_in_scope\<close>), once per request that returned a response; erasing the transport
    events gives back \<open>fetch_loop\<close> of \<open>Similar\<close>.
  \<^item> \<open>Output\<close> (lines 152--172): the report over opaque entity renderers, and a
    parser of the similar-playlist lines for the round trip.
  \<^item> \<open>Orchestrator\<close> (lines 29--32): \<^verbatim>\<open>do_async_work\<close> as \<open>obind\<close> of the three
    phases, and the same run as the inductive phase machine \<open>run_step\<close>/\<open>run_steps\<close>
    over configurations (constructed, playlists resolved, videos resolved, finished, raised),
    whose complete runs are those of \<^verbatim>\<open>do_async_work\<close>, with the preservation of
    \<open>cfg_inv\<close>.
  \<^item> This theory: the properties that span components. A playlist error aborts the
    run, and so does a video-phase error after a resolved playlist phase; the run raises
    exactly these errors and never one of a similar-playlist search; the phases run in
    order. Every reachable configuration of the phase machine keeps the ids duplicate-free,
    the range window on the first playlist only, and the resolved playlists named; every
    search request therefore has a query. End to end, a successful report lists the
    resolved entities in the first-occurrence order of the input; input without a valid id
    still makes both batched calls and reports no results.

  \<^bold>\<open>Bounds and fuel.\<close> No loop of the program can run forever: every loop is over a
  finite list and is structural recursion; the regex matcher terminates by the measure
  (remaining subject, size of the pattern). No fuel is used.

  \<^bold>\<open>Not modelled.\<close> The text of logging output (only that, and what, is logged, as
  events); the HTTP protocol below the two context managers (sockets, connection pooling,
  timeouts: the environment's search outcome says only whether the request raised, the body
  was not JSON, or JSON came back); the duration arithmetic and \<^verbatim>\<open>get_output_string\<close> of the
  \<^verbatim>\<open>Playlist\<close> and \<^verbatim>\<open>Video\<close> entities, which are not in the repository snapshot
  (their outputs are opaque values of the report); what the \<^verbatim>\<open>Video\<close> constructor
  checks (a parameter of the environment that may raise) and any failure of the
  \<^verbatim>\<open>Playlist\<close> constructor, which is taken to be total (its asynchronous
  \<^verbatim>\<open>do_async_work\<close> may raise). Python's \<^verbatim>\<open>None\<close> passed as a search
  query is kept as \<open>None\<close> in the request. Strings are modelled on code points below
  U+0100.
\<close>


section \<open>End-to-end properties\<close>

text \<open>C8. A playlist-phase error is fatal: \<^verbatim>\<open>do_async_work\<close> fails with it, after exactly
  the playlist phase's events; no video call and no search request is made.\<close>

theorem do_async_work_playlist_error_aborts:
  assumes "populate_playlist_names env s = (es, Inl e)"
  shows "do_async_work env s = (es, Inl e)"
  using assms by (simp add: do_async_work_def)

theorem do_async_work_playlist_error_aborts_witness:
  "populate_playlist_names env_error demo_state =
     (fst (populate_playlist_names env_error demo_state), Inl (PyException ''quotaExceeded'')) \<and>
   do_async_work env_error demo_state =
     (fst (populate_playlist_names env_error demo_state), Inl (PyException ''quotaExceeded''))"
proof -
  have p: "populate_playlist_names env_error demo_state =
     (fst (populate_playlist_names env_error demo_state), Inl (PyException ''quotaExceeded''))"
    by (simp add: resolver_eval fixture_defs)
  with do_async_work_playlist_error_aborts [OF p] show ?thesis by simp
qed

text \<open>C28. A video-phase error is fatal as well: when the playlist phase succeeds and the
  videos endpoint answers without \<^verbatim>\<open>items\<close>, \<^verbatim>\<open>do_async_work\<close> fails with
  \<^verbatim>\<open>KeyError\<close> after the playlist phase's events and the one video call, sent with
  the original key and ids; no search request is made.\<close>

theorem do_async_work_video_error_aborts:
  assumes "populate_playlist_names env s = (es1, Inr s1)"
    and "items (call_youtube_api env ''videos'' (youtube_api s) (video_ids s)) = None"
  shows "do_async_work env s =
           (es1 @ [ApiCall ''videos'' (youtube_api s) (video_ids s)], Inl (KeyError ''items''))"
proof -
  have k: "youtube_api s1 = youtube_api s" "video_ids s1 = video_ids s"
    using populate_playlist_names_keeps [OF assms(1)] by simp_all
  with assms show ?thesis
    by (simp add: do_async_work_def populate_video_names_def)
qed

theorem do_async_work_video_error_aborts_witness:
  "do_async_work env_videos_error demo_state =
     (fst (populate_playlist_names env_videos_error demo_state) @
        [ApiCall ''videos'' (Some ''KEY'') [''v1'']], Inl (KeyError ''items''))"
proof -
  have p: "populate_playlist_names env_videos_error demo_state =
     (fst (populate_playlist_names env_videos_error demo_state),
      Inr (projr (snd (populate_playlist_names env_videos_error demo_state))))"
    by (simp add: resolver_eval fixture_defs)
  have v: "items (call_youtube_api env_videos_error ''videos'' (youtube_api demo_state) (video_ids demo_state)) = None"
    by (simp add: fixture_defs)
  from do_async_work_video_error_aborts [OF p v] show ?thesis
    by (simp add: demo_state_def)
qed

text \<open>C30. The run raises exactly the exceptions of the two batch phases: \<^verbatim>\<open>do_async_work\<close>
  fails with \<open>e\<close> if and only if the playlist phase fails with \<open>e\<close>, or it succeeds and
  the video phase then fails with \<open>e\<close>. A failed similar-playlist search never makes the
  run fail (section 7 of the specification: other partial failures only make the similar
  section less complete).\<close>

theorem do_async_work_raises_iff:
  "snd (do_async_work env s) = Inl e \<longleftrightarrow>
   snd (populate_playlist_names env s) = Inl e \<or>
   (\<exists>es1 s1. populate_playlist_names env s = (es1, Inr s1) \<and> snd (populate_video_names env s1) = Inl e)"
proof -
  obtain es1 r1 where p: "populate_playlist_names env s = (es1, r1)"
    by (cases "populate_playlist_names env s")
  show ?thesis
  proof (cases r1)
    case (Inl e1)
    with p show ?thesis by (simp add: do_async_work_def)
  next
    case (Inr s1)
    obtain es2 r2 where v: "populate_video_names env s1 = (es2, r2)"
      by (cases "populate_video_names env s1")
    with p v Inr show ?thesis
      by (cases r2) (auto simp: do_async_work_def fetch_similar_Inr)
  qed
qed

text \<open>C12. The phases run in order and each completes before the next: the events of a
  successful run are those of the playlist phase, then the single video call, then the
  searches, which are made for the resolved playlists; the final similar list is the
  concatenation of the successful lookups.\<close>

theorem do_async_work_phases:
  assumes "do_async_work env s = (es, Inr s')"
  shows "\<exists>es1 s1 s2. populate_playlist_names env s = (es1, Inr s1) \<and>
           populate_video_names env s1 = ([ApiCall ''videos'' (youtube_api s) (video_ids s)], Inr s2) \<and>
           es = es1 @ [ApiCall ''videos'' (youtube_api s) (video_ids s)] @
                concat (map (lookup_events env s2) (playlist_ids s2)) \<and>
           s' = s2\<lparr>similar_playlists := concat (map (lookup_results env s2) (playlist_ids s2))\<rparr>"
proof -
  from do_async_work_Inr [OF assms] obtain es1 es2 s1 s2 where
      p: "populate_playlist_names env s = (es1, Inr s1)"
      and v: "populate_video_names env s1 = (es2, Inr s2)"
      and es: "es = es1 @ es2 @ fst (fetch_similar_playlists env s2)"
      and f: "Inr s' = snd (fetch_similar_playlists env s2)"
    by blast
  have k: "youtube_api s1 = youtube_api s" "video_ids s1 = video_ids s"
    using populate_playlist_names_keeps [OF p] by simp_all
  have es2: "es2 = [ApiCall ''videos'' (youtube_api s) (video_ids s)]"
    using v k by (cases "items (call_youtube_api env ''videos'' (youtube_api s1) (video_ids s1))")
      (auto simp: populate_video_names_def)
  from v es2 have v': "populate_video_names env s1 = ([ApiCall ''videos'' (youtube_api s) (video_ids s)], Inr s2)"
    by simp
  have "fetch_similar_playlists env s2 =
     (concat (map (lookup_events env s2) (playlist_ids s2)),
      Inr (s2\<lparr>similar_playlists := concat (map (lookup_results env s2) (playlist_ids s2))\<rparr>))"
    by (simp add: fetch_similar_playlists_def fetch_loop_eq)
  with p v' es es2 f show ?thesis by auto
qed

theorem do_async_work_phases_witness:
  "\<exists>es s'. do_async_work env_ok demo_state = (es, Inr s') \<and> length es = 9 \<and>
     es ! 4 = ApiCall ''videos'' (Some ''KEY'') [''v1''] \<and> length (similar_playlists s') = 2"
proof -
  have "\<exists>es s'. do_async_work env_ok demo_state = (es, Inr s')"
    by (simp add: do_async_work_def resolver_eval similar_eval fetch_similar_playlists_def
        fetch_loop_eq fixture_defs)
  then obtain es s' where run: "do_async_work env_ok demo_state = (es, Inr s')"
    by blast
  from do_async_work_phases [OF run] obtain es1 s1 s2 where
      p: "populate_playlist_names env_ok demo_state = (es1, Inr s1)"
      and v: "populate_video_names env_ok s1 = ([ApiCall ''videos'' (youtube_api demo_state) (video_ids demo_state)], Inr s2)"
      and es: "es = es1 @ [ApiCall ''videos'' (youtube_api demo_state) (video_ids demo_state)] @
                 concat (map (lookup_events env_ok s2) (playlist_ids s2))"
      and s': "s' = s2\<lparr>similar_playlists := concat (map (lookup_results env_ok s2) (playlist_ids s2))\<rparr>"
    by blast
  have "(es1, Inr s1) = populate_playlist_names env_ok demo_state" using p by simp
  then have s1: "s1 = projr (snd (populate_playlist_names env_ok demo_state))"
    and es1: "es1 = fst (populate_playlist_names env_ok demo_state)"
    by (metis prod.inject sum.sel(2) prod.collapse)+
  from v have "s2 = projr (snd (populate_video_names env_ok s1))" by simp
  with s1 es1 es s' have "length es = 9 \<and> es ! 4 = ApiCall ''videos'' (Some ''KEY'') [''v1''] \<and>
      length (similar_playlists s') = 2"
    by (simp add: resolver_eval similar_eval fixture_defs)
  with run show ?thesis by blast
qed


subsection \<open>The run as a state machine\<close>

text \<open>C9. Invariant of every configuration reachable from a freshly constructed object:
  the playlist and video id lists never repeat an id (before and after resolution), and only
  the first resolved playlist carries the range window.\<close>

theorem reachable_cfg_inv:
  assumes "run_steps env (Constructed (init_itemlist input start_r end_r speed key)) es c"
  shows "cfg_inv c"
proof -
  have "cfg_inv (Constructed (init_itemlist input start_r end_r speed key))"
    by (simp add: cfg_inv_def init_itemlist_ids get_item_ids_ref first_occurrences_distinct)
  from run_steps_cfg_inv [OF assms this] show ?thesis .
qed

theorem reachable_cfg_inv_witness:
  "cfg_inv (result_config (snd (do_async_work env_ok
     (init_itemlist ''PL1\<newline>PL1\<newline>PL2'' (Some 1) (Some 5) None (Some ''KEY'')))))"
  by (rule reachable_cfg_inv [OF run_steps_do_async_work])


text \<open>C14. The similar-playlist search only runs on resolved playlists: every search
  request made in a run from a constructed object has a query, the title of a playlist.\<close>

theorem run_search_queries_named:
  assumes "run_steps env (Constructed (init_itemlist input start_r end_r speed key)) es c"
    and "SearchCall p \<in> set es"
  shows "\<exists>q. sp_q p = Some q"
  using run_steps_search_query [OF assms(1) init_cfg_inv assms(2)] by blast

theorem run_search_queries_named_witness:
  "\<exists>q. sp_q (similar_params (init_itemlist ''PL1'' None None None (Some ''KEY'')) (Some ''TPL1'')) = Some q"
proof -
  have "SearchCall (similar_params (init_itemlist ''PL1'' None None None (Some ''KEY'')) (Some ''TPL1'')) \<in>
      set (fst (do_async_work env_ok (init_itemlist ''PL1'' None None None (Some ''KEY''))))"
    by (simp add: do_async_work_def init_itemlist_def get_item_ids_eval resolver_eval similar_eval
        fetch_similar_playlists_def fetch_loop_eq fixture_defs)
  from run_search_queries_named [OF run_steps_do_async_work this] show ?thesis .
qed

text \<open>C23. Input without a valid id: the run still makes both batched calls, with empty id
  lists, and no search; the report is the single no-results element.\<close>

theorem run_report_no_ids:
  assumes "get_item_ids input = ([], [])"
    and "items (call_youtube_api env ''playlists'' key []) \<noteq> None"
    and "items (call_youtube_api env ''videos'' key []) \<noteq> None"
  shows "run_report env rp rv input start_r end_r speed key =
           ([ApiCall ''playlists'' key [], ApiCall ''videos'' key []], Inr [Lines [no_results_message]])"
proof -
  let ?s = "init_itemlist input start_r end_r speed key"
  have ids: "playlist_ids ?s = []" "video_ids ?s = []" "youtube_api ?s = key"
    using assms(1) by (simp_all add: init_itemlist_def)
  have p: "populate_playlist_names env ?s = ([ApiCall ''playlists'' key []], Inr (set_playlist_ids ?s []))"
    using assms(2) ids by (auto simp: populate_playlist_names_def Let_def)
  have v: "populate_video_names env (set_playlist_ids ?s []) =
      ([ApiCall ''videos'' key []], Inr (set_video_ids (set_playlist_ids ?s []) []))"
    using assms(3) ids by (auto simp: populate_video_names_def Let_def)
  show ?thesis
    by (simp add: run_report_def do_async_work_def p v fetch_similar_playlists_def
        get_output_string_def)
qed

theorem run_report_no_ids_witness:
  "run_report env_empty playlist_id video_id ''  \<newline>?'' None None None (Some ''KEY'') =
     ([ApiCall ''playlists'' (Some ''KEY'') [], ApiCall ''videos'' (Some ''KEY'') []],
      Inr [Lines [no_results_message]])"
proof -
  have "get_item_ids ''  \<newline>?'' = ([], [])"
    by (simp add: get_item_ids_eval)
  then show ?thesis
    using run_report_no_ids [of "''  \<newline>?''" env_empty "Some ''KEY''" playlist_id video_id]
    by (simp add: env_empty_def)
qed




end
